(* ===== verification/Prelude.thy ===== *)
theory Prelude
  imports Main "HOL-Library.AList" "HOL-Library.Sublist"
begin

text \<open>
  Shared vocabulary of the development.

  Python code that performs effects and may raise is modelled in a state and exception
  style: an operation of type \<open>('s, 'e, 'a) op\<close> takes the state, and returns either the
  exception (\<open>Inl\<close>) or the value (\<open>Inr\<close>), with the state as it is at that moment.
  An exception does not roll the state back, as in Python.

  The second part is a small calculus of frame conditions: \<open>keeps R m\<close> says that
  whatever \<open>m\<close> does, raising included, the state afterwards is related to the state
  before by \<open>R\<close>.  It is a locale, interpreted wherever a frame is proved.
\<close>

section \<open>Collections of facts\<close>

named_theorems op_simps "unfolding of the sequencing of operations"
named_theorems py_text "facts on Python's string operations"

section \<open>Operations with state and exceptions\<close>

type_synonym ('s, 'e, 'a) op = "'s \<Rightarrow> ('e + 'a) \<times> 's"

definition ret :: "'a \<Rightarrow> ('s, 'e, 'a) op" where
  "ret x s = (Inr x, s)"

definition raise :: "'e \<Rightarrow> ('s, 'e, 'a) op" where
  "raise e s = (Inl e, s)"

definition bindm :: "('s, 'e, 'a) op \<Rightarrow> ('a \<Rightarrow> ('s, 'e, 'b) op) \<Rightarrow> ('s, 'e, 'b) op" where
  "bindm m f s = (case m s of (Inl e, s') \<Rightarrow> (Inl e, s') | (Inr x, s') \<Rightarrow> f x s')"

text \<open>\<open>try: m  except ... as e: h e\<close>, for a handler that catches every exception of the model.\<close>

definition catchm :: "('s, 'e, 'a) op \<Rightarrow> ('e \<Rightarrow> ('s, 'e, 'a) op) \<Rightarrow> ('s, 'e, 'a) op" where
  "catchm m h s = (case m s of (Inl e, s') \<Rightarrow> h e s' | (Inr x, s') \<Rightarrow> (Inr x, s'))"

text \<open>
  \<open>try: m  finally: c\<close>: the clean-up runs in both cases; an exception of the clean-up wins
  over the one of the body.
\<close>

definition finallym :: "('s, 'e, 'a) op \<Rightarrow> ('s, 'e, unit) op \<Rightarrow> ('s, 'e, 'a) op" where
  "finallym m c s = (case m s of (r, s') \<Rightarrow>
     (case c s' of (Inl e, s'') \<Rightarrow> (Inl e, s'') | (Inr _, s'') \<Rightarrow> (r, s'')))"

definition getm :: "('s, 'e, 's) op" where
  "getm s = (Inr s, s)"

definition modm :: "('s \<Rightarrow> 's) \<Rightarrow> ('s, 'e, unit) op" where
  "modm f s = (Inr (), f s)"

definition liftr :: "'e + 'a \<Rightarrow> ('s, 'e, 'a) op" where
  "liftr r s = (r, s)"

definition assertm :: "bool \<Rightarrow> 'e \<Rightarrow> ('s, 'e, unit) op" where
  "assertm b e s = (if b then (Inr (), s) else (Inl e, s))"

lemmas op_defs = ret_def raise_def bindm_def catchm_def finallym_def getm_def modm_def
  liftr_def assertm_def

lemma bindm_ret [simp]: "bindm (ret x) f = f x"
  by (simp add: fun_eq_iff bindm_def ret_def)

lemma bindm_raise [simp]: "bindm (raise e) f = raise e"
  by (simp add: fun_eq_iff bindm_def raise_def)

lemma bindm_assoc: "bindm (bindm m f) g = bindm m (\<lambda>x. bindm (f x) g)"
  by (simp add: fun_eq_iff bindm_def split: prod.splits sum.splits)

lemma bindm_Inr: "m s = (Inr x, s') \<Longrightarrow> bindm m f s = f x s'"
  by (simp add: bindm_def)

lemma bindm_Inl: "m s = (Inl e, s') \<Longrightarrow> bindm m f s = (Inl e, s')"
  by (simp add: bindm_def)

lemma bindm_InrE:
  assumes "bindm m f s = (Inr y, t)"
  obtains x s' where "m s = (Inr x, s')" and "f x s' = (Inr y, t)"
  using assms by (auto simp: bindm_def split: prod.splits sum.splits)

lemma bindm_InlE:
  assumes "bindm m f s = (Inl e, t)"
  obtains "m s = (Inl e, t)" | x s' where "m s = (Inr x, s')" and "f x s' = (Inl e, t)"
  using assms by (auto simp: bindm_def split: prod.splits sum.splits)

lemma assertm_bind: "bindm (assertm b e) f s = (if b then f () s else (Inl e, s))"
  by (simp add: bindm_def assertm_def)

lemma liftr_bind: "bindm (liftr r) f s = (case r of Inl e \<Rightarrow> (Inl e, s) | Inr x \<Rightarrow> f x s)"
  by (simp add: bindm_def liftr_def split: sum.splits)

lemma getm_bind: "bindm getm f s = f s s"
  by (simp add: bindm_def getm_def)

lemma modm_bind: "bindm (modm g) f s = f () (g s)"
  by (simp add: bindm_def modm_def)

lemmas op_run [op_simps] = assertm_bind liftr_bind getm_bind modm_bind bindm_Inr bindm_Inl
  ret_def raise_def

section \<open>Frame conditions\<close>

definition keeps :: "('s \<Rightarrow> 's \<Rightarrow> bool) \<Rightarrow> ('s, 'e, 'a) op \<Rightarrow> bool" where
  "keeps R m \<longleftrightarrow> (\<forall>s. R s (snd (m s)))"

locale frame_rel =
  fixes R :: "'s \<Rightarrow> 's \<Rightarrow> bool"
  assumes frame_refl: "R s s"
    and frame_trans: "R s t \<Longrightarrow> R t u \<Longrightarrow> R s u"
begin

lemma keeps_ret: "keeps R (ret x)"
  by (simp add: keeps_def ret_def frame_refl)

lemma keeps_raise: "keeps R (raise e)"
  by (simp add: keeps_def raise_def frame_refl)

lemma keeps_get: "keeps R getm"
  by (simp add: keeps_def getm_def frame_refl)

lemma keeps_lift: "keeps R (liftr r)"
  by (simp add: keeps_def liftr_def frame_refl)

lemma keeps_assert: "keeps R (assertm b e)"
  by (simp add: keeps_def assertm_def frame_refl)

lemma keeps_bind:
  assumes "keeps R m" and "\<And>x. keeps R (f x)"
  shows "keeps R (bindm m f)"
  unfolding keeps_def
proof
  fix s
  show "R s (snd (bindm m f s))"
  proof (cases "m s")
    case (Pair r s')
    from assms(1) Pair have 1: "R s s'" by (metis keeps_def snd_conv)
    show ?thesis
    proof (cases r)
      case (Inl e)
      with Pair 1 show ?thesis by (simp add: bindm_def)
    next
      case (Inr x)
      from assms(2) have "R s' (snd (f x s'))" by (simp add: keeps_def)
      with Pair Inr 1 show ?thesis by (simp add: bindm_def frame_trans)
    qed
  qed
qed

lemma keeps_bind_Inr:
  assumes "keeps R m" and "\<And>x s s'. m s = (Inr x, s') \<Longrightarrow> keeps R (f x)"
  shows "keeps R (bindm m f)"
  unfolding keeps_def
proof
  fix s
  show "R s (snd (bindm m f s))"
  proof (cases "m s")
    case (Pair r s')
    from assms(1) Pair have 1: "R s s'" by (metis keeps_def snd_conv)
    show ?thesis
    proof (cases r)
      case (Inl e)
      with Pair 1 show ?thesis by (simp add: bindm_def)
    next
      case (Inr x)
      with Pair have "m s = (Inr x, s')" by simp
      from assms(2) [OF this] have "R s' (snd (f x s'))" by (simp add: keeps_def)
      with Pair Inr 1 show ?thesis by (simp add: bindm_def frame_trans)
    qed
  qed
qed

lemma keeps_lift_bind:
  "(\<And>x. r = Inr x \<Longrightarrow> keeps R (f x)) \<Longrightarrow> keeps R (bindm (liftr r) f)"
  by (rule keeps_bind_Inr) (auto simp: keeps_lift liftr_def)

lemma keeps_assert_bind:
  "(b \<Longrightarrow> keeps R (f ())) \<Longrightarrow> keeps R (bindm (assertm b e) f)"
  by (rule keeps_bind_Inr) (auto simp: keeps_assert assertm_def split: if_splits)

lemma keeps_catch:
  assumes "keeps R m" and "\<And>e. keeps R (h e)"
  shows "keeps R (catchm m h)"
  unfolding keeps_def
proof
  fix s
  obtain r s' where m: "m s = (r, s')" by fastforce
  with assms(1) have "R s s'" by (metis keeps_def snd_conv)
  moreover from assms(2) have "\<And>e. R s' (snd (h e s'))" by (simp add: keeps_def)
  ultimately show "R s (snd (catchm m h s))"
    using m frame_trans by (cases r) (auto simp: catchm_def)
qed

lemma keeps_finally:
  assumes "keeps R m" and "keeps R c"
  shows "keeps R (finallym m c)"
  unfolding keeps_def
proof
  fix s
  obtain r s' where m: "m s = (r, s')" by fastforce
  obtain q s'' where c: "c s' = (q, s'')" by fastforce
  from m assms(1) have "R s s'" by (metis keeps_def snd_conv)
  moreover from c assms(2) have "R s' s''" by (metis keeps_def snd_conv)
  ultimately show "R s (snd (finallym m c s))"
    using m c frame_trans by (cases q) (auto simp: finallym_def)
qed

lemma keeps_if: "keeps R m \<Longrightarrow> keeps R m' \<Longrightarrow> keeps R (if b then m else m')"
  by simp

lemmas keeps_basic = keeps_ret keeps_raise keeps_get keeps_lift keeps_assert

end

section \<open>Association lists\<close>

text \<open>
  Python's dict, where its order or its listing matters: an association list, updated with
  \<open>AList.update\<close> (a new key goes to the end, an existing one keeps its place) and
  \<open>AList.delete\<close>.
\<close>

lemmas alist_simps [simp] = AList.update_conv' AList.delete_conv'

lemma map_of_filter_fst:
  "map_of (filter (\<lambda>kv. P (fst kv)) al) k = (if P k then map_of al k else None)"
  by (induction al) auto

section \<open>Lists\<close>

lemma takeWhile_dropWhile_eq: "takeWhile P xs = ys \<Longrightarrow> dropWhile P xs = zs \<Longrightarrow> xs = ys @ zs"
  by auto

lemma dropWhile_Nil_iff: "dropWhile P xs = [] \<longleftrightarrow> (\<forall>x\<in>set xs. P x)"
  by (induction xs) auto

lemma find_Some_least:
  assumes "find P xs = Some x"
  shows "x \<in> set xs \<and> P x \<and> (\<exists>ys zs. xs = ys @ x # zs \<and> (\<forall>y\<in>set ys. \<not> P y))"
  using assms
proof (induction xs)
  case Nil
  then show ?case by simp
next
  case (Cons a xs)
  show ?case
  proof (cases "P a")
    case True
    with Cons.prems have "x = a" by simp
    with True show ?thesis by (intro conjI exI [of _ "[]"] exI [of _ xs]) auto
  next
    case False
    with Cons.prems have "find P xs = Some x" by simp
    from Cons.IH [OF this] obtain ys zs where
      "x \<in> set xs" "P x" "xs = ys @ x # zs" "\<forall>y\<in>set ys. \<not> P y" by blast
    with False show ?thesis
      by (intro conjI exI [of _ "a # ys"] exI [of _ zs]) auto
  qed
qed

lemma find_None_all: "find P xs = None \<Longrightarrow> x \<in> set xs \<Longrightarrow> \<not> P x"
  by (auto simp: find_None_iff)

end
