(* ===== verification/PyText.thy ===== *)
theory PyText
  imports Prelude
begin

text \<open>
  The operations of Python's \<open>str\<close> that the program uses, on \<open>string\<close> (a list of
  characters).  A character stands for a code point below 256: the program's patterns,
  keys, names and configuration keywords are ASCII, and what the operations do on the other
  code points of that range (which ones are white space, digits, letters or line breaks) is
  as in Python.
\<close>

section \<open>Character classes\<close>

definition code :: "char \<Rightarrow> nat" where
  "code c = of_char c"

definition py_isspace :: "char \<Rightarrow> bool" where
  "py_isspace c \<longleftrightarrow> code c \<in> {9, 10, 11, 12, 13, 28, 29, 30, 31, 32, 133, 160}"

definition py_linebreak :: "char \<Rightarrow> bool" where
  "py_linebreak c \<longleftrightarrow> code c \<in> {10, 11, 12, 13, 28, 29, 30, 133}"

definition is_ascii_digit :: "char \<Rightarrow> bool" where
  "is_ascii_digit c \<longleftrightarrow> 48 \<le> code c \<and> code c \<le> 57"

definition is_lower_az :: "char \<Rightarrow> bool" where
  "is_lower_az c \<longleftrightarrow> 97 \<le> code c \<and> code c \<le> 122"

definition is_upper_az :: "char \<Rightarrow> bool" where
  "is_upper_az c \<longleftrightarrow> 65 \<le> code c \<and> code c \<le> 90"

definition is_ascii_alnum :: "char \<Rightarrow> bool" where
  "is_ascii_alnum c \<longleftrightarrow> is_ascii_digit c \<or> is_lower_az c \<or> is_upper_az c"

text \<open>\<open>str.isdigit\<close> also holds of the superscripts two, three and one, which \<open>int\<close> refuses.\<close>

definition py_isdigit_char :: "char \<Rightarrow> bool" where
  "py_isdigit_char c \<longleftrightarrow> is_ascii_digit c \<or> code c \<in> {178, 179, 185}"

definition py_isdigit :: "string \<Rightarrow> bool" where
  "py_isdigit s \<longleftrightarrow> s \<noteq> [] \<and> list_all py_isdigit_char s"

definition py_isascii :: "string \<Rightarrow> bool" where
  "py_isascii s \<longleftrightarrow> list_all (\<lambda>c. code c < 128) s"

definition py_isalnum_char :: "char \<Rightarrow> bool" where
  "py_isalnum_char c \<longleftrightarrow> is_ascii_alnum c \<or>
     code c \<in> {170, 178, 179, 181, 185, 186, 188, 189, 190} \<or>
     (192 \<le> code c \<and> code c \<noteq> 215 \<and> code c \<noteq> 247)"

definition nl :: char where
  "nl = CHR 0x0A"

lemma code_inject [simp]: "code c = code d \<longleftrightarrow> c = d"
  by (simp add: code_def)

lemma code_nl [simp]: "code nl = 10"
  by (simp add: code_def nl_def)

lemma nl_space [simp]: "py_isspace nl"
  by (simp add: py_isspace_def)

lemma nl_linebreak [simp]: "py_linebreak nl"
  by (simp add: py_linebreak_def)

section \<open>Stripping, splitting, joining\<close>

definition py_lstrip :: "string \<Rightarrow> string" where
  "py_lstrip s = dropWhile py_isspace s"

definition rstrip_by :: "(char \<Rightarrow> bool) \<Rightarrow> string \<Rightarrow> string" where
  "rstrip_by p s = rev (dropWhile p (rev s))"

definition py_rstrip :: "string \<Rightarrow> string" where
  "py_rstrip s = rstrip_by py_isspace s"

definition py_strip :: "string \<Rightarrow> string" where
  "py_strip s = py_rstrip (py_lstrip s)"

definition rstrip_nl :: "string \<Rightarrow> string" where
  \<comment> \<open>\<open>s.rstrip("\n")\<close>\<close>
  "rstrip_nl s = rstrip_by (\<lambda>c. c = nl) s"

fun py_split :: "char \<Rightarrow> string \<Rightarrow> string list" where
  \<comment> \<open>\<open>s.split(sep)\<close> for a separator of one character\<close>
  "py_split d [] = [[]]"
| "py_split d (c # s) =
     (if c = d then [] # py_split d s
      else (case py_split d s of [] \<Rightarrow> [[c]] | w # ws \<Rightarrow> (c # w) # ws))"

fun py_join :: "string \<Rightarrow> string list \<Rightarrow> string" where
  "py_join sep [] = []"
| "py_join sep [w] = w"
| "py_join sep (w # v # ws) = w @ sep @ py_join sep (v # ws)"

fun py_splitlines :: "string \<Rightarrow> string list" where
  "py_splitlines [] = []"
| "py_splitlines [c] = (if py_linebreak c then [[]] else [[c]])"
| "py_splitlines (c # d # s) =
     (if code c = 13 \<and> code d = 10 then [] # py_splitlines s
      else if py_linebreak c then [] # py_splitlines (d # s)
      else (case py_splitlines (d # s) of [] \<Rightarrow> [[c]] | w # ws \<Rightarrow> (c # w) # ws))"

fun py_contains :: "string \<Rightarrow> string \<Rightarrow> bool" where
  \<comment> \<open>\<open>w in s\<close>\<close>
  "py_contains w [] \<longleftrightarrow> w = []"
| "py_contains w (c # s) \<longleftrightarrow> prefix w (c # s) \<or> py_contains w s"

fun py_replace2 :: "char \<Rightarrow> char \<Rightarrow> string \<Rightarrow> string \<Rightarrow> string" where
  \<comment> \<open>\<open>s.replace(old, new)\<close> for an \<open>old\<close> of two characters\<close>
  "py_replace2 a b new [] = []"
| "py_replace2 a b new [c] = [c]"
| "py_replace2 a b new (c # d # s) =
     (if c = a \<and> d = b then new @ py_replace2 a b new s
      else c # py_replace2 a b new (d # s))"

definition py_startswith :: "string \<Rightarrow> string \<Rightarrow> bool" where
  "py_startswith s p \<longleftrightarrow> prefix p s"

definition py_lower_char :: "char \<Rightarrow> char" where
  "py_lower_char c =
     (if is_upper_az c \<or> (192 \<le> code c \<and> code c \<le> 222 \<and> code c \<noteq> 215)
      then char_of (code c + 32) else c)"

definition py_lower :: "string \<Rightarrow> string" where
  "py_lower s = map py_lower_char s"

definition strip_by :: "(char \<Rightarrow> bool) \<Rightarrow> string \<Rightarrow> string" where
  \<comment> \<open>\<open>s.strip(chars)\<close>\<close>
  "strip_by p s = rstrip_by p (dropWhile p s)"

section \<open>Decimal numbers\<close>

definition digit_char :: "nat \<Rightarrow> char" where
  "digit_char d = char_of (48 + d)"

fun dec :: "nat \<Rightarrow> string" where
  "dec n = (if n < 10 then [digit_char n] else dec (n div 10) @ [digit_char (n mod 10)])"

declare dec.simps [simp del]

definition dec_int :: "int \<Rightarrow> string" where
  \<comment> \<open>\<open>str(i)\<close> of an integer\<close>
  "dec_int i = (if i < 0 then CHR ''-'' # dec (nat (- i)) else dec (nat i))"

definition undec :: "string \<Rightarrow> nat" where
  \<comment> \<open>\<open>int(s)\<close> of a string of ASCII digits\<close>
  "undec s = foldl (\<lambda>n c. 10 * n + (code c - 48)) 0 s"

lemma code_digit [simp]: "d < 10 \<Longrightarrow> code (digit_char d) = 48 + d"
  by (simp add: code_def digit_char_def)

lemma ascii_digit_digit [simp]: "d < 10 \<Longrightarrow> is_ascii_digit (digit_char d)"
  by (simp add: is_ascii_digit_def)

lemma dec_not_Nil [simp]: "dec n \<noteq> []"
  by (subst dec.simps) simp

lemma dec_digits: "list_all is_ascii_digit (dec n)"
proof (induction n rule: dec.induct)
  case (1 n)
  then show ?case by (subst dec.simps) (auto)
qed

lemma dec_digit_mem: "c \<in> set (dec n) \<Longrightarrow> is_ascii_digit c"
  using dec_digits [of n] by (auto simp: list_all_iff)

lemma undec_snoc: "undec (s @ [c]) = 10 * undec s + (code c - 48)"
  by (simp add: undec_def)

lemma undec_dec [simp]: "undec (dec n) = n"
proof (induction n rule: dec.induct)
  case (1 n)
  show ?case
  proof (cases "n < 10")
    case True
    then show ?thesis by (subst dec.simps) (simp add: undec_def)
  next
    case False
    with 1 have "undec (dec (n div 10)) = n div 10" by simp
    with False show ?thesis by (subst dec.simps) (simp add: undec_snoc)
  qed
qed

lemma dec_inject [simp]: "dec m = dec n \<longleftrightarrow> m = n"
  by (metis undec_dec)

lemma length_dec_le3: "n < 1000 \<Longrightarrow> length (dec n) \<le> 3"
  by (subst dec.simps, subst dec.simps, subst dec.simps) auto

lemma dec_leading_zero:
  "dec n = digit_char 0 # s \<Longrightarrow> n = 0 \<and> s = []"
proof (induction n arbitrary: s rule: dec.induct)
  case (1 n)
  show ?case
  proof (cases "n < 10")
    case True
    with "1.prems" have "digit_char n = digit_char 0 \<and> s = []"
      by (simp add: dec.simps [of n])
    moreover from True have "code (digit_char n) = 48 + n" by simp
    ultimately show ?thesis by simp
  next
    case False
    with "1.prems" have eq: "dec (n div 10) @ [digit_char (n mod 10)] = digit_char 0 # s"
      by (simp add: dec.simps [of n])
    then obtain s' where "dec (n div 10) = digit_char 0 # s'"
      by (metis append_eq_Cons_conv dec_not_Nil)
    with "1.IH" False have "n div 10 = 0" by blast
    with False show ?thesis by simp
  qed
qed

section \<open>Facts on splitting and joining\<close>

lemma py_split_not_Nil [simp]: "py_split d s \<noteq> []"
  by (induction s) (auto split: list.splits)

lemma py_split_none: "d \<notin> set s \<Longrightarrow> py_split d s = [s]"
  by (induction s) auto

lemma py_split_append:
  "d \<notin> set w \<Longrightarrow> py_split d (w @ d # s) = w # py_split d s"
  by (induction w) auto

lemma py_join_Cons: "ws \<noteq> [] \<Longrightarrow> py_join sep (w # ws) = w @ sep @ py_join sep ws"
  by (cases ws) auto

lemma py_split_join [py_text]:
  "ws \<noteq> [] \<Longrightarrow> (\<forall>w\<in>set ws. d \<notin> set w) \<Longrightarrow> py_split d (py_join [d] ws) = ws"
proof (induction ws)
  case Nil
  then show ?case by simp
next
  case (Cons w ws)
  show ?case
  proof (cases "ws = []")
    case True
    with Cons.prems show ?thesis by (simp add: py_split_none)
  next
    case False
    with Cons show ?thesis by (simp add: py_join_Cons py_split_append)
  qed
qed

lemma py_join_split: "py_join [d] (py_split d s) = s"
proof (induction s)
  case Nil
  then show ?case by simp
next
  case (Cons c s)
  show ?case
  proof (cases "c = d")
    case True
    with Cons.IH show ?thesis by (simp add: py_join_Cons)
  next
    case False
    obtain w ws where w: "py_split d s = w # ws" by (cases "py_split d s") auto
    with Cons.IH have "py_join [d] (w # ws) = s" by simp
    then have "py_join [d] ((c # w) # ws) = c # s"
      by (cases "ws = []") (auto simp: py_join_Cons)
    with w False show ?thesis by simp
  qed
qed

lemma py_split_no_sep: "w \<in> set (py_split d s) \<Longrightarrow> d \<notin> set w"
proof (induction s arbitrary: w)
  case Nil
  then show ?case by simp
next
  case (Cons c s)
  then show ?case
    by (cases "py_split d s") (auto split: if_splits)
qed

section \<open>Facts on stripping and containment\<close>

lemma rstrip_by_append_all: "\<forall>c\<in>set t. p c \<Longrightarrow> rstrip_by p (s @ t) = rstrip_by p s"
  by (induction t rule: rev_induct) (auto simp: rstrip_by_def)

lemma rstrip_by_id: "s = [] \<or> \<not> p (last s) \<Longrightarrow> rstrip_by p s = s"
  by (cases s rule: rev_cases) (auto simp: rstrip_by_def)

lemma rstrip_by_last: "rstrip_by p s \<noteq> [] \<Longrightarrow> \<not> p (last (rstrip_by p s))"
proof -
  assume "rstrip_by p s \<noteq> []"
  then have "dropWhile p (rev s) \<noteq> []" by (simp add: rstrip_by_def)
  then have "\<not> p (hd (dropWhile p (rev s)))" by (rule hd_dropWhile)
  with \<open>dropWhile p (rev s) \<noteq> []\<close> show ?thesis by (simp add: rstrip_by_def last_rev)
qed

lemma rstrip_by_idem [simp]: "rstrip_by p (rstrip_by p s) = rstrip_by p s"
  by (rule rstrip_by_id) (use rstrip_by_last in blast)

lemma rstrip_by_decomp:
  obtains t where "s = rstrip_by p s @ t" and "\<forall>c\<in>set t. p c"
proof -
  have "rev s = takeWhile p (rev s) @ dropWhile p (rev s)" by simp
  then have "s = rstrip_by p s @ rev (takeWhile p (rev s))"
    by (metis rev_append rev_rev_ident rstrip_by_def)
  moreover have "\<forall>c\<in>set (rev (takeWhile p (rev s))). p c"
    by (auto dest: set_takeWhileD)
  ultimately show ?thesis by (rule that)
qed

lemma rstrip_by_prefix: "prefix (rstrip_by p s) s"
  by (rule rstrip_by_decomp [of s p]) (metis prefixI)

lemma py_contains_iff: "py_contains w s \<longleftrightarrow> (\<exists>a b. s = a @ w @ b)"
proof (induction s)
  case Nil
  then show ?case by auto
next
  case (Cons c s)
  have "py_contains w (c # s) \<longleftrightarrow> prefix w (c # s) \<or> (\<exists>a b. s = a @ w @ b)"
    by (simp add: Cons)
  also have "\<dots> \<longleftrightarrow> (\<exists>a b. c # s = a @ w @ b)"
  proof
    assume "prefix w (c # s) \<or> (\<exists>a b. s = a @ w @ b)"
    then show "\<exists>a b. c # s = a @ w @ b"
      by (metis append_Cons append_Nil prefix_def)
  next
    assume "\<exists>a b. c # s = a @ w @ b"
    then obtain a b where "c # s = a @ w @ b" by blast
    then show "prefix w (c # s) \<or> (\<exists>a b. s = a @ w @ b)"
      by (cases a) auto
  qed
  finally show ?case .
qed

lemma py_contains_sublist: "py_contains w s \<longleftrightarrow> sublist w s"
  by (auto simp: py_contains_iff sublist_def)

end
