(* ===== verification/IpAddr.thy ===== *)
theory IpAddr
  imports PyText
begin

text \<open>
  The part of Python's \<open>ipaddress\<close> module that the program uses: parsing and printing of
  IPv4 and IPv6 addresses, interfaces and networks, membership, overlap and the enumeration
  of host addresses.  The program reads addresses from requests, from configuration files
  and from the kernel through it, and its safety check is \<open>overlaps\<close>.

  Addresses are unbounded integers with a version, as in the module, and masks are computed
  with the same bitwise operations.  An IPv6 address carries its scope identifier, the text
  after a per cent sign, which the module keeps and prints.
\<close>

unbundle bit_operations_syntax

section \<open>Data\<close>

datatype ipver = V4 | V6

record ipaddr =
  aver :: ipver
  aint :: int
  ascope :: "string option"

record ipnet =
  naddr :: ipaddr
  nplen :: nat

record ipiface =
  iaddr :: ipaddr
  inet :: ipnet

fun max_plen :: "ipver \<Rightarrow> nat" where
  "max_plen V4 = 32"
| "max_plen V6 = 128"

definition all_ones :: "ipver \<Rightarrow> int" where
  "all_ones v = 2 ^ max_plen v - 1"

definition netmask_int :: "ipver \<Rightarrow> nat \<Rightarrow> int" where
  "netmask_int v p = all_ones v XOR drop_bit p (all_ones v)"

definition hostmask_int :: "ipver \<Rightarrow> nat \<Rightarrow> int" where
  "hostmask_int v p = netmask_int v p XOR all_ones v"

definition mk_net :: "ipaddr \<Rightarrow> nat \<Rightarrow> ipnet" where
  \<comment> \<open>\<open>IPv?Network((addr, mask), strict=False)\<close>: host bits are cleared, and an address
     made from an integer has no scope\<close>
  "mk_net a p =
     (let m = aint a AND netmask_int (aver a) p
      in \<lparr>naddr = (if m \<noteq> aint a then \<lparr>aver = aver a, aint = m, ascope = None\<rparr> else a),
          nplen = p\<rparr>)"

definition broadcast :: "ipnet \<Rightarrow> ipaddr" where
  "broadcast n = \<lparr>aver = aver (naddr n),
     aint = aint (naddr n) OR hostmask_int (aver (naddr n)) (nplen n), ascope = None\<rparr>"

definition in_net :: "ipaddr \<Rightarrow> ipnet \<Rightarrow> bool" where
  "in_net a n \<longleftrightarrow> aver a = aver (naddr n) \<and>
     aint a AND netmask_int (aver (naddr n)) (nplen n) = aint (naddr n)"

definition overlaps :: "ipnet \<Rightarrow> ipnet \<Rightarrow> bool" where
  "overlaps n m \<longleftrightarrow> in_net (naddr n) m \<or> in_net (broadcast n) m \<or>
     in_net (naddr m) n \<or> in_net (broadcast m) n"

definition addr_of_int :: "ipver \<Rightarrow> int \<Rightarrow> ipaddr" where
  "addr_of_int v i = \<lparr>aver = v, aint = i, ascope = None\<rparr>"

text \<open>\<open>network.hosts()\<close>: the iterator is chosen by the prefix length when the network is made.\<close>

definition hosts :: "ipnet \<Rightarrow> ipaddr list" where
  "hosts n =
     (let v = aver (naddr n); lo = aint (naddr n); hi = aint (broadcast n)
      in if nplen n + 1 = max_plen v then map (addr_of_int v) [lo..hi]
         else if nplen n = max_plen v then [naddr n]
         else (case v of V4 \<Rightarrow> map (addr_of_int v) [lo + 1..hi - 1]
                       | V6 \<Rightarrow> map (addr_of_int v) [lo + 1..hi]))"

section \<open>Parsing\<close>

definition parse_octet :: "string \<Rightarrow> int option" where
  "parse_octet s =
     (if s = [] then None
      else if \<not> list_all is_ascii_digit s then None
      else if length s > 3 then None
      else if s \<noteq> ''0'' \<and> hd s = CHR ''0'' then None
      else if undec s > 255 then None
      else Some (int (undec s)))"

definition v4_of_string :: "string \<Rightarrow> int option" where
  "v4_of_string s =
     (if s = [] then None
      else case py_split (CHR ''.'') s of
        [a, b, c, d] \<Rightarrow>
          (case (parse_octet a, parse_octet b, parse_octet c, parse_octet d) of
             (Some i, Some j, Some k, Some l) \<Rightarrow> Some (((i * 256 + j) * 256 + k) * 256 + l)
           | _ \<Rightarrow> None)
      | _ \<Rightarrow> None)"

definition prefix_of_digits :: "ipver \<Rightarrow> string \<Rightarrow> nat option" where
  "prefix_of_digits v s =
     (if \<not> (s \<noteq> [] \<and> list_all is_ascii_digit s) then None
      else if undec s \<le> max_plen v then Some (undec s) else None)"

fun righthand_zeros :: "nat \<Rightarrow> int \<Rightarrow> nat" where
  "righthand_zeros 0 i = 0"
| "righthand_zeros (Suc b) i = (if odd i then 0 else Suc (righthand_zeros b (i div 2)))"

definition prefix_of_int :: "int \<Rightarrow> nat option" where
  \<comment> \<open>of an IPv4 mask\<close>
  "prefix_of_int i =
     (let z = righthand_zeros 32 i; p = 32 - z
      in if drop_bit z i = 2 ^ p - 1 then Some p else None)"

definition prefix_of_dotted :: "string \<Rightarrow> nat option" where
  "prefix_of_dotted s =
     (case v4_of_string s of None \<Rightarrow> None
      | Some i \<Rightarrow> (case prefix_of_int i of Some p \<Rightarrow> Some p
                   | None \<Rightarrow> prefix_of_int (i XOR all_ones V4)))"

fun make_netmask :: "ipver \<Rightarrow> string option \<Rightarrow> nat option" where
  "make_netmask v None = Some (max_plen v)"
| "make_netmask V4 (Some s) =
     (case prefix_of_digits V4 s of Some p \<Rightarrow> Some p | None \<Rightarrow> prefix_of_dotted s)"
| "make_netmask V6 (Some s) = prefix_of_digits V6 s"

definition split_addr_prefix :: "string \<Rightarrow> (string \<times> string option) option" where
  "split_addr_prefix s =
     (case py_split (CHR ''/'') s of
        [a] \<Rightarrow> Some (a, None) | [a, m] \<Rightarrow> Some (a, Some m) | _ \<Rightarrow> None)"

definition is_hex :: "char \<Rightarrow> bool" where
  "is_hex c \<longleftrightarrow> is_ascii_digit c \<or> (97 \<le> code c \<and> code c \<le> 102) \<or> (65 \<le> code c \<and> code c \<le> 70)"

definition hex_val :: "char \<Rightarrow> int" where
  "hex_val c = int (if is_ascii_digit c then code c - 48
                    else if 97 \<le> code c then code c - 87 else code c - 55)"

definition parse_hextet :: "string \<Rightarrow> int option" where
  "parse_hextet s =
     (if \<not> list_all is_hex s then None
      else if length s > 4 then None
      else if s = [] then None
      else Some (foldl (\<lambda>n c. 16 * n + hex_val c) 0 s))"

fun parse_hextets :: "int \<Rightarrow> string list \<Rightarrow> int option" where
  "parse_hextets acc [] = Some acc"
| "parse_hextets acc (s # ss) =
     (case parse_hextet s of None \<Rightarrow> None
      | Some h \<Rightarrow> parse_hextets (push_bit 16 acc OR h) ss)"

definition hexdigit :: "nat \<Rightarrow> char" where
  "hexdigit d = (if d < 10 then char_of (48 + d) else char_of (87 + d))"

fun hex :: "nat \<Rightarrow> string" where
  "hex n = (if n < 16 then [hexdigit n] else hex (n div 16) @ [hexdigit (n mod 16)])"

declare hex.simps [simp del]

text \<open>
  The parts of an IPv6 text, with an IPv4 suffix rewritten to two groups, then split at the
  double colon into the parts before it, the number of groups it stands for, and the parts
  after it.
\<close>

definition v6_parts :: "string \<Rightarrow> string list option" where
  "v6_parts s =
     (let parts = py_split (CHR '':'') s in
      if s = [] \<or> length parts < 3 then None
      else if CHR ''.'' \<in> set (last parts)
      then (case v4_of_string (last parts) of None \<Rightarrow> None
            | Some i \<Rightarrow>
                Some (butlast parts @ [hex (nat (drop_bit 16 i)), hex (nat (take_bit 16 i))]))
      else Some parts)"

definition v6_layout :: "string list \<Rightarrow> (string list \<times> nat \<times> string list) option" where
  "v6_layout parts =
     (let n = length parts;
          skips = filter (\<lambda>i. parts ! i = []) [1..<n - 1]
      in if n > 9 then None
         else case skips of
           [] \<Rightarrow> (if n \<noteq> 8 \<or> hd parts = [] \<or> last parts = [] then None else Some (parts, 0, []))
         | [k] \<Rightarrow>
             (let hi = (if hd parts = [] then k - 1 else k);
                  lo = (if last parts = [] then n - k - 2 else n - k - 1)
              in if (hd parts = [] \<and> hi \<noteq> 0) \<or> (last parts = [] \<and> lo \<noteq> 0) then None
                 else if 8 < hi + lo + 1 then None
                 else Some (take hi parts, 8 - (hi + lo), drop (n - lo) parts))
         | _ \<Rightarrow> None)"

definition v6_of_string :: "string \<Rightarrow> int option" where
  "v6_of_string s =
     (case v6_parts s of None \<Rightarrow> None
      | Some parts \<Rightarrow>
          (case v6_layout parts of None \<Rightarrow> None
           | Some (hi, skipped, lo) \<Rightarrow>
               (case parse_hextets 0 hi of None \<Rightarrow> None
                | Some h \<Rightarrow> parse_hextets (push_bit (16 * skipped) h) lo)))"

definition split_scope :: "string \<Rightarrow> (string \<times> string option) option" where
  \<comment> \<open>\<open>partition('%')\<close>\<close>
  "split_scope s =
     (let a = takeWhile (\<lambda>c. c \<noteq> CHR ''%'') s; r = dropWhile (\<lambda>c. c \<noteq> CHR ''%'') s
      in if r = [] then Some (a, None)
         else if tl r = [] \<or> CHR ''%'' \<in> set (tl r) then None
         else Some (a, Some (tl r)))"

fun address_of :: "ipver \<Rightarrow> string \<Rightarrow> ipaddr option" where
  "address_of V4 s =
     (if CHR ''/'' \<in> set s then None
      else map_option (\<lambda>i. \<lparr>aver = V4, aint = i, ascope = None\<rparr>) (v4_of_string s))"
| "address_of V6 s =
     (if CHR ''/'' \<in> set s then None
      else case split_scope s of None \<Rightarrow> None
      | Some (a, sc) \<Rightarrow> map_option (\<lambda>i. \<lparr>aver = V6, aint = i, ascope = sc\<rparr>) (v6_of_string a))"

definition interface_of :: "ipver \<Rightarrow> string \<Rightarrow> ipiface option" where
  "interface_of v s =
     (case split_addr_prefix s of None \<Rightarrow> None
      | Some (a, m) \<Rightarrow>
          (case (address_of v a, make_netmask v m) of
             (Some x, Some p) \<Rightarrow> Some \<lparr>iaddr = x, inet = mk_net x p\<rparr>
           | _ \<Rightarrow> None))"

definition ip_interface :: "string \<Rightarrow> ipiface option" where
  "ip_interface s =
     (case interface_of V4 s of Some i \<Rightarrow> Some i | None \<Rightarrow> interface_of V6 s)"

definition ip_network :: "string \<Rightarrow> ipnet option" where
  \<comment> \<open>\<open>ip_network(s, strict=False)\<close>: the network of the interface\<close>
  "ip_network s = map_option inet (ip_interface s)"

definition ip_of_iface :: "ipiface \<Rightarrow> ipaddr" where
  \<comment> \<open>the attribute \<open>.ip\<close>\<close>
  "ip_of_iface i = addr_of_int (aver (iaddr i)) (aint (iaddr i))"

text \<open>An integer argument (a JSON number): the version is chosen by its size.\<close>

definition interface_of_int :: "int \<Rightarrow> ipiface option" where
  "interface_of_int n =
     (let mk = (\<lambda>v. \<lparr>iaddr = addr_of_int v n, inet = mk_net (addr_of_int v n) (max_plen v)\<rparr>)
      in if 0 \<le> n \<and> n \<le> all_ones V4 then Some (mk V4)
         else if 0 \<le> n \<and> n \<le> all_ones V6 then Some (mk V6)
         else None)"

section \<open>Printing\<close>

definition str_v4 :: "int \<Rightarrow> string" where
  "str_v4 i = py_join ''.'' (map (\<lambda>k. dec (nat (i div 2 ^ k mod 256))) [24, 16, 8, 0])"

record zrun =
  best_start :: int
  best_len :: nat
  cur_start :: int
  cur_len :: nat

definition zrun_step :: "nat \<times> string \<Rightarrow> zrun \<Rightarrow> zrun" where
  "zrun_step ih z =
     (if snd ih = ''0''
      then (let len = cur_len z + 1;
                st = (if cur_start z = -1 then int (fst ih) else cur_start z)
            in if len > best_len z
               then z\<lparr>cur_len := len, cur_start := st, best_len := len, best_start := st\<rparr>
               else z\<lparr>cur_len := len, cur_start := st\<rparr>)
      else z\<lparr>cur_len := 0, cur_start := -1\<rparr>)"

definition compress_hextets :: "string list \<Rightarrow> string list" where
  "compress_hextets hs =
     (let z = fold zrun_step (zip [0..<length hs] hs)
                \<lparr>best_start = -1, best_len = 0, cur_start = -1, cur_len = 0\<rparr>
      in if best_len z > 1
         then (let s = nat (best_start z); e = s + best_len z;
                   hs1 = (if e = length hs then hs @ [[]] else hs);
                   hs2 = take s hs1 @ [[]] @ drop e hs1
               in if s = 0 then [] # hs2 else hs2)
         else hs)"

definition str_v6 :: "int \<Rightarrow> string" where
  "str_v6 i = py_join '':'' (compress_hextets
     (map (\<lambda>k. hex (nat (i div 2 ^ k mod 65536))) [112, 96, 80, 64, 48, 32, 16, 0]))"

fun str_ipint :: "ipver \<Rightarrow> int \<Rightarrow> string" where
  "str_ipint V4 i = str_v4 i"
| "str_ipint V6 i = str_v6 i"

definition str_addr :: "ipaddr \<Rightarrow> string" where
  "str_addr a = str_ipint (aver a) (aint a) @
     (case ascope a of None \<Rightarrow> [] | Some sc \<Rightarrow> if sc = [] then [] else CHR ''%'' # sc)"

definition str_net :: "ipnet \<Rightarrow> string" where
  "str_net n = str_addr (naddr n) @ CHR ''/'' # dec (nplen n)"

definition str_iface :: "ipiface \<Rightarrow> string" where
  "str_iface i = str_addr (iaddr i) @ CHR ''/'' # dec (nplen (inet i))"

end
