(* ===== verification/Json.thy ===== *)
theory Json
  imports IpAddr
begin

text \<open>
  JSON values and their text, as Python's \<open>json.dumps\<close> (default arguments) writes them and
  \<open>json.loads\<close> reads them.  The web application and the root helper exchange one such value
  per line, so the round trip proved here is what makes the socket transparent.

  Strings hold code points below 256; a \<open>\u\<close> escape above that range is refused by the
  reader below (it is outside the character type).  A number with a fraction or an exponent
  keeps its token.  Nesting is not bounded, where CPython stops at its recursion limit.
\<close>

section \<open>Values\<close>

datatype json =
    JNull
  | JBool bool
  | JInt int
  | JFloat string
  | JStr string
  | JList "json list"
  | JObj "(string \<times> json) list"

type_synonym jdict = "(string \<times> json) list"

definition jget :: "jdict \<Rightarrow> string \<Rightarrow> json" where
  \<comment> \<open>\<open>d.get(k)\<close>: a missing key reads as \<open>None\<close>, as a JSON null does\<close>
  "jget d k = (case map_of d k of None \<Rightarrow> JNull | Some v \<Rightarrow> v)"

fun truthy :: "json \<Rightarrow> bool" where
  "truthy JNull = False"
| "truthy (JBool b) = b"
| "truthy (JInt i) = (i \<noteq> 0)"
| "truthy (JFloat s) = (\<not> list_all (\<lambda>c. c \<in> {CHR ''0'', CHR ''.'', CHR ''-''}) (takeWhile (\<lambda>c. c \<notin> {CHR ''e'', CHR ''E''}) s))"
| "truthy (JStr s) = (s \<noteq> [])"
| "truthy (JList vs) = (vs \<noteq> [])"
| "truthy (JObj kvs) = (kvs \<noteq> [])"

section \<open>repr\<close>

definition repr_char :: "char \<Rightarrow> char \<Rightarrow> string" where
  "repr_char q c =
     (if c = q \<or> c = CHR 0x5C then [CHR 0x5C, c]
      else if code c = 10 then [CHR 0x5C, CHR ''n'']
      else if code c = 13 then [CHR 0x5C, CHR ''r'']
      else if code c = 9 then [CHR 0x5C, CHR ''t'']
      else if code c < 32 \<or> (127 \<le> code c \<and> code c \<le> 160) \<or> code c = 173
      then [CHR 0x5C, CHR ''x'', hexdigit (code c div 16), hexdigit (code c mod 16)]
      else [c])"

definition repr_str :: "string \<Rightarrow> string" where
  "repr_str s =
     (let q = (if CHR 0x27 \<in> set s \<and> CHR 0x22 \<notin> set s then CHR 0x22 else CHR 0x27)
      in q # concat (map (repr_char q) s) @ [q])"

fun py_repr :: "json \<Rightarrow> string" where
  "py_repr JNull = ''None''"
| "py_repr (JBool b) = (if b then ''True'' else ''False'')"
| "py_repr (JInt i) = dec_int i"
| "py_repr (JFloat s) = s"
| "py_repr (JStr s) = repr_str s"
| "py_repr (JList vs) = ''['' @ py_join '', '' (map py_repr vs) @ '']''"
| "py_repr (JObj kvs) =
     ''{'' @ py_join '', '' (map (\<lambda>(k, v). repr_str k @ '': '' @ py_repr v) kvs) @ ''}''"

section \<open>Writing\<close>

definition esc_char :: "char \<Rightarrow> string" where
  "esc_char c =
     (if c = CHR 0x22 \<or> c = CHR 0x5C then [CHR 0x5C, c]
      else if code c = 10 then [CHR 0x5C, CHR ''n'']
      else if code c = 13 then [CHR 0x5C, CHR ''r'']
      else if code c = 9 then [CHR 0x5C, CHR ''t'']
      else if code c = 12 then [CHR 0x5C, CHR ''f'']
      else if code c = 8 then [CHR 0x5C, CHR ''b'']
      else if 32 \<le> code c \<and> code c \<le> 126 then [c]
      else [CHR 0x5C, CHR ''u'', CHR ''0'', CHR ''0'',
            hexdigit (code c div 16), hexdigit (code c mod 16)])"

definition dump_str :: "string \<Rightarrow> string" where
  "dump_str s = CHR 0x22 # concat (map esc_char s) @ [CHR 0x22]"

fun dumps :: "json \<Rightarrow> string" where
  "dumps JNull = ''null''"
| "dumps (JBool b) = (if b then ''true'' else ''false'')"
| "dumps (JInt i) = dec_int i"
| "dumps (JFloat s) = s"
| "dumps (JStr s) = dump_str s"
| "dumps (JList vs) = ''['' @ py_join '', '' (map dumps vs) @ '']''"
| "dumps (JObj kvs) =
     ''{'' @ py_join '', '' (map (\<lambda>(k, v). dump_str k @ '': '' @ dumps v) kvs) @ ''}''"

section \<open>Reading\<close>

definition is_json_ws :: "char \<Rightarrow> bool" where
  "is_json_ws c \<longleftrightarrow> code c \<in> {9, 10, 13, 32}"

definition skip_ws :: "string \<Rightarrow> string" where
  "skip_ws s = dropWhile is_json_ws s"

definition unesc :: "char \<Rightarrow> char option" where
  "unesc e =
     (if e = CHR 0x22 \<or> e = CHR 0x5C \<or> e = CHR ''/'' then Some e
      else if e = CHR ''b'' then Some (CHR 0x08)
      else if e = CHR ''f'' then Some (CHR 0x0C)
      else if e = CHR ''n'' then Some (CHR 0x0A)
      else if e = CHR ''r'' then Some (CHR 0x0D)
      else if e = CHR ''t'' then Some (CHR 0x09)
      else None)"

definition consfst :: "char \<Rightarrow> (string \<times> string) option \<Rightarrow> (string \<times> string) option" where
  "consfst c r = map_option (\<lambda>(t, u). (c # t, u)) r"

fun scan_str :: "string \<Rightarrow> (string \<times> string) option" where
  "scan_str [] = None"
| "scan_str (c # s) =
     (if c = CHR 0x22 then Some ([], s)
      else if c = CHR 0x5C then
        (case s of
           [] \<Rightarrow> None
         | e # s' \<Rightarrow>
             if e = CHR ''u'' then
               (case s' of
                  h1 # h2 # h3 # h4 # s'' \<Rightarrow>
                    (if list_all is_hex [h1, h2, h3, h4]
                     then (let n = ((hex_val h1 * 16 + hex_val h2) * 16 + hex_val h3) * 16 + hex_val h4
                           in if n < 256 then consfst (char_of n) (scan_str s'') else None)
                     else None)
                | _ \<Rightarrow> None)
             else (case unesc e of None \<Rightarrow> None | Some ch \<Rightarrow> consfst ch (scan_str s')))
      else if code c < 32 then None
      else consfst c (scan_str s))"

definition scan_frac :: "string \<Rightarrow> string" where
  "scan_frac s = (case s of c # d # _ \<Rightarrow>
       if c = CHR ''.'' \<and> is_ascii_digit d then c # takeWhile is_ascii_digit (tl s) else []
     | _ \<Rightarrow> [])"

definition scan_exp :: "string \<Rightarrow> string" where
  "scan_exp s = (case s of
       c # r \<Rightarrow>
         if c = CHR ''e'' \<or> c = CHR ''E'' then
           (let sg = (case r of d # _ \<Rightarrow> if d = CHR ''+'' \<or> d = CHR ''-'' then [d] else [] | [] \<Rightarrow> []);
                ds = takeWhile is_ascii_digit (drop (length sg) r)
            in if ds = [] then [] else c # sg @ ds)
         else []
     | [] \<Rightarrow> [])"

definition num_sign :: "string \<Rightarrow> string" where
  "num_sign s = (case s of c # _ \<Rightarrow> if c = CHR ''-'' then [c] else [] | [] \<Rightarrow> [])"

definition num_int :: "string \<Rightarrow> string" where
  "num_int r = (case r of c # _ \<Rightarrow> if c = CHR ''0'' then [c] else takeWhile is_ascii_digit r
     | [] \<Rightarrow> [])"

definition scan_number :: "string \<Rightarrow> (json \<times> string) option" where
  "scan_number s =
     (let sg = num_sign s; r = drop (length sg) s; ds = num_int r
      in if ds = [] then None
         else (let r1 = drop (length ds) r; fr = scan_frac r1;
                   r2 = drop (length fr) r1; ex = scan_exp r2; r3 = drop (length ex) r2
               in if fr = [] \<and> ex = []
                  then Some (JInt (if sg = [] then int (undec ds) else - int (undec ds)), r3)
                  else Some (JFloat (sg @ ds @ fr @ ex), r3)))"

definition scan_const :: "string \<Rightarrow> (json \<times> string) option" where
  "scan_const s =
     (if prefix ''null'' s then Some (JNull, drop 4 s)
      else if prefix ''true'' s then Some (JBool True, drop 4 s)
      else if prefix ''false'' s then Some (JBool False, drop 5 s)
      else case scan_number s of Some r \<Rightarrow> Some r
      | None \<Rightarrow> (if prefix ''NaN'' s then Some (JFloat ''NaN'', drop 3 s)
                 else if prefix ''Infinity'' s then Some (JFloat ''Infinity'', drop 8 s)
                 else if prefix ''-Infinity'' s then Some (JFloat ''-Infinity'', drop 9 s)
                 else None))"

definition dict_of :: "jdict \<Rightarrow> jdict" where
  \<comment> \<open>a repeated key keeps its first place and its last value\<close>
  "dict_of kvs = fold (\<lambda>(k, v) d. AList.update k v d) kvs []"

text \<open>
  The fuel bounds the nesting: a call of \<open>scan_elems\<close> or \<open>scan_members\<close> and the call of
  \<open>scan_once\<close> below it use two units and at least one character, so twice the length of the
  text is enough.
\<close>

fun scan_once :: "nat \<Rightarrow> string \<Rightarrow> (json \<times> string) option"
  and scan_elems :: "nat \<Rightarrow> string \<Rightarrow> (json list \<times> string) option"
  and scan_members :: "nat \<Rightarrow> string \<Rightarrow> (jdict \<times> string) option"
where
  "scan_once 0 s = None"
| "scan_once (Suc n) s =
     (case s of
        [] \<Rightarrow> None
      | c # r \<Rightarrow>
          if c = CHR 0x22 then map_option (\<lambda>(t, u). (JStr t, u)) (scan_str r)
          else if c = CHR ''{'' then
            (case skip_ws r of
               d # u \<Rightarrow>
                 if d = CHR ''}'' then Some (JObj [], u)
                 else if d = CHR 0x22
                 then map_option (\<lambda>(kvs, w). (JObj (dict_of kvs), w)) (scan_members n u)
                 else None
             | [] \<Rightarrow> None)
          else if c = CHR ''['' then
            (case skip_ws r of
               d # u \<Rightarrow>
                 if d = CHR '']'' then Some (JList [], u)
                 else map_option (\<lambda>(vs, w). (JList vs, w)) (scan_elems n (d # u))
             | [] \<Rightarrow> None)
          else scan_const s)"
| "scan_elems 0 s = None"
| "scan_elems (Suc n) s =
     (case scan_once n s of
        None \<Rightarrow> None
      | Some (v, u) \<Rightarrow>
          (case skip_ws u of
             d # w \<Rightarrow>
               if d = CHR '']'' then Some ([v], w)
               else if d = CHR '','' then
                 map_option (\<lambda>(vs, x). (v # vs, x)) (scan_elems n (skip_ws w))
               else None
           | [] \<Rightarrow> None))"
| "scan_members 0 s = None"
| "scan_members (Suc n) s =
     (case scan_str s of
        None \<Rightarrow> None
      | Some (k, u) \<Rightarrow>
          (case skip_ws u of
             d # w \<Rightarrow>
               if d = CHR '':'' then
                 (case scan_once n (skip_ws w) of
                    None \<Rightarrow> None
                  | Some (v, x) \<Rightarrow>
                      (case skip_ws x of
                         e # y \<Rightarrow>
                           if e = CHR ''}'' then Some ([(k, v)], y)
                           else if e = CHR '','' then
                             (case skip_ws y of
                                q # z \<Rightarrow>
                                  if q = CHR 0x22
                                  then map_option (\<lambda>(kvs, t). ((k, v) # kvs, t)) (scan_members n z)
                                  else None
                              | [] \<Rightarrow> None)
                           else None
                       | [] \<Rightarrow> None))
               else None
           | [] \<Rightarrow> None))"

definition loads :: "string \<Rightarrow> json option" where
  \<comment> \<open>\<open>None\<close> stands for \<open>JSONDecodeError\<close>\<close>
  "loads s =
     (case scan_once (2 * length s + 2) (skip_ws s) of
        Some (v, u) \<Rightarrow> if skip_ws u = [] then Some v else None
      | None \<Rightarrow> None)"

end
