(* ===== verification/PyRegex.thy ===== *)
theory PyRegex
  imports PyText
begin

text \<open>
  The part of Python's \<open>re\<close> that the program's patterns use.

  A pattern is a list of items.  \<open>rmatch\<close> is the backtracking matcher: it reads the text
  before the position (reversed, for \<open>^\<close> and the look-behind), the text after it and the
  group captured so far, and returns the first match in the engine's order of preference
  (greedy repetitions try the longest run first, lazy ones the shortest).  Only single
  characters are repeated in the program's patterns, so a repetition is an item of its own
  and the matcher is primitive recursive.

  \<open>re_tokens\<close> is the left-to-right scan for non-overlapping matches from which
  \<open>search\<close>, \<open>finditer\<close>, \<open>split\<close> and \<open>sub\<close> are read off.
\<close>

section \<open>Patterns and matching\<close>

datatype rx_item =
    Cls "char \<Rightarrow> bool"                          \<comment> \<open>one character of a class\<close>
  | Star "char \<Rightarrow> bool" nat "nat option"         \<comment> \<open>greedy repetition, minimum and maximum\<close>
  | LazyCap "char \<Rightarrow> bool"                      \<comment> \<open>the group \<open>(x+?)\<close>\<close>
  | Bos                                            \<comment> \<open>\<open>^\<close>\<close>
  | Bol                                            \<comment> \<open>\<open>^\<close> with \<open>re.MULTILINE\<close>\<close>
  | Eos                                            \<comment> \<open>\<open>$\<close>\<close>
  | Eol                                            \<comment> \<open>\<open>$\<close> with \<open>re.MULTILINE\<close>\<close>
  | Ahead string                                   \<comment> \<open>\<open>(?=w)\<close>\<close>
  | NotBehind char                                 \<comment> \<open>\<open>(?<!c)\<close>\<close>

type_synonym rx = "rx_item list"

fun first_some :: "('a \<Rightarrow> 'b option) \<Rightarrow> 'a list \<Rightarrow> 'b option" where
  "first_some f [] = None"
| "first_some f (x # xs) = (case f x of None \<Rightarrow> first_some f xs | Some y \<Rightarrow> Some y)"

definition run_length :: "(char \<Rightarrow> bool) \<Rightarrow> nat option \<Rightarrow> string \<Rightarrow> nat" where
  "run_length p hi a =
     (let n = length (takeWhile p a) in case hi of None \<Rightarrow> n | Some m \<Rightarrow> min m n)"

primrec rmatch :: "rx \<Rightarrow> string \<Rightarrow> string \<Rightarrow> string option
    \<Rightarrow> (string \<times> string \<times> string option) option" where
  "rmatch [] = (\<lambda>b a g. Some (b, a, g))"
| "rmatch (i # is) = (\<lambda>b a g. case i of
     Cls p \<Rightarrow> (case a of [] \<Rightarrow> None | c # a' \<Rightarrow> if p c then rmatch is (c # b) a' g else None)
   | Star p lo hi \<Rightarrow>
       first_some (\<lambda>n. rmatch is (rev (take n a) @ b) (drop n a) g)
         (rev [lo..<Suc (run_length p hi a)])
   | LazyCap p \<Rightarrow>
       first_some (\<lambda>n. rmatch is (rev (take n a) @ b) (drop n a) (Some (take n a)))
         [1..<Suc (run_length p None a)]
   | Bos \<Rightarrow> if b = [] then rmatch is b a g else None
   | Bol \<Rightarrow> if b = [] \<or> hd b = nl then rmatch is b a g else None
   | Eos \<Rightarrow> if a = [] \<or> a = [nl] then rmatch is b a g else None
   | Eol \<Rightarrow> if a = [] \<or> hd a = nl then rmatch is b a g else None
   | Ahead w \<Rightarrow> if prefix w a then rmatch is b a g else None
   | NotBehind c \<Rightarrow> if b = [] \<or> hd b \<noteq> c then rmatch is b a g else None)"

definition lit :: "string \<Rightarrow> rx" where
  "lit w = map (\<lambda>c. Cls ((=) c)) w"

definition re_match :: "rx \<Rightarrow> string \<Rightarrow> bool" where
  \<comment> \<open>truth of \<open>pattern.match(s)\<close>\<close>
  "re_match r s \<longleftrightarrow> rmatch r [] s None \<noteq> None"

section \<open>Scanning\<close>

datatype tok = Plain char | Hit string "string option"

function re_tokens :: "rx \<Rightarrow> string \<Rightarrow> string \<Rightarrow> tok list" where
  "re_tokens r b [] = []"
| "re_tokens r b (c # a) =
     (case rmatch r b (c # a) None of
        Some (b', a', g) \<Rightarrow>
          if length a' \<le> length a
          then Hit (take (Suc (length a) - length a') (c # a)) g # re_tokens r b' a'
          else Plain c # re_tokens r (c # b) a
      | None \<Rightarrow> Plain c # re_tokens r (c # b) a)"
  by pat_completeness auto
termination
  by (relation "measure (\<lambda>(r, b, a). length a)") auto

fun hits :: "tok list \<Rightarrow> string option list" where
  "hits [] = []"
| "hits (Plain c # ts) = hits ts"
| "hits (Hit w g # ts) = g # hits ts"

fun pieces :: "tok list \<Rightarrow> string list" where
  "pieces [] = [[]]"
| "pieces (Plain c # ts) =
     (case pieces ts of [] \<Rightarrow> [[c]] | w # ws \<Rightarrow> (c # w) # ws)"
| "pieces (Hit w g # ts) = [] # pieces ts"

fun subst_hits :: "string \<Rightarrow> tok list \<Rightarrow> string" where
  "subst_hits new [] = []"
| "subst_hits new (Plain c # ts) = c # subst_hits new ts"
| "subst_hits new (Hit w g # ts) = new @ subst_hits new ts"

text \<open>
  The group of each match, the group of the first match (\<open>None\<close> without a match; a match of
  a pattern without a group gives \<open>Some None\<close>), the pieces between the matches, and the
  text with the matches replaced.
\<close>

definition re_finditer :: "rx \<Rightarrow> string \<Rightarrow> string option list" where
  "re_finditer r s = hits (re_tokens r [] s)"

definition re_search :: "rx \<Rightarrow> string \<Rightarrow> string option option" where
  "re_search r s = (case re_finditer r s of [] \<Rightarrow> None | g # _ \<Rightarrow> Some g)"

definition re_split :: "rx \<Rightarrow> string \<Rightarrow> string list" where
  "re_split r s = pieces (re_tokens r [] s)"

definition re_sub :: "rx \<Rightarrow> string \<Rightarrow> string \<Rightarrow> string" where
  "re_sub r new s = subst_hits new (re_tokens r [] s)"

section \<open>Facts on the matcher\<close>

lemma first_some_None_iff: "first_some f xs = None \<longleftrightarrow> (\<forall>x\<in>set xs. f x = None)"
  by (induction xs) (auto split: option.splits)

lemma first_some_Some_mem: "first_some f xs = Some y \<Longrightarrow> \<exists>x\<in>set xs. f x = Some y"
  by (induction xs) (auto split: option.splits)

lemma first_some_unique:
  assumes "x \<in> set xs" and "f x = Some y" and "\<And>z. z \<in> set xs \<Longrightarrow> z \<noteq> x \<Longrightarrow> f z = None"
  shows "first_some f xs = Some y"
  using assms
proof (induction xs)
  case Nil
  then show ?case by simp
next
  case (Cons a xs)
  then show ?case by (cases "a = x") (auto split: option.splits)
qed

lemma first_some_append:
  "first_some f (xs @ ys) = (case first_some f xs of None \<Rightarrow> first_some f ys | Some y \<Rightarrow> Some y)"
  by (induction xs) (auto split: option.splits)

lemma first_some_least:
  assumes "x \<in> set xs" and "f x = Some y" and "sorted_wrt (<) xs"
    and "\<And>z. z \<in> set xs \<Longrightarrow> z < (x::nat) \<Longrightarrow> f z = None"
  shows "first_some f xs = Some y"
  using assms by (induction xs) (auto split: option.splits)

lemma rmatch_lit:
  "rmatch (lit w @ r) b a g =
     (if prefix w a then rmatch r (rev w @ b) (drop (length w) a) g else None)"
proof (induction w arbitrary: b a)
  case Nil
  then show ?case by (simp add: lit_def)
next
  case (Cons c w)
  show ?case
  proof (cases a)
    case Nil
    then show ?thesis by (simp add: lit_def)
  next
    case (Cons d a')
    with Cons.IH [of "d # b" a'] show ?thesis
      by (auto simp: lit_def)
  qed
qed

text \<open>
  A match consumes a part of the text: what was before the position grows by what is taken
  from the text after it.
\<close>

lemma rmatch_consumes:
  "rmatch r b a g = Some (b', a', g') \<Longrightarrow> rev b' @ a' = rev b @ a \<and> length a' \<le> length a"
proof (induction r arbitrary: b a g)
  case Nil
  then show ?case by simp
next
  case (Cons i r)
  have rep: "rev b' @ a' = rev b @ a \<and> length a' \<le> length a"
    if "rmatch r (rev (take n a) @ b) (drop n a) g'' = Some (b', a', g')" for n g''
    using Cons.IH [OF that] by auto
  show ?case
    using Cons.prems
    by (auto simp del: upt_Suc split: rx_item.splits list.splits if_splits
        dest!: first_some_Some_mem dest: Cons.IH rep)
qed

lemma run_length_le: "run_length p hi a \<le> length (takeWhile p a)"
  by (simp add: run_length_def Let_def split: option.splits)

lemma take_run_length: "c \<in> set (take n a) \<Longrightarrow> n \<le> run_length p hi a \<Longrightarrow> p c"
proof -
  assume c: "c \<in> set (take n a)" and "n \<le> run_length p hi a"
  then have n: "n \<le> length (takeWhile p a)" using run_length_le le_trans by blast
  have "take n a = take n (takeWhile p a @ dropWhile p a)" by simp
  also have "\<dots> = take n (takeWhile p a)" using n by (simp only: take_append) simp
  finally have "c \<in> set (takeWhile p a)" using c by (metis in_set_takeD)
  then show "p c" by (auto dest: set_takeWhileD)
qed

lemma run_length_all: "\<forall>c\<in>set s. p c \<Longrightarrow> run_length p None (s @ t) = length s + run_length p None t"
  by (simp add: run_length_def)

text \<open>The text does not go on with a character of the class.\<close>

definition stops :: "(char \<Rightarrow> bool) \<Rightarrow> string \<Rightarrow> bool" where
  "stops p t \<longleftrightarrow> t = [] \<or> \<not> p (hd t)"

lemma run_length_stop: "stops p t \<Longrightarrow> run_length p None t = 0"
  by (cases t) (auto simp: run_length_def stops_def)

lemma star_none: "stops p a \<Longrightarrow> rmatch (Star p 0 None # r) b a g = rmatch r b a g"
  by (simp add: run_length_stop split: option.splits)

lemma star_one:
  assumes "p c" and "stops p a" and "rmatch r (c # b) a g = Some y"
  shows "rmatch (Star p 0 None # r) b (c # a) g = Some y"
proof -
  have "run_length p None (c # a) = 1"
    using run_length_all [of "[c]" p a] run_length_stop [OF assms(2)] assms(1) by simp
  then show ?thesis using assms(3) by (simp add: upt_rec)
qed

text \<open>
  A text of a class, bounded in length, up to the end: the shape of the validation patterns.
  A dollar sign without \<open>re.MULTILINE\<close> also matches before a final line break, so the text
  may carry one.
\<close>

lemma rmatch_star_eos:
  assumes "\<not> p nl"
  shows "rmatch [Star p lo (Some hi), Eos] b a g \<noteq> None \<longleftrightarrow>
     (\<exists>w. (a = w \<or> a = w @ [nl]) \<and> lo \<le> length w \<and> length w \<le> hi \<and> list_all p w)"
    (is "?L \<longleftrightarrow> ?R")
proof
  assume ?L
  then obtain n where n: "lo \<le> n" "n \<le> run_length p (Some hi) a"
      and eos: "drop n a = [] \<or> drop n a = [nl]"
    by (auto simp: first_some_None_iff split: if_splits)
  have len: "n \<le> length a"
    using n(2) run_length_le [of p "Some hi" a] length_takeWhile_le [of p a] by linarith
  have "n \<le> hi" using n(2) by (simp add: run_length_def Let_def)
  have all: "list_all p (take n a)"
    using n(2) take_run_length by (auto simp: list_all_iff)
  have "a = take n a @ drop n a" by simp
  with eos have "a = take n a \<or> a = take n a @ [nl]" by (metis append_Nil2)
  then show ?R
    using all len n(1) \<open>n \<le> hi\<close>
    by (intro exI [of _ "take n a"]) (simp add: min_def)
next
  assume ?R
  then obtain w where w: "a = w \<or> a = w @ [nl]" "lo \<le> length w" "length w \<le> hi"
      "list_all p w" by blast
  have "takeWhile p w = w" using w(4) by (simp add: takeWhile_eq_all_conv list_all_iff)
  with w(1) assms have tw: "takeWhile p a = w"
    using w(4) by (auto simp: list_all_iff takeWhile_append2)
  then have rl: "run_length p (Some hi) a = length w"
    using w(3) by (simp add: run_length_def)
  from w(1) have "drop (length w) a = [] \<or> drop (length w) a = [nl]" by auto
  then show ?L
    using w(2) rl by (auto simp: first_some_None_iff)
qed

section \<open>Facts on scanning\<close>

lemma re_tokens_miss:
  "rmatch r b (c # a) None = None \<Longrightarrow> re_tokens r b (c # a) = Plain c # re_tokens r (c # b) a"
  by simp

lemma re_tokens_hit:
  assumes "rmatch r b (c # a) None = Some (b', a', g)" and "length a' \<le> length a"
  shows "re_tokens r b (c # a) =
    Hit (take (Suc (length a) - length a') (c # a)) g # re_tokens r b' a'"
  using assms by simp

text \<open>Nothing is lost by a scan: the characters and the matched texts make up the input.\<close>

fun tok_text :: "tok \<Rightarrow> string" where
  "tok_text (Plain c) = [c]"
| "tok_text (Hit w g) = w"

lemma re_tokens_text: "concat (map tok_text (re_tokens r b a)) = a"
proof (induction r b a rule: re_tokens.induct)
  case (1 r b)
  then show ?case by simp
next
  case (2 r b c a)
  show ?case
  proof (cases "rmatch r b (c # a) None")
    case None
    with 2 show ?thesis by simp
  next
    case (Some m)
    obtain b' a' g where m: "m = (b', a', g)" by (cases m)
    show ?thesis
    proof (cases "length a' \<le> length a")
      case True
      from Some m have "rev b' @ a' = rev b @ c # a" by (auto dest: rmatch_consumes)
      then have len: "length b' + length a' = length b + Suc (length a)"
        by (metis length_append length_rev length_Cons)
      have "drop (Suc (length a) - length a') (c # a) = a'"
      proof -
        from \<open>rev b' @ a' = rev b @ c # a\<close>
        have "drop (length b') (rev b' @ a') = drop (length b') (rev b @ c # a)" by simp
        then have "a' = drop (length b' - length b) (c # a)"
          using len True by simp
        moreover have "length b' - length b = Suc (length a) - length a'" using len by linarith
        ultimately show ?thesis by simp
      qed
      then have "take (Suc (length a) - length a') (c # a) @ a' = c # a"
        by (metis append_take_drop_id)
      with Some m True 2 show ?thesis by simp
    next
      case False
      with Some m 2 show ?thesis by simp
    qed
  qed
qed

end
