(* ===== verification/IpFacts.thy ===== *)
theory IpFacts
  imports IpAddr
begin

text \<open>
  The facts about addresses and networks that the other components rest on: masks as
  arithmetic, networks as intervals of integers, overlap as intersection, well-formedness of
  everything the parsers return, and the round trip through IPv4 text.
\<close>

named_theorems ip_arith "networks as intervals of integers"

section \<open>Well-formed addresses and networks\<close>

definition wf_addr :: "ipaddr \<Rightarrow> bool" where
  "wf_addr a \<longleftrightarrow> 0 \<le> aint a \<and> aint a \<le> all_ones (aver a)"

definition net_size :: "ipnet \<Rightarrow> int" where
  "net_size n = 2 ^ (max_plen (aver (naddr n)) - nplen n)"

definition wf_net :: "ipnet \<Rightarrow> bool" where
  "wf_net n \<longleftrightarrow> wf_addr (naddr n) \<and> nplen n \<le> max_plen (aver (naddr n)) \<and>
     aint (naddr n) mod net_size n = 0"

definition wf_iface :: "ipiface \<Rightarrow> bool" where
  "wf_iface i \<longleftrightarrow> wf_addr (iaddr i) \<and> nplen (inet i) \<le> max_plen (aver (iaddr i)) \<and>
     inet i = mk_net (iaddr i) (nplen (inet i))"

definition net_range :: "ipnet \<Rightarrow> int set" where
  "net_range n = {aint (naddr n)..<aint (naddr n) + net_size n}"

lemma net_size_pos: "0 < net_size n"
  by (simp add: net_size_def)

lemma all_ones_mask: "all_ones v = mask (max_plen v)"
  by (simp add: all_ones_def mask_eq_exp_minus_1)

lemma hostmask_eq: "p \<le> max_plen v \<Longrightarrow> hostmask_int v p = mask (max_plen v - p)"
  by (rule bit_eqI)
    (auto simp: hostmask_int_def netmask_int_def all_ones_mask bit_simps)

lemma and_netmask:
  assumes "0 \<le> x" and "x \<le> all_ones v" and "p \<le> max_plen v"
  shows "x AND netmask_int v p = x - x mod 2 ^ (max_plen v - p)"
proof -
  let ?k = "max_plen v - p"
  have "x < 2 ^ max_plen v" using assms(2) by (simp add: all_ones_def)
  with assms(1) have x: "x = take_bit (max_plen v) x"
    by (simp add: take_bit_int_eq_self)
  have "x AND netmask_int v p = push_bit ?k (drop_bit ?k x)"
  proof (rule bit_eqI)
    fix n
    have "bit x n \<Longrightarrow> n < max_plen v"
      by (subst (asm) x) (simp add: bit_simps)
    then show "bit (x AND netmask_int v p) n \<longleftrightarrow> bit (push_bit ?k (drop_bit ?k x)) n"
      using assms(3) by (auto simp: netmask_int_def all_ones_mask bit_simps)
  qed
  also have "\<dots> = x - x mod 2 ^ ?k"
    by (simp add: push_bit_eq_mult drop_bit_eq_div minus_mod_eq_div_mult)
  finally show ?thesis .
qed

lemma or_hostmask:
  assumes "p \<le> max_plen v" and "x mod 2 ^ (max_plen v - p) = 0"
  shows "x OR hostmask_int v p = x + (2 ^ (max_plen v - p) - 1)"
proof -
  let ?k = "max_plen v - p"
  have "x = push_bit ?k (drop_bit ?k x)"
    using assms(2) by (simp add: push_bit_eq_mult drop_bit_eq_div minus_mod_eq_div_mult [symmetric])
  then have "x AND mask ?k = 0"
    by (metis take_bit_eq_mask take_bit_push_bit diff_self_eq_0 push_bit_0_id id_apply take_bit_0
        push_bit_of_0 order_refl)
  then have "x + mask ?k = x OR mask ?k" by (rule disjunctive_add_eq_or)
  then show ?thesis
    using assms(1) by (simp add: hostmask_eq mask_eq_exp_minus_1)
qed

lemma aint_mk_net:
  assumes "wf_addr a" and "p \<le> max_plen (aver a)"
  shows "aint (naddr (mk_net a p)) = aint a - aint a mod 2 ^ (max_plen (aver a) - p)"
  using assms and_netmask [of "aint a" "aver a" p]
  by (auto simp: mk_net_def wf_addr_def Let_def)

lemma aver_mk_net [simp]: "aver (naddr (mk_net a p)) = aver a"
  by (simp add: mk_net_def Let_def)

lemma nplen_mk_net [simp]: "nplen (mk_net a p) = p"
  by (simp add: mk_net_def Let_def)

lemma wf_mk_net:
  assumes "wf_addr a" and "p \<le> max_plen (aver a)"
  shows "wf_net (mk_net a p)"
proof -
  let ?m = "2 ^ (max_plen (aver a) - p) :: int"
  have "0 \<le> aint a mod ?m" "aint a mod ?m \<le> aint a"
    using assms(1) by (auto simp: wf_addr_def zmod_le_nonneg_dividend)
  moreover have aligned: "(aint a - aint a mod ?m) mod ?m = 0"
    by (simp add: minus_mod_eq_mult_div)
  moreover have "aint a \<le> all_ones (aver a)" using assms(1) by (simp add: wf_addr_def)
  ultimately have "0 \<le> aint a - aint a mod ?m" "aint a - aint a mod ?m \<le> all_ones (aver a)"
    by linarith+
  then have "wf_addr (naddr (mk_net a p))"
    using assms by (simp add: wf_addr_def [of "naddr (mk_net a p)"] aint_mk_net)
  then show ?thesis
    using assms aligned
    by (simp add: wf_net_def aint_mk_net net_size_def)
qed

lemma wf_iface_net: "wf_iface i \<Longrightarrow> wf_net (inet i)"
  by (metis wf_iface_def wf_mk_net)

lemma aver_inet: "wf_iface i \<Longrightarrow> aver (naddr (inet i)) = aver (iaddr i)"
  by (metis wf_iface_def aver_mk_net)

section \<open>Networks are intervals\<close>

lemma broadcast_int [ip_arith]:
  "wf_net n \<Longrightarrow> aint (broadcast n) = aint (naddr n) + net_size n - 1"
  using or_hostmask [of "nplen n" "aver (naddr n)" "aint (naddr n)"]
  by (simp add: broadcast_def wf_net_def net_size_def)

lemma aver_broadcast [simp]: "aver (broadcast n) = aver (naddr n)"
  by (simp add: broadcast_def)

lemma wf_net_le_ones: "wf_net n \<Longrightarrow> aint (broadcast n) \<le> all_ones (aver (naddr n))"
proof -
  assume wf: "wf_net n"
  let ?v = "aver (naddr n)" and ?x = "aint (naddr n)"
  have "net_size n dvd 2 ^ max_plen ?v"
    unfolding net_size_def by (rule le_imp_power_dvd) simp
  then obtain q where q: "2 ^ max_plen ?v = net_size n * q" by blast
  have "net_size n dvd ?x" using wf by (simp add: wf_net_def mod_0_imp_dvd)
  then obtain r where r: "?x = net_size n * r" by blast
  have "?x < 2 ^ max_plen ?v" using wf by (simp add: wf_net_def wf_addr_def all_ones_def)
  then have "net_size n * r < net_size n * q" using q r by simp
  then have "r < q" using net_size_pos [of n] by (simp add: mult_less_cancel_left_pos)
  then have "net_size n * (r + 1) \<le> net_size n * q"
    using net_size_pos [of n] by (intro mult_left_mono) auto
  then have "?x + net_size n \<le> 2 ^ max_plen ?v"
    using q r by (simp add: distrib_left)
  with wf show ?thesis by (simp add: broadcast_int all_ones_def)
qed

lemma wf_broadcast: "wf_net n \<Longrightarrow> wf_addr (broadcast n)"
  using wf_net_le_ones [of n] net_size_pos [of n] broadcast_int [of n]
  unfolding wf_addr_def wf_net_def by simp

lemma in_net_iff [ip_arith]:
  assumes "wf_net n" and "wf_addr a"
  shows "in_net a n \<longleftrightarrow> aver a = aver (naddr n) \<and> aint a \<in> net_range n"
proof (cases "aver a = aver (naddr n)")
  case False
  then show ?thesis by (simp add: in_net_def)
next
  case True
  let ?m = "net_size n" and ?x = "aint a" and ?n = "aint (naddr n)"
  have "in_net a n \<longleftrightarrow> ?x - ?x mod ?m = ?n"
    using True assms and_netmask [of ?x "aver a" "nplen n"]
    by (simp add: in_net_def wf_addr_def wf_net_def net_size_def)
  also have "\<dots> \<longleftrightarrow> ?n \<le> ?x \<and> ?x < ?n + ?m"
  proof
    assume "?x - ?x mod ?m = ?n"
    then show "?n \<le> ?x \<and> ?x < ?n + ?m"
      using pos_mod_sign [of ?m ?x] pos_mod_bound [of ?m ?x] net_size_pos [of n] by linarith
  next
    assume r: "?n \<le> ?x \<and> ?x < ?n + ?m"
    have "?m dvd ?n" using assms(1) by (simp add: wf_net_def mod_0_imp_dvd)
    then obtain q where q: "?n = ?m * q" by blast
    have "?x mod ?m = (?x - ?n) mod ?m" using q by (simp add: mod_diff_right_eq [symmetric])
    also have "\<dots> = ?x - ?n" using r by (intro mod_pos_pos_trivial) auto
    finally show "?x - ?x mod ?m = ?n" by simp
  qed
  finally show ?thesis using True by (simp add: net_range_def)
qed

lemma net_range_broadcast: "wf_net n \<Longrightarrow> net_range n = {aint (naddr n)..aint (broadcast n)}"
  by (auto simp: net_range_def broadcast_int)

lemma overlaps_iff_common [ip_arith]:
  assumes "wf_net n" and "wf_net m"
  shows "overlaps n m \<longleftrightarrow>
    aver (naddr n) = aver (naddr m) \<and> net_range n \<inter> net_range m \<noteq> {}"
proof -
  have wn: "wf_addr (naddr n)" "wf_addr (naddr m)" using assms by (simp_all add: wf_net_def)
  note iff = in_net_iff [OF assms(1) wn(2)] in_net_iff [OF assms(2) wn(1)]
    in_net_iff [OF assms(1) wf_broadcast [OF assms(2)]]
    in_net_iff [OF assms(2) wf_broadcast [OF assms(1)]]
  have pos: "0 < net_size n" "0 < net_size m" by (rule net_size_pos)+
  have "net_range n \<inter> net_range m \<noteq> {} \<longleftrightarrow>
      aint (naddr n) \<in> net_range m \<or> aint (naddr m) \<in> net_range n"
    using pos by (fastforce simp: net_range_def)
  moreover have "aint (broadcast n) \<in> net_range m \<Longrightarrow> net_range n \<inter> net_range m \<noteq> {}"
    using pos assms by (auto simp: net_range_def broadcast_int)
  moreover have "aint (broadcast m) \<in> net_range n \<Longrightarrow> net_range n \<inter> net_range m \<noteq> {}"
    using pos assms by (auto simp: net_range_def broadcast_int)
  ultimately show ?thesis
    unfolding overlaps_def iff by auto
qed

lemma overlaps_sym: "wf_net n \<Longrightarrow> wf_net m \<Longrightarrow> overlaps n m \<longleftrightarrow> overlaps m n"
  by (auto simp: overlaps_def)

section \<open>Host addresses\<close>

lemma set_hosts:
  assumes "wf_net n" and "h \<in> set (hosts n)"
  shows "aver h = aver (naddr n) \<and> aint h \<in> net_range n"
  using assms net_size_pos [of n]
  by (cases "aver (naddr n)")
    (auto simp: hosts_def Let_def net_range_broadcast addr_of_int_def broadcast_int split: if_splits)

lemma hosts_wf: "wf_net n \<Longrightarrow> h \<in> set (hosts n) \<Longrightarrow> wf_addr h"
  using set_hosts [of n h] wf_net_le_ones [of n]
  by (auto simp: wf_addr_def net_range_broadcast wf_net_def)

lemma hosts_v4_usable:
  assumes "wf_net n" and "aver (naddr n) = V4" and "nplen n \<le> 30" and "h \<in> set (hosts n)"
  shows "aint h \<noteq> aint (naddr n) \<and> aint h \<noteq> aint (broadcast n)"
  using assms by (auto simp: hosts_def Let_def addr_of_int_def)

lemma hosts_noscope:
  "ascope (naddr n) = None \<Longrightarrow> h \<in> set (hosts n) \<Longrightarrow> ascope h = None"
  by (auto simp: hosts_def Let_def addr_of_int_def split: if_splits ipver.splits)

lemma distinct_hosts: "distinct (hosts n)"
  by (auto simp: hosts_def Let_def addr_of_int_def distinct_map inj_on_def split: ipver.splits)

section \<open>Everything parsed is well formed\<close>

lemma parse_octet_bound: "parse_octet s = Some i \<Longrightarrow> 0 \<le> i \<and> i < 256"
  by (auto simp: parse_octet_def split: if_splits)

lemma v4_of_string_bound:
  "v4_of_string s = Some i \<Longrightarrow> 0 \<le> i \<and> i \<le> all_ones V4"
  unfolding v4_of_string_def all_ones_def
  by (force split: if_splits list.splits option.splits dest!: parse_octet_bound)

lemma hex_val_bound: "is_hex c \<Longrightarrow> 0 \<le> hex_val c \<and> hex_val c < 16"
  by (auto simp: is_hex_def hex_val_def is_ascii_digit_def)

lemma hex_foldl_bound:
  assumes "list_all is_hex s" and "0 \<le> n" and "n < 16 ^ k"
  shows "0 \<le> foldl (\<lambda>n c. 16 * n + hex_val c) n s \<and>
    foldl (\<lambda>n c. 16 * n + hex_val c) n s < 16 ^ (k + length s)"
  using assms
proof (induction s arbitrary: n k)
  case Nil
  then show ?case by simp
next
  case (Cons c s)
  from Cons.prems hex_val_bound [of c]
  have "0 \<le> 16 * n + hex_val c" "16 * n + hex_val c < 16 ^ Suc k" by auto
  with Cons.IH [of "16 * n + hex_val c" "Suc k"] Cons.prems(1) show ?case by simp
qed

lemma parse_hextet_bound: "parse_hextet s = Some h \<Longrightarrow> 0 \<le> h \<and> h < 65536"
proof -
  assume p: "parse_hextet s = Some h"
  then have s: "list_all is_hex s" "length s \<le> 4"
    and h: "h = foldl (\<lambda>n c. 16 * n + hex_val c) 0 s"
    by (auto simp: parse_hextet_def split: if_splits)
  have "0 \<le> h \<and> h < 16 ^ length s" using hex_foldl_bound [OF s(1), of 0 0] h by simp
  moreover have "(16::int) ^ length s \<le> 16 ^ 4" using s(2) by (intro power_increasing) auto
  ultimately show ?thesis by auto
qed

lemma push_or_add: "0 \<le> h \<Longrightarrow> h < 65536 \<Longrightarrow> push_bit 16 a OR h = 65536 * a + (h::int)"
proof -
  assume h: "0 \<le> h" "h < 65536"
  then have "h = take_bit 16 h" by (simp add: take_bit_int_eq_self)
  then have "push_bit 16 a AND h = 0"
    by (metis bit_eqI bit_and_iff bit_push_bit_iff bit_take_bit_iff bit_0_eq bot_apply bot_bool_def not_le)
  then have "push_bit 16 a + h = push_bit 16 a OR h" by (rule disjunctive_add_eq_or)
  then show ?thesis by (simp add: push_bit_eq_mult)
qed

lemma parse_hextets_bound:
  assumes "parse_hextets acc ss = Some r" and "0 \<le> acc" and "acc < 2 ^ (16 * k)"
  shows "0 \<le> r \<and> r < 2 ^ (16 * (k + length ss))"
  using assms
proof (induction ss arbitrary: acc k)
  case Nil
  then show ?case by simp
next
  case (Cons s ss)
  then obtain h where h: "parse_hextet s = Some h"
      and rec: "parse_hextets (push_bit 16 acc OR h) ss = Some r"
    by (auto split: option.splits)
  from parse_hextet_bound [OF h] have hb: "0 \<le> h" "h < 65536" by auto
  have eq: "push_bit 16 acc OR h = 65536 * acc + h" using hb by (rule push_or_add)
  have "2 ^ (16 * Suc k) = (65536::int) * 2 ^ (16 * k)" by (simp add: power_add)
  then have "0 \<le> push_bit 16 acc OR h" "push_bit 16 acc OR h < 2 ^ (16 * Suc k)"
    using eq hb Cons.prems(2,3) by auto
  from Cons.IH [OF rec this] show ?case by simp
qed

lemma v6_layout_eight:
  assumes "v6_layout parts = Some (hi, k, lo)"
  shows "length hi + k + length lo = 8"
proof -
  let ?n = "length parts"
  let ?skips = "filter (\<lambda>i. parts ! i = []) [1..<?n - 1]"
  show ?thesis
  proof (cases ?skips)
    case Nil
    with assms show ?thesis by (auto simp: v6_layout_def Let_def split: if_splits)
  next
    case (Cons j js)
    then have "j \<in> set [1..<?n - 1]" by (metis filter_is_subset list.set_intros(1) subsetD)
    then have j: "1 \<le> j" "j < ?n - 1" by auto
    from Cons assms j show ?thesis
      by (cases js) (auto simp: v6_layout_def Let_def min_def split: if_splits)
  qed
qed

lemma v6_of_string_bound: "v6_of_string s = Some i \<Longrightarrow> 0 \<le> i \<and> i \<le> all_ones V6"
proof -
  assume "v6_of_string s = Some i"
  then obtain parts hi k lo h where lay: "v6_layout parts = Some (hi, k, lo)"
      and h: "parse_hextets 0 hi = Some h"
      and i: "parse_hextets (push_bit (16 * k) h) lo = Some i"
    by (auto simp: v6_of_string_def split: option.splits prod.splits)
  have hb: "0 \<le> h \<and> h < 2 ^ (16 * length hi)"
    using parse_hextets_bound [OF h, of 0] by simp
  have "push_bit (16 * k) h = h * 2 ^ (16 * k)" by (simp add: push_bit_eq_mult)
  then have "0 \<le> push_bit (16 * k) h" "push_bit (16 * k) h < 2 ^ (16 * (length hi + k))"
    using hb by (simp_all add: distrib_left power_add)
  from parse_hextets_bound [OF i this] v6_layout_eight [OF lay]
  show ?thesis by (simp add: all_ones_def)
qed

lemma address_of_wf: "address_of v s = Some a \<Longrightarrow> wf_addr a \<and> aver a = v"
  by (cases v)
    (auto simp: wf_addr_def split: if_splits option.splits
      dest: v4_of_string_bound v6_of_string_bound)

lemma prefix_of_digits_bound: "prefix_of_digits v s = Some p \<Longrightarrow> p \<le> max_plen v"
  by (auto simp: prefix_of_digits_def split: if_splits)

lemma prefix_of_int_bound: "prefix_of_int i = Some p \<Longrightarrow> p \<le> 32"
  by (auto simp: prefix_of_int_def Let_def split: if_splits)

lemma make_netmask_bound: "make_netmask v m = Some p \<Longrightarrow> p \<le> max_plen v"
  by (induction v m rule: make_netmask.induct)
    (auto simp: prefix_of_dotted_def split: option.splits
      dest: prefix_of_digits_bound prefix_of_int_bound)

lemma interface_of_wf: "interface_of v s = Some i \<Longrightarrow> wf_iface i \<and> aver (iaddr i) = v"
  unfolding interface_of_def
  by (auto simp: wf_iface_def split: option.splits prod.splits
      dest!: address_of_wf make_netmask_bound)

lemma ip_interface_wf: "ip_interface s = Some i \<Longrightarrow> wf_iface i"
  by (auto simp: ip_interface_def split: option.splits dest: interface_of_wf)

lemma ip_network_wf: "ip_network s = Some n \<Longrightarrow> wf_net n"
  by (auto simp: ip_network_def dest: ip_interface_wf wf_iface_net)

section \<open>IPv4 text\<close>

lemma digit_char_0: "digit_char 0 = CHR ''0''"
  by code_simp

lemma parse_octet_dec:
  assumes "n < 256"
  shows "parse_octet (dec n) = Some (int n)"
proof -
  have "\<not> (dec n \<noteq> ''0'' \<and> hd (dec n) = CHR ''0'')"
  proof
    assume a: "dec n \<noteq> ''0'' \<and> hd (dec n) = CHR ''0''"
    then have "dec n = digit_char 0 # tl (dec n)"
      by (metis digit_char_0 dec_not_Nil list.collapse)
    then have "tl (dec n) = []" using dec_leading_zero by blast
    with a \<open>dec n = digit_char 0 # tl (dec n)\<close> show False by (simp add: digit_char_0)
  qed
  then show ?thesis
    using assms length_dec_le3 [of n] dec_digits [of n] by (auto simp: parse_octet_def)
qed

lemma dec_no_char: "\<not> is_ascii_digit c \<Longrightarrow> c \<notin> set (dec n)"
  using dec_digit_mem by blast

lemma sep_not_digit [simp]:
  "\<not> is_ascii_digit (CHR ''.'')" "\<not> is_ascii_digit (CHR ''/'')" "\<not> is_ascii_digit nl"
  "\<not> is_ascii_digit (CHR '','')" "\<not> is_ascii_digit (CHR '' '')" "\<not> is_ascii_digit (CHR '':'')"
  by (simp_all add: is_ascii_digit_def code_def nl_def)

lemma octets_of_int:
  fixes i :: int
  assumes "0 \<le> i" and "i < 2 ^ 32"
  shows "((i div 2 ^ 24 mod 256 * 256 + i div 2 ^ 16 mod 256) * 256 + i div 2 ^ 8 mod 256) * 256
    + i mod 256 = i"
proof -
  have step: "i div 2 ^ (k + 8) * 256 + i div 2 ^ k mod 256 = i div 2 ^ k" for k
  proof -
    have "i div 2 ^ (k + 8) = i div 2 ^ k div 256"
      unfolding power_add by (subst zdiv_zmult2_eq) simp_all
    then show ?thesis by (metis div_mult_mod_eq)
  qed
  have "i div 2 ^ 24 < 256"
    using assms(2) by (simp add: div_less_iff_less_mult)
  moreover have "0 \<le> i div 2 ^ 24" using assms(1) by (simp add: pos_imp_zdiv_nonneg_iff)
  ultimately have 4: "i div 2 ^ 24 mod 256 = i div 2 ^ 24" by (rule mod_pos_pos_trivial [rotated])
  show ?thesis
    unfolding 4 using step [of 16] step [of 8] step [of 0] by (simp del: power_numeral)
qed

lemma v4_of_string_octets:
  assumes "s \<noteq> []" and "py_split (CHR ''.'') s = [dec a, dec b, dec c, dec d]"
    and "a < 256" and "b < 256" and "c < 256" and "d < 256"
  shows "v4_of_string s = Some (((int a * 256 + int b) * 256 + int c) * 256 + int d)"
  unfolding v4_of_string_def assms(2) using assms(1,3-6)
  by (simp add: parse_octet_dec)

lemma v4_of_str_v4:
  assumes "0 \<le> i" and "i \<le> all_ones V4"
  shows "v4_of_string (str_v4 i) = Some i"
proof -
  have lt: "i < 2 ^ 32" using assms(2) unfolding all_ones_def max_plen.simps by linarith
  define f where "f k = nat (i div 2 ^ k mod 256)" for k :: nat
  have fb: "f k < 256" for k by (simp add: f_def nat_less_iff)
  have fi: "int (f k) = i div 2 ^ k mod 256" for k by (simp add: f_def)
  have str: "str_v4 i = py_join ''.'' (map (\<lambda>k. dec (f k)) [24, 16, 8, 0])"
    by (simp add: str_v4_def f_def)
  have "py_split (CHR ''.'') (str_v4 i) = map (\<lambda>k. dec (f k)) [24, 16, 8, 0]"
    unfolding str by (rule py_split_join) (auto simp: dec_no_char)
  then have "py_split (CHR ''.'') (str_v4 i) = [dec (f 24), dec (f 16), dec (f 8), dec (f 0)]"
    by simp
  moreover have "str_v4 i \<noteq> []" by (simp add: str)
  ultimately have "v4_of_string (str_v4 i) =
      Some (((int (f 24) * 256 + int (f 16)) * 256 + int (f 8)) * 256 + int (f 0))"
    by (intro v4_of_string_octets fb)
  also have "\<dots> = Some i"
    unfolding fi power_0 div_by_1 octets_of_int [OF assms(1) lt] ..
  finally show ?thesis .
qed

lemma str_v4_chars: "c \<in> set (str_v4 i) \<Longrightarrow> is_ascii_digit c \<or> c = CHR ''.''"
  by (auto simp: str_v4_def dest: dec_digit_mem)

lemma str_v4_not_Nil [simp]: "str_v4 i \<noteq> []"
  by (simp add: str_v4_def)

lemma split_addr_prefix_v4:
  "split_addr_prefix (str_v4 i) = Some (str_v4 i, None)"
  "split_addr_prefix (str_v4 i @ CHR ''/'' # dec p) = Some (str_v4 i, Some (dec p))"
proof -
  have "CHR ''/'' \<notin> set (str_v4 i)" using str_v4_chars by fastforce
  then show "split_addr_prefix (str_v4 i) = Some (str_v4 i, None)"
    and "split_addr_prefix (str_v4 i @ CHR ''/'' # dec p) = Some (str_v4 i, Some (dec p))"
    by (simp_all add: split_addr_prefix_def py_split_append py_split_none dec_no_char)
qed

lemma address_of_str_v4:
  assumes "0 \<le> i" and "i \<le> all_ones V4"
  shows "address_of V4 (str_v4 i) = Some (addr_of_int V4 i)"
proof -
  have "CHR ''/'' \<notin> set (str_v4 i)" using str_v4_chars by fastforce
  then show ?thesis using assms by (simp add: v4_of_str_v4 addr_of_int_def)
qed

lemma interface_of_str_v4:
  assumes "0 \<le> i" and "i \<le> all_ones V4" and "p \<le> 32"
  shows "interface_of V4 (str_v4 i @ CHR ''/'' # dec p) =
    Some \<lparr>iaddr = addr_of_int V4 i, inet = mk_net (addr_of_int V4 i) p\<rparr>"
  using assms dec_digits [of p]
  by (simp add: interface_of_def split_addr_prefix_v4 address_of_str_v4 prefix_of_digits_def
      del: address_of.simps)

definition is_v4_iface :: "ipiface \<Rightarrow> bool" where
  "is_v4_iface i \<longleftrightarrow> aver (iaddr i) = V4 \<and> ascope (iaddr i) = None"

lemma address_of_V4_noscope: "address_of V4 s = Some a \<Longrightarrow> ascope a = None"
  by (auto split: if_splits)

lemma interface_of_V4: "interface_of V4 s = Some i \<Longrightarrow> is_v4_iface i"
  using interface_of_wf [of V4 s i]
  by (auto simp: is_v4_iface_def interface_of_def split: option.splits prod.splits
      dest: address_of_V4_noscope simp del: address_of.simps)

lemma str_iface_v4:
  "is_v4_iface i \<Longrightarrow> str_iface i = str_v4 (aint (iaddr i)) @ CHR ''/'' # dec (nplen (inet i))"
  by (simp add: str_iface_def is_v4_iface_def str_addr_def)

lemma ip_interface_str_iface:
  assumes "wf_iface i" and "is_v4_iface i"
  shows "ip_interface (str_iface i) = Some i"
proof -
  from assms have b: "0 \<le> aint (iaddr i)" "aint (iaddr i) \<le> all_ones V4" "nplen (inet i) \<le> 32"
    and net: "inet i = mk_net (iaddr i) (nplen (inet i))"
    by (auto simp: wf_iface_def is_v4_iface_def wf_addr_def)
  have a: "addr_of_int V4 (aint (iaddr i)) = iaddr i"
    using assms(2) by (simp add: addr_of_int_def is_v4_iface_def)
  have "interface_of V4 (str_iface i) = Some i"
    unfolding str_iface_v4 [OF assms(2)] interface_of_str_v4 [OF b] a
    using net by (metis ipiface.surjective old.unit.exhaust)
  then show ?thesis by (simp add: ip_interface_def)
qed

lemma str_iface_v4_chars:
  assumes "is_v4_iface i" and "c \<in> set (str_iface i)"
  shows "is_ascii_digit c \<or> c = CHR ''.'' \<or> c = CHR ''/''"
  using assms by (auto simp: str_iface_v4 dest: str_v4_chars dec_digit_mem)

lemma ip_network_host32:
  assumes "aver h = V4" and "ascope h = None" and "wf_addr h"
  shows "ip_interface (str_addr h @ ''/32'') = Some \<lparr>iaddr = h, inet = \<lparr>naddr = h, nplen = 32\<rparr>\<rparr>"
proof -
  have h: "h = addr_of_int V4 (aint h)" using assms by (simp add: addr_of_int_def)
  have "aint h AND netmask_int V4 32 = aint h"
    using assms and_netmask [of "aint h" V4 32] by (simp add: wf_addr_def)
  then have "mk_net h 32 = \<lparr>naddr = h, nplen = 32\<rparr>"
    using assms(1) by (simp add: mk_net_def)
  moreover have d32: "dec 32 = ''32''"
    by code_simp
  have "interface_of V4 (str_addr h @ ''/32'') = Some \<lparr>iaddr = h, inet = mk_net h 32\<rparr>"
    using interface_of_str_v4 [of "aint h" 32] assms h d32
    by (simp add: str_addr_def wf_addr_def)
  ultimately show ?thesis by (simp add: ip_interface_def)
qed

end
