(* ===== verification/WgConf.thy ===== *)
theory WgConf
  imports PyRegex IpFacts
begin

text \<open>
  The text of a tunnel's configuration file, as deploy/pi-wg-helperd/helper.py handles it:
  \<open>_split_conf\<close>, \<open>_rebuild_conf\<close>, \<open>_parse_conf_info\<close>, and the patterns they use.

  A file is a header (the \<open>[Interface]\<close> section) followed by blocks that start with
  \<open>[Peer]\<close>.  The locale \<open>block_codec\<close> states what the commands that edit a file rely on:
  splitting a rebuilt file gives back the header and the blocks, up to the normal form of
  their trailing line breaks.  It is interpreted on the two functions below.
\<close>

section \<open>Splitting and rebuilding\<close>

definition peer_sep :: rx where
  "peer_sep = [Cls ((=) nl), Ahead ''[Peer]'']"

definition split_conf :: "string \<Rightarrow> string \<times> string list" where
  "split_conf content = (let parts = re_split peer_sep content in (hd parts, tl parts))"

definition rebuild_conf :: "string \<Rightarrow> string list \<Rightarrow> string" where
  "rebuild_conf header peer_blocks =
     rstrip_nl header @ [nl] @ concat (map (\<lambda>b. nl # rstrip_nl b @ [nl]) peer_blocks)"

text \<open>The same split as a recursion on the text, without the matcher.\<close>

fun split_peer :: "string \<Rightarrow> string list" where
  "split_peer [] = [[]]"
| "split_peer (c # s) =
     (if c = nl \<and> prefix ''[Peer]'' s then [] # split_peer s
      else (case split_peer s of [] \<Rightarrow> [[c]] | w # ws \<Rightarrow> (c # w) # ws))"

definition peer_mark :: string where
  "peer_mark = nl # ''[Peer]''"

lemma rmatch_peer_sep:
  "rmatch peer_sep b (c # a) None =
     (if c = nl \<and> prefix ''[Peer]'' a then Some (c # b, a, None) else None)"
  by (auto simp: peer_sep_def)

lemma pieces_peer_sep: "pieces (re_tokens peer_sep b s) = split_peer s"
proof (induction s arbitrary: b)
  case Nil
  then show ?case by simp
next
  case (Cons c s)
  then show ?case
    by (simp add: rmatch_peer_sep)
qed

lemma re_split_peer_sep: "re_split peer_sep s = split_peer s"
  by (simp add: re_split_def pieces_peer_sep)

lemma split_peer_not_Nil [simp]: "split_peer s \<noteq> []"
  by (induction s) (auto split: list.splits)

lemma split_conf_eq: "split_conf s = (hd (split_peer s), tl (split_peer s))"
  by (simp add: split_conf_def re_split_peer_sep Let_def)

lemma nl_not_peer: "nl \<notin> set ''[Peer]''"
  by (simp add: nl_def)

lemma split_peer_single: "\<not> py_contains peer_mark s \<Longrightarrow> split_peer s = [s]"
  by (induction s) (auto simp: peer_mark_def)

lemma split_peer_append:
  assumes "prefix ''[Peer]'' r"
  shows "split_peer (s @ nl # r) = split_peer s @ split_peer r"
proof (induction s)
  case Nil
  from assms show ?case by simp
next
  case (Cons c s)
  have "prefix ''[Peer]'' (s @ nl # r) \<longleftrightarrow> prefix ''[Peer]'' s" if "c = nl"
  proof
    assume p: "prefix ''[Peer]'' (s @ nl # r)"
    show "prefix ''[Peer]'' s"
    proof (rule ccontr)
      assume "\<not> prefix ''[Peer]'' s"
      with p have "length s < length ''[Peer]''"
        by (meson not_le prefix_length_prefix prefixI)
      then have "nl \<in> set (take (length ''[Peer]'') (s @ nl # r))" by (simp add: take_Cons')
      moreover have "take (length ''[Peer]'') (s @ nl # r) = ''[Peer]''"
        using p by (metis append_eq_conv_conj prefix_def)
      ultimately show False using nl_not_peer by metis
    qed
  qed (auto simp: prefix_def)
  with Cons show ?case by (auto split: list.splits)
qed

lemma split_peer_parts:
  "w \<in> set (split_peer s) \<Longrightarrow> \<not> py_contains peer_mark w"
proof (induction s arbitrary: w)
  case Nil
  then show ?case by (simp add: peer_mark_def)
next
  case (Cons c s)
  obtain v vs where v: "split_peer s = v # vs" by (cases "split_peer s") auto
  have pv: "prefix v s"
    using v
  proof (induction s arbitrary: v vs)
    case Nil
    then show ?case by simp
  next
    case (Cons d s)
    then show ?case by (cases "split_peer s") (auto split: if_splits)
  qed
  show ?case
  proof (cases "c = nl \<and> prefix ''[Peer]'' s")
    case True
    with Cons show ?thesis by (auto simp: peer_mark_def)
  next
    case False
    have "\<not> prefix peer_mark (c # v)"
      using False pv by (auto simp: peer_mark_def intro: prefix_order.trans)
    with Cons False v show ?thesis by auto
  qed
qed

lemma split_peer_tl: "w \<in> set (tl (split_peer s)) \<Longrightarrow> prefix ''[Peer]'' w"
proof (induction s)
  case Nil
  then show ?case by simp
next
  case (Cons c s)
  obtain v vs where v: "split_peer s = v # vs" by (cases "split_peer s") auto
  have "prefix ''[Peer]'' s \<Longrightarrow> prefix ''[Peer]'' v"
  proof -
    assume "prefix ''[Peer]'' s"
    then obtain r where s: "s = ''[Peer]'' @ r" by (auto simp: prefix_def)
    have "\<exists>u us. split_peer (''[Peer]'' @ r) = (''[Peer]'' @ u) # us"
      by (cases "split_peer r") (auto simp: nl_def)
    with s v show ?thesis by (auto simp: prefix_def)
  qed
  with Cons v show ?case by (auto split: if_splits)
qed

section \<open>The codec of blocks\<close>

definition hdr_norm :: "string \<Rightarrow> string" where
  "hdr_norm s = rstrip_nl s @ [nl]"

definition hdr_ok :: "string \<Rightarrow> bool" where
  "hdr_ok h \<longleftrightarrow> \<not> py_contains peer_mark h"

definition blk_ok :: "string \<Rightarrow> bool" where
  "blk_ok b \<longleftrightarrow> prefix ''[Peer]'' b \<and> \<not> py_contains peer_mark b"

lemma contains_prefix: "py_contains w s \<Longrightarrow> prefix s t \<Longrightarrow> py_contains w t"
  by (auto simp: py_contains_iff prefix_def) (metis append.assoc)

lemma contains_snoc:
  assumes "py_contains w (s @ [c])" and "w \<noteq> []" and "last w \<noteq> c"
  shows "py_contains w s"
proof -
  from assms(1) obtain a b where ab: "s @ [c] = a @ w @ b" by (auto simp: py_contains_iff)
  show ?thesis
  proof (cases b rule: rev_cases)
    case Nil
    with ab assms(2) have "last w = c" by (metis append_Nil2 last_appendR last_snoc)
    with assms(3) show ?thesis by simp
  next
    case (snoc b' d)
    with ab have "s = a @ w @ b'" by simp
    then show ?thesis by (auto simp: py_contains_iff)
  qed
qed

lemma hdr_norm_no_mark: "\<not> py_contains peer_mark s \<Longrightarrow> \<not> py_contains peer_mark (hdr_norm s)"
proof
  assume n: "\<not> py_contains peer_mark s" and "py_contains peer_mark (hdr_norm s)"
  then have "py_contains peer_mark (rstrip_nl s)"
    unfolding hdr_norm_def by (rule_tac contains_snoc) (auto simp: peer_mark_def nl_def)
  then have "py_contains peer_mark s"
    by (rule contains_prefix) (simp add: rstrip_nl_def rstrip_by_prefix)
  with n show False ..
qed

lemma hdr_norm_idem [simp]: "hdr_norm (hdr_norm s) = hdr_norm s"
  by (simp add: hdr_norm_def rstrip_nl_def rstrip_by_append_all)

lemma rstrip_nl_peer:
  assumes "prefix ''[Peer]'' b"
  shows "prefix ''[Peer]'' (rstrip_nl b)"
proof -
  obtain t where t: "b = rstrip_nl b @ t" "\<forall>c\<in>set t. c = nl"
    unfolding rstrip_nl_def by (rule rstrip_by_decomp)
  show ?thesis
  proof (rule ccontr)
    assume n: "\<not> ?thesis"
    have "prefix ''[Peer]'' (rstrip_nl b @ t)" using assms t(1) by simp
    with n obtain u where u: "u \<noteq> []" "''[Peer]'' = rstrip_nl b @ u" "prefix u t"
      by (auto simp: prefix_append)
    then have "nl \<in> set ''[Peer]''"
      using t(2) by (metis hd_in_set in_set_conv_decomp prefix_def Un_iff set_append)
    with nl_not_peer show False by simp
  qed
qed

lemma blk_norm_ok: "blk_ok b \<Longrightarrow> blk_ok (hdr_norm b)"
  using hdr_norm_no_mark [of b] rstrip_nl_peer [of b]
  by (auto simp: blk_ok_def hdr_norm_def prefix_def)

lemma split_conf_ok: "hdr_ok (fst (split_conf c)) \<and> list_all blk_ok (snd (split_conf c))"
  using split_peer_parts [of _ c] split_peer_tl [of _ c]
  by (cases "split_peer c") (auto simp: split_conf_eq hdr_ok_def blk_ok_def list_all_iff)

lemma split_peer_blocks:
  "\<not> py_contains peer_mark h \<Longrightarrow> list_all blk_ok bs \<Longrightarrow>
   split_peer (h @ concat (map (\<lambda>b. nl # b) bs)) = h # bs"
proof (induction bs arbitrary: h)
  case Nil
  then show ?case by (simp add: split_peer_single)
next
  case (Cons b bs)
  have p: "prefix ''[Peer]'' (b @ concat (map (\<lambda>b. nl # b) bs))"
    using Cons.prems(2) by (auto simp: blk_ok_def prefix_def)
  have "split_peer (h @ nl # b @ concat (map (\<lambda>b. nl # b) bs)) =
      split_peer h @ split_peer (b @ concat (map (\<lambda>b. nl # b) bs))"
    by (rule split_peer_append [OF p])
  also have "\<dots> = [h] @ b # bs"
    using Cons.IH [of b] Cons.prems by (simp add: split_peer_single blk_ok_def)
  finally show ?case by simp
qed

lemma split_rebuild:
  assumes "hdr_ok h" and "list_all blk_ok bs"
  shows "split_conf (rebuild_conf h bs) = (hdr_norm h, map hdr_norm bs)"
proof -
  have "rebuild_conf h bs = hdr_norm h @ concat (map (\<lambda>b. nl # b) (map hdr_norm bs))"
    by (simp add: rebuild_conf_def hdr_norm_def comp_def)
  moreover have "split_peer (hdr_norm h @ concat (map (\<lambda>b. nl # b) (map hdr_norm bs))) =
      hdr_norm h # map hdr_norm bs"
    using assms by (intro split_peer_blocks)
      (auto simp: hdr_ok_def hdr_norm_no_mark list_all_iff blk_norm_ok)
  ultimately show ?thesis by (simp add: split_conf_eq)
qed

section \<open>Peers by public key\<close>

definition peer_key_line :: "string \<Rightarrow> string" where
  "peer_key_line k = ''PublicKey = '' @ k"

definition has_key :: "string \<Rightarrow> string \<Rightarrow> bool" where
  \<comment> \<open>\<open>f"PublicKey = {public_key}" in b\<close>\<close>
  "has_key k b \<longleftrightarrow> py_contains (peer_key_line k) b"

lemma contains_append_nls:
  assumes "w \<noteq> []" and "last w \<noteq> nl" and "\<forall>c\<in>set t. c = nl"
  shows "py_contains w (s @ t) \<longleftrightarrow> py_contains w s"
  using assms(3)
proof (induction t rule: rev_induct)
  case Nil
  then show ?case by simp
next
  case (snoc c t)
  have "py_contains w ((s @ t) @ [c]) \<longleftrightarrow> py_contains w (s @ t)"
    using contains_snoc [of w "s @ t" c] contains_prefix [of w "s @ t" "(s @ t) @ [c]"]
      assms(1,2) snoc.prems by auto
  with snoc show ?case by simp
qed

lemma has_key_norm:
  assumes "k \<noteq> []" and "last k \<noteq> nl"
  shows "has_key k (hdr_norm b) \<longleftrightarrow> has_key k b"
proof -
  obtain t where t: "b = rstrip_nl b @ t" "\<forall>c\<in>set t. c = nl"
    unfolding rstrip_nl_def by (rule rstrip_by_decomp)
  have w: "peer_key_line k \<noteq> []" "last (peer_key_line k) \<noteq> nl"
    using assms by (simp_all add: peer_key_line_def)
  have "has_key k (hdr_norm b) \<longleftrightarrow> has_key k (rstrip_nl b)"
    using contains_append_nls [OF w, of "[nl]"] by (simp add: has_key_def hdr_norm_def)
  also have "\<dots> \<longleftrightarrow> has_key k b"
    using contains_append_nls [OF w t(2), of "rstrip_nl b"] t(1) by (simp add: has_key_def)
  finally show ?thesis .
qed

section \<open>The contract between the file format and the commands that edit it\<close>

locale block_codec =
  fixes parse :: "'c \<Rightarrow> 'h \<times> 'b list"
    and build :: "'h \<Rightarrow> 'b list \<Rightarrow> 'c"
    and h_ok :: "'h \<Rightarrow> bool" and b_ok :: "'b \<Rightarrow> bool"
    and h_norm :: "'h \<Rightarrow> 'h" and b_norm :: "'b \<Rightarrow> 'b"
    and keyed :: "'k \<Rightarrow> 'b \<Rightarrow> bool" and key_ok :: "'k \<Rightarrow> bool"
  assumes parse_ok: "h_ok (fst (parse c)) \<and> list_all b_ok (snd (parse c))"
    and parse_build: "h_ok h \<Longrightarrow> list_all b_ok bs \<Longrightarrow>
      parse (build h bs) = (h_norm h, map b_norm bs)"
    and norm_idem: "h_norm (h_norm h) = h_norm h" "b_norm (b_norm b) = b_norm b"
    and build_norm: "build (h_norm h) (map b_norm bs) = build h bs"
    and keyed_norm: "key_ok k \<Longrightarrow> keyed k (b_norm b) \<longleftrightarrow> keyed k b"
begin

lemma rewrite_blocks:
  "parse (build (fst (parse c)) (snd (parse c))) =
    (h_norm (fst (parse c)), map b_norm (snd (parse c)))"
  using parse_ok by (intro parse_build) auto

lemma rewrite_stable:
  "build (fst (parse (build (fst (parse c)) (snd (parse c)))))
     (snd (parse (build (fst (parse c)) (snd (parse c))))) =
   build (fst (parse c)) (snd (parse c))"
  unfolding rewrite_blocks by (simp add: build_norm)

lemma parse_add:
  assumes "b_ok b"
  shows "parse (build (fst (parse c)) (snd (parse c) @ [b])) =
    (h_norm (fst (parse c)), map b_norm (snd (parse c)) @ [b_norm b])"
  using assms parse_ok [of c] parse_build [of "fst (parse c)" "snd (parse c) @ [b]"] by auto

lemma parse_remove:
  "parse (build (fst (parse c)) (filter (\<lambda>b. \<not> keyed k b) (snd (parse c)))) =
    (h_norm (fst (parse c)), map b_norm (filter (\<lambda>b. \<not> keyed k b) (snd (parse c))))"
  using parse_ok [of c]
    parse_build [of "fst (parse c)" "filter (\<lambda>b. \<not> keyed k b) (snd (parse c))"]
  by (auto simp: list_all_iff)

lemma removed_gone:
  assumes "key_ok k"
    and "b \<in> set (snd (parse (build (fst (parse c))
      (filter (\<lambda>b. \<not> keyed k b) (snd (parse c))))))"
  shows "\<not> keyed k b"
  using assms unfolding parse_remove by (auto simp: keyed_norm)

lemma remove_after_add:
  assumes "b_ok b" and "key_ok k" and "keyed k b"
    and "list_all (\<lambda>b. \<not> keyed k b) (snd (parse c))"
  defines "c' \<equiv> build (fst (parse c)) (snd (parse c) @ [b])"
  shows "build (fst (parse c')) (filter (\<lambda>b. \<not> keyed k b) (snd (parse c'))) =
    build (fst (parse c)) (snd (parse c))"
proof -
  have "filter (\<lambda>b. \<not> keyed k b) (map b_norm (snd (parse c)) @ [b_norm b]) =
      map b_norm (snd (parse c))"
    using assms(2-4) by (auto simp: filter_map list_all_iff keyed_norm intro!: filter_True)
  then show ?thesis
    unfolding c'_def parse_add [OF assms(1)] by (simp add: build_norm)
qed

end

definition wg_key_ok :: "string \<Rightarrow> bool" where
  "wg_key_ok k \<longleftrightarrow> k \<noteq> [] \<and> last k \<noteq> nl"

lemma rebuild_conf_norm: "rebuild_conf (hdr_norm h) (map hdr_norm bs) = rebuild_conf h bs"
  by (simp add: rebuild_conf_def hdr_norm_def rstrip_nl_def rstrip_by_append_all comp_def)

interpretation conf: block_codec split_conf rebuild_conf hdr_ok blk_ok hdr_norm hdr_norm
  has_key wg_key_ok
  by unfold_locales
    (simp_all add: split_conf_ok split_rebuild rebuild_conf_norm has_key_norm wg_key_ok_def)

section \<open>Reading a configuration\<close>

definition dot :: "char \<Rightarrow> bool" where
  "dot c \<longleftrightarrow> c \<noteq> nl"

definition line_rx :: "string \<Rightarrow> rx" where
  \<comment> \<open>\<open>^\s*KEY\s*=\s*(.+?)\s*$\<close> with \<open>re.MULTILINE\<close>\<close>
  "line_rx key = [Bol, Star py_isspace 0 None] @ lit key @
     [Star py_isspace 0 None, Cls ((=) (CHR ''='')), Star py_isspace 0 None,
      LazyCap dot, Star py_isspace 0 None, Eol]"

definition address_line :: rx where "address_line = line_rx ''Address''"

definition endpoint_line :: rx where "endpoint_line = line_rx ''Endpoint''"

definition allowed_ips_line :: rx where "allowed_ips_line = line_rx ''AllowedIPs''"

record conf_info =
  ci_mode :: string
  ci_address :: "string option"
  ci_endpoint :: "string option"
  ci_allowed_ips :: "string list"

definition re_search_group :: "rx \<Rightarrow> string \<Rightarrow> string option" where
  \<comment> \<open>\<open>m.group(1)\<close> of the first match, \<open>None\<close> without a match\<close>
  "re_search_group r s = (case re_search r s of None \<Rightarrow> None | Some g \<Rightarrow> g)"

definition ips_of_match :: "string option \<Rightarrow> string list" where
  "ips_of_match g = (case g of None \<Rightarrow> []
     | Some v \<Rightarrow> filter (\<lambda>p. p \<noteq> []) (map py_strip (py_split (CHR '','') v)))"

fun conf_peers :: "string list \<Rightarrow> string option \<Rightarrow> string list \<Rightarrow> string option \<times> string list" where
  "conf_peers [] endpoint allowed = (endpoint, allowed)"
| "conf_peers (block # blocks) endpoint allowed =
     conf_peers blocks
       (case (re_search_group endpoint_line block, endpoint) of
          (Some e, None) \<Rightarrow> Some e | _ \<Rightarrow> endpoint)
       (allowed @ concat (map ips_of_match (re_finditer allowed_ips_line block)))"

definition parse_conf_info :: "string \<Rightarrow> conf_info" where
  "parse_conf_info content =
     (let (header, peer_blocks) = split_conf content;
          (endpoint, allowed) = conf_peers peer_blocks None []
      in \<lparr>ci_mode = (case endpoint of Some e \<Rightarrow> if e \<noteq> [] then ''client'' else ''server''
                      | None \<Rightarrow> ''server''),
          ci_address = re_search_group address_line header,
          ci_endpoint = endpoint,
          ci_allowed_ips = allowed\<rparr>)"

section \<open>Reading back what was written line by line\<close>

text \<open>
  The files the helper writes consist of lines \<open>Key = value\<close>.  On such a text the line
  patterns find exactly the values of the lines with their key.
\<close>

definition lines_text :: "string list \<Rightarrow> string" where
  "lines_text ls = concat (map (\<lambda>l. l @ [nl]) ls)"

definition trimmed :: "string \<Rightarrow> bool" where
  "trimmed v \<longleftrightarrow> v \<noteq> [] \<and> \<not> py_isspace (hd v) \<and> \<not> py_isspace (last v) \<and> nl \<notin> set v"

definition line_val :: "string \<Rightarrow> string \<Rightarrow> string option" where
  "line_val key l = (if prefix (key @ '' = '') l then Some (drop (length key + 3) l) else None)"

definition plain_line :: "string \<Rightarrow> string \<Rightarrow> bool" where
  "plain_line key l \<longleftrightarrow> l \<noteq> [] \<and> \<not> py_isspace (hd l) \<and> nl \<notin> set l \<and>
     (prefix key l \<longrightarrow> prefix (key @ '' = '') l \<and> trimmed (drop (length key + 3) l))"

definition plain_key :: "string \<Rightarrow> bool" where
  "plain_key key \<longleftrightarrow> key \<noteq> [] \<and> list_all is_ascii_alnum key"

lemma alnum_not_space: "is_ascii_alnum c \<Longrightarrow> \<not> py_isspace c"
  by (auto simp: is_ascii_alnum_def is_ascii_digit_def is_lower_az_def is_upper_az_def
      py_isspace_def)

definition ws_eol :: rx where
  "ws_eol = [Star py_isspace 0 None, Eol]"

lemma tail_miss:
  assumes "w \<noteq> []" and "nl \<notin> set w" and "\<not> py_isspace (last w)"
  shows "rmatch ws_eol b (w @ a) g = None"
proof -
  have "\<not> (drop n (w @ a) = [] \<or> hd (drop n (w @ a)) = nl)"
    if n: "n \<le> run_length py_isspace None (w @ a)" for n
  proof -
    have "n < length w"
    proof (rule ccontr)
      assume "\<not> n < length w"
      then have "take n (w @ a) = w @ take (n - length w) a" by simp
      moreover have "last w \<in> set w" using assms(1) by simp
      ultimately have "last w \<in> set (take n (w @ a))" by (metis Un_iff set_append)
      from take_run_length [OF this n] assms(3) show False by simp
    qed
    then have "drop n w \<noteq> []" "hd (drop n w) \<in> set w"
      by (auto simp: hd_drop_conv_nth)
    with assms(2) \<open>n < length w\<close> show ?thesis by (auto simp: hd_append)
  qed
  then show ?thesis
    by (auto simp: ws_eol_def first_some_None_iff less_Suc_eq_le
        simp del: upt_Suc drop_append drop_eq_Nil)
qed

lemma tail_hit:
  assumes "stops py_isspace rest"
  shows "rmatch ws_eol b (nl # rest) g =
    Some (if rest = [] then (nl # b, [], g) else (b, nl # rest, g))"
proof (cases "rest = []")
  case True
  then show ?thesis unfolding ws_eol_def by (subst star_one) (auto simp: stops_def)
next
  case False
  have "run_length py_isspace None (nl # rest) = 1"
    using run_length_all [of "[nl]" py_isspace rest] run_length_stop [OF assms] by simp
  moreover have "hd rest \<noteq> nl" using False assms by (auto simp: stops_def)
  ultimately show ?thesis using False by (simp add: ws_eol_def upt_rec)
qed

lemma run_length_dot: "nl \<notin> set v \<Longrightarrow> run_length dot None (v @ nl # rest) = length v"
proof -
  assume "nl \<notin> set v"
  then have "\<forall>c\<in>set v. dot c" by (auto simp: dot_def)
  moreover have "stops dot (nl # rest)" by (simp add: stops_def dot_def)
  ultimately show ?thesis by (simp add: run_length_all run_length_stop)
qed

text \<open>The part of a match from the value on, and where it leaves the position.\<close>

definition line_end :: "string \<Rightarrow> string \<Rightarrow> string \<Rightarrow> (string \<times> string \<times> string option) option" where
  "line_end b v rest = Some (if rest = [] then (nl # rev v @ b, [], Some v)
                             else (rev v @ b, nl # rest, Some v))"

lemma lazy_value:
  assumes "trimmed v" and "stops py_isspace rest"
  shows "rmatch (LazyCap dot # ws_eol) b (v @ nl # rest) g = line_end b v rest"
proof -
  let ?f = "\<lambda>n. rmatch ws_eol (rev (take n (v @ nl # rest)) @ b)
      (drop n (v @ nl # rest)) (Some (take n (v @ nl # rest)))"
  have nlv: "nl \<notin> set v" and last: "v \<noteq> []" "\<not> py_isspace (last v)"
    using assms(1) by (auto simp: trimmed_def)
  obtain res where res: "line_end b v rest = Some res" by (simp add: line_end_def)
  have "first_some ?f [1..<Suc (length v)] = Some res"
  proof (rule first_some_least)
    show "length v \<in> set [1..<Suc (length v)]" using last(1) by (cases v) auto
    show "?f (length v) = Some res"
      unfolding res [symmetric] line_end_def using tail_hit [OF assms(2)] by simp
    show "sorted_wrt (<) [1..<Suc (length v)]" by (rule sorted_wrt_upt)
    show "?f z = None" if "z < length v" for z
    proof -
      have "drop z v \<noteq> []" "nl \<notin> set (drop z v)" "\<not> py_isspace (last (drop z v))"
        using that nlv last by (auto dest: in_set_dropD)
      from tail_miss [OF this] that show ?thesis by simp
    qed
  qed
  then show ?thesis using nlv by (simp add: run_length_dot res del: upt_Suc)
qed

definition value_rx :: rx where
  "value_rx = Star py_isspace 0 None # LazyCap dot # ws_eol"

definition assign_rx :: rx where
  "assign_rx = Star py_isspace 0 None # Cls ((=) (CHR ''='')) # value_rx"

lemma line_rx_unfold:
  "line_rx key = Bol # Star py_isspace 0 None # lit key @ assign_rx"
  by (simp add: line_rx_def assign_rx_def value_rx_def ws_eol_def)

lemma sp_classes: "py_isspace (CHR '' '')" "\<not> py_isspace (CHR ''='')"
  by (simp_all add: py_isspace_def code_def)

lemma assign_hit:
  assumes "trimmed v" and "stops py_isspace rest"
  shows "rmatch assign_rx b ('' = '' @ v @ nl # rest) g = line_end (rev '' = '' @ b) v rest"
proof -
  obtain res where res: "line_end (rev '' = '' @ b) v rest = Some res" by (simp add: line_end_def)
  have 1: "rmatch (LazyCap dot # ws_eol) (CHR '' '' # CHR ''='' # CHR '' '' # b) (v @ nl # rest) g
      = Some res"
    using lazy_value [OF assms] res by simp
  have "stops py_isspace (v @ nl # rest)" using assms(1) by (simp add: trimmed_def stops_def)
  from star_one [OF sp_classes(1) this 1]
  have "rmatch value_rx (CHR ''='' # CHR '' '' # b) (CHR '' '' # v @ nl # rest) g = Some res"
    by (simp only: value_rx_def)
  then have 2: "rmatch (Cls ((=) (CHR ''='')) # value_rx) (CHR '' '' # b)
      (CHR ''='' # CHR '' '' # v @ nl # rest) g = Some res"
    by simp
  have "stops py_isspace (CHR ''='' # CHR '' '' # v @ nl # rest)"
    by (simp add: stops_def sp_classes)
  from star_one [OF sp_classes(1) this 2] res show ?thesis by (simp add: assign_rx_def)
qed

lemma line_rx_hit:
  assumes b: "stops dot b" and key: "plain_key key" and v: "trimmed v"
    and rest: "stops py_isspace rest"
  shows "rmatch (line_rx key) b (key @ '' = '' @ v @ nl # rest) None =
    line_end (rev (key @ '' = '') @ b) v rest"
proof -
  let ?a = "key @ '' = '' @ v @ nl # rest"
  have "stops py_isspace ?a"
    using key by (cases key) (auto simp: plain_key_def alnum_not_space stops_def)
  moreover have "b = [] \<or> hd b = nl" using b by (auto simp: stops_def dot_def)
  ultimately have "rmatch (line_rx key) b ?a None = rmatch (lit key @ assign_rx) b ?a None"
    unfolding line_rx_unfold by (simp add: star_none del: rmatch.simps(2) add: rmatch.simps(2) [of Bol])
  also have "\<dots> = rmatch assign_rx (rev key @ b) ('' = '' @ v @ nl # rest) None"
    by (simp add: rmatch_lit)
  also have "\<dots> = line_end (rev (key @ '' = '') @ b) v rest"
    using assign_hit [OF v rest, of "rev key @ b"] by simp
  finally show ?thesis .
qed

lemma line_rx_miss_mid: "\<not> stops dot b \<Longrightarrow> rmatch (line_rx key) b a None = None"
  by (auto simp: line_rx_unfold stops_def dot_def simp del: rmatch.simps(2)
      simp add: rmatch.simps(2) [of Bol])

lemma line_rx_miss_start:
  assumes "stops py_isspace a" and "\<not> prefix key a"
  shows "rmatch (line_rx key) b a None = None"
  using assms
  by (simp add: line_rx_unfold rmatch_lit star_none del: rmatch.simps(2)
      add: rmatch.simps(2) [of Bol])

text \<open>The scan over a whole line, by the two kinds of lines.\<close>

lemma tokens_mid:
  assumes "\<not> stops dot b" and "nl \<notin> set w"
  shows "re_tokens (line_rx key) b (w @ a) = map Plain w @ re_tokens (line_rx key) (rev w @ b) a"
  using assms
proof (induction w arbitrary: b)
  case Nil
  then show ?case by simp
next
  case (Cons c w)
  have "\<not> stops dot (c # b)" using Cons.prems by (auto simp: stops_def dot_def)
  with Cons show ?case by (simp add: line_rx_miss_mid)
qed

lemma hits_append: "hits (xs @ ys) = hits xs @ hits ys"
  by (induction xs rule: hits.induct) auto

lemma hits_plain [simp]: "hits (map Plain w) = []"
  by (induction w) auto

lemma tokens_nl:
  assumes "\<not> stops dot b"
  shows "re_tokens (line_rx key) b (nl # a) = Plain nl # re_tokens (line_rx key) (nl # b) a"
  using line_rx_miss_mid [OF assms] by simp

lemma not_stops_rev: "w \<noteq> [] \<Longrightarrow> nl \<notin> set w \<Longrightarrow> \<not> stops dot (rev w @ b)"
  by (auto simp: stops_def dot_def hd_rev hd_append dest: last_in_set)

lemma prefix_line: "nl \<notin> set key \<Longrightarrow> prefix key (l @ nl # a) \<longleftrightarrow> prefix key l"
  by (auto simp: prefix_append prefix_Cons)

lemma plain_key_no_nl: "plain_key key \<Longrightarrow> nl \<notin> set key"
  by (auto simp: plain_key_def list_all_iff dest!: alnum_not_space)

lemma tokens_other_line:
  assumes "plain_line key l" and "\<not> prefix key l" and "plain_key key"
  shows "hits (re_tokens (line_rx key) b (l @ nl # a)) = hits (re_tokens (line_rx key) (nl # rev l @ b) a)"
proof -
  obtain c w where l: "l = c # w" using assms(1) by (cases l) (auto simp: plain_line_def)
  from assms(1) l have c: "\<not> py_isspace c" "c \<noteq> nl" "nl \<notin> set w"
    by (auto simp: plain_line_def)
  have "rmatch (line_rx key) b (c # w @ nl # a) None = None"
    using assms c l prefix_line [OF plain_key_no_nl, of key l a]
    by (intro line_rx_miss_start) (auto simp: stops_def)
  then have "re_tokens (line_rx key) b (l @ nl # a) =
      Plain c # re_tokens (line_rx key) (c # b) (w @ nl # a)"
    using l by simp
  also have "\<dots> = Plain c # map Plain w @ re_tokens (line_rx key) (rev w @ c # b) (nl # a)"
    using tokens_mid [of "c # b" w] c by (simp add: stops_def dot_def)
  also have "\<dots> = Plain c # map Plain w @ Plain nl # re_tokens (line_rx key) (nl # rev w @ c # b) a"
    using not_stops_rev [of l b] l c tokens_nl [of "rev w @ c # b"] by simp
  finally show ?thesis using l by (simp add: hits_append)
qed

lemma hits_of_hit:
  assumes "rmatch (line_rx key) b (c # a) None = Some (b', a', g)" and "length a' \<le> length a"
  shows "hits (re_tokens (line_rx key) b (c # a)) = g # hits (re_tokens (line_rx key) b' a')"
  using re_tokens_hit [OF assms] by simp

lemma tokens_key_line:
  assumes b: "stops dot b" and key: "plain_key key" and v: "trimmed v"
    and rest: "stops py_isspace rest"
  defines "l \<equiv> key @ '' = '' @ v"
  shows "hits (re_tokens (line_rx key) b (l @ nl # rest)) =
    Some v # hits (re_tokens (line_rx key) (nl # rev l @ b) rest)"
proof -
  obtain c k where ck: "key = c # k" using key by (cases key) (auto simp: plain_key_def)
  have hit: "rmatch (line_rx key) b (c # k @ '' = '' @ v @ nl # rest) None =
      line_end (rev (key @ '' = '') @ b) v rest"
    using line_rx_hit [OF b key v rest] ck by simp
  have l: "l @ nl # rest = c # k @ '' = '' @ v @ nl # rest" by (simp add: l_def ck)
  have nlv: "nl \<notin> set v" "v \<noteq> []" using v by (auto simp: trimmed_def)
  show ?thesis
  proof (cases "rest = []")
    case True
    with hit have "rmatch (line_rx key) b (c # k @ '' = '' @ v @ nl # rest) None =
        Some (nl # rev v @ rev (key @ '' = '') @ b, [], Some v)"
      by (simp add: line_end_def)
    from hits_of_hit [OF this] True l show ?thesis by simp
  next
    case False
    with hit have "rmatch (line_rx key) b (c # k @ '' = '' @ v @ nl # rest) None =
        Some (rev v @ rev (key @ '' = '') @ b, nl # rest, Some v)"
      by (simp add: line_end_def)
    from hits_of_hit [OF this]
    have "hits (re_tokens (line_rx key) b (l @ nl # rest)) =
        Some v # hits (re_tokens (line_rx key) (rev v @ rev (key @ '' = '') @ b) (nl # rest))"
      using l by simp
    also have "\<dots> = Some v # hits (re_tokens (line_rx key) (nl # rev l @ b) rest)"
      using tokens_nl [OF not_stops_rev [OF nlv(2,1)]] by (simp add: l_def)
    finally show ?thesis .
  qed
qed

lemma plain_line_stops: "plain_line key l \<Longrightarrow> stops py_isspace (l @ a)"
  by (auto simp: plain_line_def stops_def)

lemma finditer_lines_aux:
  assumes "stops dot b" and "plain_key key" and "list_all (plain_line key) ls"
  shows "hits (re_tokens (line_rx key) b (lines_text ls)) =
    map Some (List.map_filter (line_val key) ls)"
  using assms(1,3)
proof (induction ls arbitrary: b)
  case Nil
  then show ?case by (simp add: lines_text_def List.map_filter_def)
next
  case (Cons l ls)
  have lt: "lines_text (l # ls) = l @ nl # lines_text ls" by (simp add: lines_text_def)
  have b': "stops dot (nl # rev l @ b)" by (simp add: stops_def dot_def)
  from Cons.prems have pl: "plain_line key l" "list_all (plain_line key) ls" by auto
  note IH = Cons.IH [OF b' pl(2)]
  show ?case
  proof (cases "prefix key l")
    case True
    with pl(1) have p: "prefix (key @ '' = '') l" "trimmed (drop (length key + 3) l)"
      by (auto simp: plain_line_def)
    then obtain v where l: "l = key @ '' = '' @ v" by (auto simp: prefix_def)
    then have v: "trimmed v" "line_val key l = Some v"
      using p by (simp_all add: line_val_def)
    have "stops py_isspace (lines_text ls)"
      using pl(2) plain_line_stops
      by (cases ls) (auto simp: lines_text_def stops_def plain_line_def)
    from tokens_key_line [OF Cons.prems(1) assms(2) v(1) this] IH v(2) show ?thesis
      unfolding lt by (simp add: l List.map_filter_simps)
  next
    case False
    then have "line_val key l = None"
      by (auto simp: line_val_def dest: append_prefixD)
    with tokens_other_line [OF pl(1) False assms(2)] IH show ?thesis
      unfolding lt by (simp add: List.map_filter_simps)
  qed
qed

lemma finditer_lines:
  "plain_key key \<Longrightarrow> list_all (plain_line key) ls \<Longrightarrow>
   re_finditer (line_rx key) (lines_text ls) = map Some (List.map_filter (line_val key) ls)"
  using finditer_lines_aux [of "[]"] by (simp add: re_finditer_def stops_def)

lemma search_lines:
  "plain_key key \<Longrightarrow> list_all (plain_line key) ls \<Longrightarrow>
   re_search_group (line_rx key) (lines_text ls) =
     (case List.map_filter (line_val key) ls of [] \<Rightarrow> None | v # _ \<Rightarrow> Some v)"
  by (simp add: re_search_group_def re_search_def finditer_lines split: list.splits)

end
