(* ===== verification/Host.thy ===== *)
theory Host
  imports Json WgConf
begin

text \<open>
  What the helper daemon reaches outside its own process: the files, the directories and
  the programs it starts.

  The files are a map from paths (directory, name) to data and permission bits.  Every
  operation that changes it takes one tick of \<open>h_tick\<close> and asks \<open>e_fault\<close> whether it
  fails at that tick; a failing write may have written any number of characters.  An oracle
  that fails from some tick on leaves exactly what a crash at that moment would leave, so a
  statement for every oracle covers crashes too.  The programs (\<open>wg\<close>, \<open>systemctl\<close>) are a
  parameter \<open>e_run\<close> over a state \<open>h_ext\<close> of the type \<open>'x\<close>; what was started, and the files as
  they were at that moment, is recorded in \<open>h_ran\<close>.
\<close>

section \<open>State\<close>

datatype exn =
    HelperError string   \<comment> \<open>the daemon's own exception\<close>
  | PyError string       \<comment> \<open>any other subclass of \<open>Exception\<close>\<close>

type_synonym path = "string \<times> string"

record pfile =
  fdata :: string
  fmode :: nat

type_synonym fs = "(path \<times> pfile) list"

record 'x host =
  h_fs :: fs
  h_dirs :: "(string \<times> nat) list"
  h_tick :: nat
  h_ran :: "(string list \<times> string option \<times> fs) list"
  h_ext :: 'x

record 'x env =
  e_run :: "string list \<Rightarrow> string option \<Rightarrow> fs \<Rightarrow> 'x \<Rightarrow> (int \<times> string \<times> string) option \<times> 'x"
  e_if_up :: "string \<Rightarrow> 'x \<Rightarrow> bool"
  e_fault :: "nat \<Rightarrow> nat option"
  e_pid :: nat
  e_reqid :: nat

type_synonym ('x, 'a) hop = "('x host, exn, 'a) op"

section \<open>File operations\<close>

definition file_at :: "path \<Rightarrow> 'x host \<Rightarrow> pfile option" where
  "file_at p h = map_of (h_fs h) p"

definition exists_file :: "path \<Rightarrow> ('x, bool) hop" where
  "exists_file p h = (Inr (file_at p h \<noteq> None), h)"

definition has_dir :: "string \<Rightarrow> 'x host \<Rightarrow> bool" where
  "has_dir d h \<longleftrightarrow> map_of (h_dirs h) d \<noteq> None"

definition tick :: "'x host \<Rightarrow> 'x host" where
  "tick h = h\<lparr>h_tick := Suc (h_tick h)\<rparr>"

definition set_file :: "path \<Rightarrow> pfile \<Rightarrow> 'x host \<Rightarrow> 'x host" where
  "set_file p f h = h\<lparr>h_fs := AList.update p f (h_fs h)\<rparr>"

definition del_file :: "path \<Rightarrow> 'x host \<Rightarrow> 'x host" where
  "del_file p h = h\<lparr>h_fs := AList.delete p (h_fs h)\<rparr>"

definition io_error :: exn where
  "io_error = PyError ''OSError''"

definition guarded :: "'x env \<Rightarrow> ('x host \<Rightarrow> (exn + 'a) \<times> 'x host) \<Rightarrow> ('x, 'a) hop" where
  \<comment> \<open>one tick; nothing happens when the oracle makes the operation fail\<close>
  "guarded env m h = (case e_fault env (h_tick h) of
     Some _ \<Rightarrow> (Inl io_error, tick h) | None \<Rightarrow> m (tick h))"

definition os_mkdir :: "'x env \<Rightarrow> string \<Rightarrow> nat \<Rightarrow> ('x, unit) hop" where
  \<comment> \<open>\<open>Path.mkdir(mode, exist_ok=True)\<close>\<close>
  "os_mkdir env d mode = guarded env (\<lambda>h.
     (Inr (), if has_dir d h then h else h\<lparr>h_dirs := AList.update d mode (h_dirs h)\<rparr>))"

definition os_chmod_dir :: "'x env \<Rightarrow> string \<Rightarrow> nat \<Rightarrow> ('x, unit) hop" where
  "os_chmod_dir env d mode = guarded env (\<lambda>h.
     if has_dir d h then (Inr (), h\<lparr>h_dirs := AList.update d mode (h_dirs h)\<rparr>)
     else (Inl io_error, h))"

definition os_open_trunc :: "'x env \<Rightarrow> path \<Rightarrow> nat \<Rightarrow> ('x, unit) hop" where
  \<comment> \<open>\<open>O_WRONLY | O_CREAT | O_TRUNC\<close>: the mode is only given to a file that is created\<close>
  "os_open_trunc env p mode = guarded env (\<lambda>h.
     if \<not> has_dir (fst p) h then (Inl io_error, h)
     else (Inr (), set_file p (case file_at p h of
             None \<Rightarrow> \<lparr>fdata = [], fmode = mode\<rparr> | Some f \<Rightarrow> f\<lparr>fdata := []\<rparr>) h))"

definition os_open_excl :: "'x env \<Rightarrow> path \<Rightarrow> nat \<Rightarrow> ('x, unit) hop" where
  \<comment> \<open>\<open>O_WRONLY | O_CREAT | O_EXCL\<close>\<close>
  "os_open_excl env p mode = guarded env (\<lambda>h.
     if \<not> has_dir (fst p) h \<or> file_at p h \<noteq> None then (Inl io_error, h)
     else (Inr (), set_file p \<lparr>fdata = [], fmode = mode\<rparr> h))"

definition put_data :: "path \<Rightarrow> string \<Rightarrow> 'x host \<Rightarrow> 'x host" where
  "put_data p s h = (case file_at p h of
     None \<Rightarrow> h | Some f \<Rightarrow> set_file p (f\<lparr>fdata := s\<rparr>) h)"

definition os_write :: "'x env \<Rightarrow> path \<Rightarrow> string \<Rightarrow> ('x, unit) hop" where
  \<comment> \<open>\<open>with os.fdopen(fd, "w") as f: f.write(s)\<close> on the file just opened\<close>
  "os_write env p s h = (case e_fault env (h_tick h) of
     Some k \<Rightarrow> (Inl io_error, tick (put_data p (take k s) h))
   | None \<Rightarrow> (Inr (), tick (put_data p s h)))"

definition os_replace :: "'x env \<Rightarrow> path \<Rightarrow> path \<Rightarrow> ('x, unit) hop" where
  "os_replace env p q = guarded env (\<lambda>h. case file_at p h of
     None \<Rightarrow> (Inl io_error, h)
   | Some f \<Rightarrow> (Inr (), set_file q f (del_file p h)))"

definition os_unlink :: "'x env \<Rightarrow> path \<Rightarrow> ('x, unit) hop" where
  \<comment> \<open>\<open>unlink(missing_ok=True)\<close>\<close>
  "os_unlink env p = guarded env (\<lambda>h. (Inr (), del_file p h))"

fun universal_nl :: "string \<Rightarrow> string" where
  \<comment> \<open>what reading in text mode does to line ends\<close>
  "universal_nl [] = []"
| "universal_nl [c] = (if code c = 13 then [nl] else [c])"
| "universal_nl (c # d # s) =
     (if code c = 13 then (if d = nl then nl # universal_nl s else nl # universal_nl (d # s))
      else c # universal_nl (d # s))"

section \<open>Programs\<close>

definition run_prog :: "'x env \<Rightarrow> string list \<Rightarrow> string option \<Rightarrow> ('x, int \<times> string \<times> string) hop" where
  \<comment> \<open>\<open>_run\<close> of helper.py: the exit status, the output and the error output\<close>
  "run_prog env argv inp h =
     (case e_run env argv inp (h_fs h) (h_ext h) of (r, x) \<Rightarrow>
        (let h' = h\<lparr>h_ext := x, h_ran := h_ran h @ [(argv, inp, h_fs h)]\<rparr>
         in case r of None \<Rightarrow> (Inl io_error, h') | Some res \<Rightarrow> (Inr res, h')))"

section \<open>Facts on the file operations\<close>

lemma file_at_tick [simp]: "file_at p (tick h) = file_at p h"
  by (simp add: file_at_def tick_def)

lemma file_at_set [simp]: "file_at p (set_file q f h) = (if p = q then Some f else file_at p h)"
  by (simp add: file_at_def set_file_def)

lemma file_at_del [simp]: "file_at p (del_file q h) = (if p = q then None else file_at p h)"
  by (auto simp: file_at_def del_file_def)

lemma file_at_put [simp]: "file_at p (put_data q s h) =
    (if p = q then map_option (fdata_update (\<lambda>_. s)) (file_at p h) else file_at p h)"
  by (auto simp: put_data_def split: option.splits)

lemma file_at_dirs [simp]: "file_at p (h_dirs_update f h) = file_at p h"
  by (simp add: file_at_def)

lemma host_parts [simp]:
  "h_dirs (tick h) = h_dirs h" "h_dirs (set_file p f h) = h_dirs h"
  "h_dirs (del_file p h) = h_dirs h" "h_dirs (put_data p s h) = h_dirs h"
  "h_ran (tick h) = h_ran h" "h_ran (set_file p f h) = h_ran h"
  "h_ran (del_file p h) = h_ran h" "h_ran (put_data p s h) = h_ran h"
  "h_ext (tick h) = h_ext h" "h_ext (set_file p f h) = h_ext h"
  "h_ext (del_file p h) = h_ext h" "h_ext (put_data p s h) = h_ext h"
  "h_fs (tick h) = h_fs h" "h_tick (tick h) = Suc (h_tick h)"
  "h_tick (set_file p f h) = h_tick h" "h_tick (del_file p h) = h_tick h"
  "h_tick (put_data p s h) = h_tick h"
  by (simp_all add: tick_def set_file_def del_file_def put_data_def split: option.splits)

lemma has_dir_simps [simp]:
  "has_dir d (tick h) = has_dir d h" "has_dir d (set_file p f h) = has_dir d h"
  "has_dir d (del_file p h) = has_dir d h" "has_dir d (put_data p s h) = has_dir d h"
  by (simp_all add: has_dir_def)

lemmas os_defs = guarded_def os_mkdir_def os_chmod_dir_def os_open_trunc_def os_open_excl_def
  os_write_def os_replace_def os_unlink_def exists_file_def

section \<open>What an operation touches\<close>

text \<open>
  \<open>touches P A h h'\<close>: between the two states only files at paths in \<open>P\<close> have changed, and
  only programs with arguments in \<open>A\<close> were started.
\<close>

definition touches :: "(path \<Rightarrow> bool) \<Rightarrow> (string list \<Rightarrow> bool) \<Rightarrow> 'x host \<Rightarrow> 'x host \<Rightarrow> bool" where
  "touches P A h h' \<longleftrightarrow> (\<forall>p. \<not> P p \<longrightarrow> file_at p h' = file_at p h) \<and>
     (\<exists>l. h_ran h' = h_ran h @ l \<and> (\<forall>r\<in>set l. A (fst r)))"

interpretation touch: frame_rel "touches P A" for P A
proof
  fix h :: "'x host" show "touches P A h h" by (simp add: touches_def)
next
  fix h h' h'' :: "'x host"
  assume "touches P A h h'" "touches P A h' h''"
  then show "touches P A h h''"
    by (auto simp: touches_def intro: exI [of _ "_ @ _"])
qed

lemma touches_mono:
  "touches P A h h' \<Longrightarrow> (\<And>p. P p \<Longrightarrow> Q p) \<Longrightarrow> (\<And>a. A a \<Longrightarrow> B a) \<Longrightarrow> touches Q B h h'"
  unfolding touches_def by blast

lemma keeps_mono:
  "keeps (touches P A) m \<Longrightarrow> (\<And>p. P p \<Longrightarrow> Q p) \<Longrightarrow> (\<And>a. A a \<Longrightarrow> B a) \<Longrightarrow> keeps (touches Q B) m"
  unfolding keeps_def using touches_mono by blast

lemma touch_fs_op:
  "keeps (touches P A) (exists_file p)"
  "keeps (touches P A) (os_mkdir env d mode)"
  "keeps (touches P A) (os_chmod_dir env d mode)"
  "P p \<Longrightarrow> keeps (touches P A) (os_open_trunc env p mode)"
  "P p \<Longrightarrow> keeps (touches P A) (os_open_excl env p mode)"
  "P p \<Longrightarrow> keeps (touches P A) (os_write env p s)"
  "P p \<Longrightarrow> P q \<Longrightarrow> keeps (touches P A) (os_replace env p q)"
  "P p \<Longrightarrow> keeps (touches P A) (os_unlink env p)"
  by (auto simp: keeps_def touches_def os_defs split: option.splits)

lemma touch_run: "A argv \<Longrightarrow> keeps (touches P A) (run_prog env argv inp)"
  by (auto simp: keeps_def touches_def run_prog_def file_at_def Let_def
      split: prod.splits option.splits)

lemmas touch_rules = touch_fs_op touch_run touch.keeps_basic touch.keeps_bind
  touch.keeps_catch touch.keeps_finally touch.keeps_if

end
