(* ===== verification/HelperValid.thy ===== *)
theory HelperValid
  imports Host
begin

text \<open>
  The validation of requests in deploy/pi-wg-helperd/helper.py: the two patterns and the
  functions \<open>_validate_tunnel_name\<close>, \<open>_validate_wg_key\<close>, \<open>_validate_allowed_ips\<close>.
  A validator takes the JSON value of a request's field and returns the text the daemon goes
  on with, or the error.  The theorems say exactly which texts pass.
\<close>

section \<open>Patterns\<close>

definition name_char :: "char \<Rightarrow> bool" where
  "name_char c \<longleftrightarrow> is_ascii_alnum c \<or> c = CHR ''_'' \<or> c = CHR ''-''"

definition b64_char :: "char \<Rightarrow> bool" where
  "b64_char c \<longleftrightarrow> is_ascii_alnum c \<or> c = CHR ''+'' \<or> c = CHR ''/''"

definition TUNNEL_NAME_PATTERN :: rx where
  "TUNNEL_NAME_PATTERN = [Bos, Star name_char 1 (Some 15), Eos]"

definition WG_KEY_PATTERN :: rx where
  "WG_KEY_PATTERN = [Bos, Star b64_char 42 (Some 42),
     Cls (\<lambda>c. c \<in> set ''AEIMQUYcgkosw048''), Cls ((=) (CHR ''='')), Eos]"

section \<open>Validators\<close>

definition validate_tunnel_name :: "json \<Rightarrow> exn + string" where
  "validate_tunnel_name v = (case v of
     JStr s \<Rightarrow> if re_match TUNNEL_NAME_PATTERN s then Inr s
               else Inl (HelperError ''invalid tunnel name'')
   | _ \<Rightarrow> Inl (HelperError ''invalid tunnel name''))"

definition validate_wg_key :: "json \<Rightarrow> string \<Rightarrow> exn + string" where
  "validate_wg_key v field = (case v of
     JStr s \<Rightarrow> if re_match WG_KEY_PATTERN s then Inr s
               else Inl (HelperError (''invalid '' @ field))
   | _ \<Rightarrow> Inl (HelperError (''invalid '' @ field)))"

definition json_interface :: "json \<Rightarrow> ipiface option" where
  \<comment> \<open>\<open>ipaddress.ip_interface\<close> of a JSON value: a boolean is an integer, and any other
      value is read through its \<open>str\<close>, which is no address\<close>
  "json_interface v = (case v of
     JStr s \<Rightarrow> ip_interface s
   | JInt i \<Rightarrow> interface_of_int i
   | JBool b \<Rightarrow> interface_of_int (if b then 1 else 0)
   | _ \<Rightarrow> None)"

definition json_network :: "json \<Rightarrow> ipnet option" where
  \<comment> \<open>\<open>ipaddress.ip_network(v, strict=False)\<close>\<close>
  "json_network v = map_option inet (json_interface v)"

fun validate_nets :: "json list \<Rightarrow> exn + string list" where
  "validate_nets [] = Inr []"
| "validate_nets (entry # es) = (case json_network entry of
     None \<Rightarrow> Inl (HelperError (''invalid allowed_ips entry: '' @ py_repr entry))
   | Some n \<Rightarrow> (case validate_nets es of Inl e \<Rightarrow> Inl e | Inr ns \<Rightarrow> Inr (str_net n # ns)))"

definition validate_allowed_ips :: "json \<Rightarrow> exn + string" where
  "validate_allowed_ips v = (case v of
     JList (e # es) \<Rightarrow> (case validate_nets (e # es) of
        Inl x \<Rightarrow> Inl x | Inr nets \<Rightarrow> Inr (py_join '', '' nets))
   | _ \<Rightarrow> Inl (HelperError ''allowed_ips must be a non-empty list''))"

section \<open>The languages of the patterns\<close>

definition name_core :: "string \<Rightarrow> bool" where
  "name_core w \<longleftrightarrow> 1 \<le> length w \<and> length w \<le> 15 \<and> list_all name_char w"

definition key_core :: "string \<Rightarrow> bool" where
  "key_core w \<longleftrightarrow> length w = 44 \<and> list_all b64_char (take 42 w) \<and>
     w ! 42 \<in> set ''AEIMQUYcgkosw048'' \<and> w ! 43 = CHR ''=''"

definition or_nl :: "(string \<Rightarrow> bool) \<Rightarrow> string \<Rightarrow> bool" where
  \<comment> \<open>the dollar sign lets one final line break through\<close>
  "or_nl P s \<longleftrightarrow> (\<exists>w. P w \<and> (s = w \<or> s = w @ [nl]))"

lemma name_char_nl [simp]: "\<not> name_char nl"
  by (auto simp: name_char_def nl_def is_ascii_alnum_def is_ascii_digit_def is_lower_az_def
      is_upper_az_def code_def)

lemma b64_char_nl [simp]: "\<not> b64_char nl"
  by (auto simp: b64_char_def nl_def is_ascii_alnum_def is_ascii_digit_def is_lower_az_def
      is_upper_az_def code_def)

lemma match_name: "re_match TUNNEL_NAME_PATTERN s \<longleftrightarrow> or_nl name_core s"
proof -
  have "re_match TUNNEL_NAME_PATTERN s \<longleftrightarrow>
      rmatch [Star name_char 1 (Some 15), Eos] [] s None \<noteq> None"
    by (simp add: re_match_def TUNNEL_NAME_PATTERN_def del: rmatch.simps
        add: rmatch.simps(2) [of Bos])
  then show ?thesis
    unfolding rmatch_star_eos [of name_char, OF name_char_nl] or_nl_def name_core_def by blast
qed

text \<open>A repetition with equal bounds either matches at that length or not at all.\<close>

lemma rmatch_star_exact:
  "rmatch (Star p k (Some k) # r) b a g =
     (if k \<le> length a \<and> list_all p (take k a) then rmatch r (rev (take k a) @ b) (drop k a) g
      else None)"
proof (cases "k \<le> length a \<and> list_all p (take k a)")
  case True
  then have "\<forall>c\<in>set (take k a). p c" by (simp add: list_all_iff)
  then have "takeWhile p a = take k a @ takeWhile p (drop k a)"
    using takeWhile_append2 [of "take k a" p "drop k a"] by simp
  then have "run_length p (Some k) a = k" using True by (simp add: run_length_def min_def)
  with True show ?thesis by (simp split: option.splits)
next
  case False
  have "run_length p (Some k) a < k"
  proof (rule ccontr)
    assume "\<not> ?thesis"
    then have k: "k \<le> run_length p (Some k) a" by simp
    then have "list_all p (take k a)" using take_run_length by (auto simp: list_all_iff)
    moreover have "k \<le> length a"
      using k run_length_le [of p "Some k" a] length_takeWhile_le [of p a] by linarith
    ultimately show False using False by simp
  qed
  then have "rev [k..<Suc (run_length p (Some k) a)] = []" by simp
  then have "rmatch (Star p k (Some k) # r) b a g = None" by (simp del: upt_Suc)
  with False show ?thesis by (simp only: if_False)
qed

lemma match_key: "re_match WG_KEY_PATTERN s \<longleftrightarrow> or_nl key_core s"
proof
  assume m: "re_match WG_KEY_PATTERN s"
  then have s: "42 \<le> length s" "list_all b64_char (take 42 s)"
    by (auto simp: re_match_def WG_KEY_PATTERN_def rmatch_star_exact simp del: rmatch.simps
        simp add: rmatch.simps(2) [of Bos] split: if_splits)
  with m obtain c r where r: "drop 42 s = c # CHR ''='' # r" "c \<in> set ''AEIMQUYcgkosw048''"
      "r = [] \<or> r = [nl]"
    by (auto simp: re_match_def WG_KEY_PATTERN_def rmatch_star_exact simp del: rmatch.simps(2)
        simp add: rmatch.simps(2) [of Bos] rmatch.simps(2) [of "Cls _"] rmatch.simps(2) [of Eos]
        split: list.splits if_splits)
  let ?w = "take 42 s @ [c, CHR ''='']"
  have "s = ?w @ r" using r(1) by (metis append_Cons append_Nil append_assoc append_take_drop_id)
  moreover have "key_core ?w" using s r(2) by (simp add: key_core_def nth_append)
  ultimately show "or_nl key_core s" using r(3) unfolding or_nl_def by auto
next
  assume "or_nl key_core s"
  then obtain w r where w: "key_core w" "s = w @ r" "r = [] \<or> r = [nl]"
    unfolding or_nl_def by auto
  then have len: "length w = 44" by (simp add: key_core_def)
  then have d: "drop 42 w = [w ! 42, w ! 43]"
    by (auto simp: list_eq_iff_nth_eq less_Suc_eq numeral_nat)
  have "drop 42 s = w ! 42 # CHR ''='' # r"
    using w len d by (simp add: key_core_def)
  then show "re_match WG_KEY_PATTERN s"
    using w len by (auto simp: re_match_def WG_KEY_PATTERN_def rmatch_star_exact key_core_def
        simp del: rmatch.simps(2) simp add: rmatch.simps(2) [of Bos] rmatch.simps(2) [of "Cls _"]
        rmatch.simps(2) [of Eos])
qed

definition valid_name :: "string \<Rightarrow> bool" where
  "valid_name s \<longleftrightarrow> or_nl name_core s"

definition valid_key :: "string \<Rightarrow> bool" where
  "valid_key s \<longleftrightarrow> or_nl key_core s"

lemma validate_tunnel_name_iff: "validate_tunnel_name v = Inr s \<longleftrightarrow> v = JStr s \<and> valid_name s"
  by (cases v) (auto simp: validate_tunnel_name_def valid_name_def match_name)

lemma validate_tunnel_name_err:
  "validate_tunnel_name v = Inl e \<Longrightarrow> e = HelperError ''invalid tunnel name''"
  by (cases v) (auto simp: validate_tunnel_name_def split: if_splits)

lemma validate_wg_key_iff: "validate_wg_key v f = Inr s \<longleftrightarrow> v = JStr s \<and> valid_key s"
  by (cases v) (auto simp: validate_wg_key_def valid_key_def match_key)

lemma validate_wg_key_err: "validate_wg_key v f = Inl e \<Longrightarrow> e = HelperError (''invalid '' @ f)"
  by (cases v) (auto simp: validate_wg_key_def split: if_splits)

lemma interface_of_int_wf:
  assumes "interface_of_int n = Some i"
  shows "wf_iface i"
proof -
  obtain v where v: "0 \<le> n" "n \<le> all_ones v"
      "i = \<lparr>iaddr = addr_of_int v n, inet = mk_net (addr_of_int v n) (max_plen v)\<rparr>"
    using assms unfolding interface_of_int_def Let_def by (metis option.discI option.inject)
  have "aver (addr_of_int v n) = v" "aint (addr_of_int v n) = n" by (simp_all add: addr_of_int_def)
  with v show ?thesis by (simp add: wf_iface_def wf_addr_def del: max_plen.simps)
qed

lemma json_interface_wf:
  assumes "json_interface v = Some i"
  shows "wf_iface i"
proof (cases v)
  case (JStr s)
  with assms show ?thesis by (auto simp: json_interface_def dest: ip_interface_wf)
next
  case (JInt n)
  with assms show ?thesis by (auto simp: json_interface_def dest: interface_of_int_wf)
next
  case (JBool b)
  with assms have "interface_of_int (if b then 1 else 0) = Some i" by (simp only: json_interface_def json.case)
  then show ?thesis by (rule interface_of_int_wf)
qed (use assms in \<open>simp_all add: json_interface_def\<close>)

lemma json_network_wf: "json_network v = Some n \<Longrightarrow> wf_net n"
  by (auto simp: json_network_def dest: json_interface_wf wf_iface_net)

lemma validate_nets_iff:
  "validate_nets es = Inr ns \<longleftrightarrow> (\<exists>nets. map json_network es = map Some nets \<and> ns = map str_net nets)"
proof (induction es arbitrary: ns)
  case Nil
  then show ?case by auto
next
  case (Cons e es)
  show ?case
  proof (cases "json_network e")
    case None
    then show ?thesis by (auto simp: Cons_eq_map_conv)
  next
    case (Some n)
    show ?thesis
    proof
      assume "validate_nets (e # es) = Inr ns"
      with Some obtain ms where "validate_nets es = Inr ms" "ns = str_net n # ms"
        by (auto split: sum.splits)
      with Cons.IH obtain nets where "map json_network es = map Some nets" "ms = map str_net nets"
        by blast
      with Some \<open>ns = _\<close> show "\<exists>nets. map json_network (e # es) = map Some nets \<and> ns = map str_net nets"
        by (intro exI [of _ "n # nets"]) simp
    next
      assume "\<exists>nets. map json_network (e # es) = map Some nets \<and> ns = map str_net nets"
      then obtain m ms where "json_network e = Some m" "map json_network es = map Some ms"
          "ns = str_net m # map str_net ms"
        by (auto simp: Cons_eq_map_conv)
      moreover from this Cons.IH have "validate_nets es = Inr (map str_net ms)" by blast
      ultimately show "validate_nets (e # es) = Inr ns" by simp
    qed
  qed
qed

lemma validate_allowed_ips_iff:
  "validate_allowed_ips v = Inr s \<longleftrightarrow>
     (\<exists>es nets. v = JList es \<and> es \<noteq> [] \<and> map json_network es = map Some nets \<and>
        s = py_join '', '' (map str_net nets))"
proof (cases v)
  case (JList es)
  show ?thesis
  proof (cases es)
    case Nil
    with JList show ?thesis by (simp add: validate_allowed_ips_def)
  next
    case (Cons e es')
    have "validate_allowed_ips v = Inr s \<longleftrightarrow> (\<exists>ns. validate_nets es = Inr ns \<and> s = py_join '', '' ns)"
      unfolding JList Cons validate_allowed_ips_def
      by (simp del: validate_nets.simps split: sum.splits) blast
    also have "\<dots> \<longleftrightarrow> (\<exists>nets. map json_network es = map Some nets \<and> s = py_join '', '' (map str_net nets))"
      unfolding validate_nets_iff by blast
    finally show ?thesis using JList Cons by simp
  qed
qed (auto simp: validate_allowed_ips_def)

definition rejects :: "exn \<Rightarrow> bool" where
  "rejects e \<longleftrightarrow> (case e of HelperError _ \<Rightarrow> True | PyError _ \<Rightarrow> False)"

lemma rejects_HelperError [simp]: "rejects (HelperError m)"
  by (simp add: rejects_def)

lemma validate_nets_err: "validate_nets es = Inl e \<Longrightarrow> rejects e"
proof (induction es)
  case Nil
  then show ?case by simp
next
  case (Cons v es)
  then show ?case by (cases "json_network v"; cases "validate_nets es") auto
qed

lemma validate_allowed_ips_err:
  assumes "validate_allowed_ips v = Inl e"
  shows "rejects e"
proof (cases "\<exists>x es. v = JList (x # es)")
  case True
  then obtain x es where v: "v = JList (x # es)" by blast
  with assms have "validate_nets (x # es) = Inl e"
    by (simp add: validate_allowed_ips_def del: validate_nets.simps split: sum.splits)
  then show ?thesis by (rule validate_nets_err)
next
  case False
  then have "validate_allowed_ips v = Inl (HelperError ''allowed_ips must be a non-empty list'')"
    by (simp add: validate_allowed_ips_def split: json.splits list.splits)
  with assms show ?thesis by auto
qed

lemmas validators_iff = validate_tunnel_name_iff validate_wg_key_iff validate_allowed_ips_iff

end
