(* ===== verification/Helper.thy ===== *)
theory Helper
  imports HelperValid "HOL-Library.List_Lexorder" "HOL-Library.Char_ord"
begin

text \<open>
  The commands of the root helper daemon, deploy/pi-wg-helperd/helper.py, and its
  connection handler.  A command takes the request (a JSON object) and the environment, and
  works on the host state; the daemon's own exception is \<open>HelperError\<close>.  The commands are
  written in the order of their Python statements, one \<open>bindm\<close> per statement.
\<close>

section \<open>Paths and files\<close>

definition wg_dir :: string where "wg_dir = ''/etc/wireguard''"

definition run_dir :: string where "run_dir = ''/run/pi-wg-helperd''"

definition conf_path :: "string \<Rightarrow> path" where
  "conf_path name = (wg_dir, name @ ''.conf'')"

definition tmp_path :: "string \<Rightarrow> path" where
  \<comment> \<open>\<open>path.with_suffix(".conf.tmp")\<close>: a valid name has no dot\<close>
  "tmp_path name = (wg_dir, name @ ''.conf.tmp'')"

definition psk_path :: "'x env \<Rightarrow> path" where
  "psk_path env = (run_dir, ''psk-'' @ dec (e_pid env) @ ''-'' @ dec (e_reqid env) @ ''.tmp'')"

definition path_str :: "path \<Rightarrow> string" where
  "path_str p = fst p @ ''/'' @ snd p"

definition unit_name :: "string \<Rightarrow> string" where
  "unit_name name = ''wg-quick@'' @ name"

definition read_conf :: "string \<Rightarrow> ('x, string) hop" where
  "read_conf name =
     bindm (exists_file (conf_path name)) (\<lambda>b.
     bindm (assertm b (HelperError ''tunnel not found'')) (\<lambda>_.
     bindm getm (\<lambda>h.
     ret (case file_at (conf_path name) h of None \<Rightarrow> [] | Some f \<Rightarrow> universal_nl (fdata f)))))"

definition write_conf :: "'x env \<Rightarrow> string \<Rightarrow> string \<Rightarrow> ('x, unit) hop" where
  "write_conf env name content =
     bindm (os_open_trunc env (tmp_path name) 384) (\<lambda>_.
     catchm
       (bindm (os_write env (tmp_path name) content) (\<lambda>_.
        os_replace env (tmp_path name) (conf_path name)))
       (\<lambda>e. bindm (os_unlink env (tmp_path name)) (\<lambda>_. raise e)))"

definition is_interface_up :: "'x env \<Rightarrow> string \<Rightarrow> ('x, bool) hop" where
  "is_interface_up env name = bindm getm (\<lambda>h. ret (e_if_up env name (h_ext h)))"

definition checked_run :: "'x env \<Rightarrow> string list \<Rightarrow> string option \<Rightarrow> string \<Rightarrow> ('x, string) hop" where
  \<comment> \<open>\<open>rc, out, err = await _run(...)\<close> followed by the test of \<open>rc\<close>; \<open>what\<close> begins the message\<close>
  "checked_run env argv inp what =
     bindm (run_prog env argv inp) (\<lambda>(rc, out, err).
     bindm (assertm (rc = 0) (HelperError (what @ '' failed: '' @ err))) (\<lambda>_.
     ret out))"

section \<open>Commands\<close>

definition cmd_genkey :: "'x env \<Rightarrow> jdict \<Rightarrow> ('x, jdict) hop" where
  "cmd_genkey env req =
     bindm (checked_run env [''wg'', ''genkey''] None ''wg genkey'') (\<lambda>priv.
     bindm (checked_run env [''wg'', ''pubkey''] (Some priv) ''wg pubkey'') (\<lambda>pub.
     ret [(''private_key'', JStr (py_strip priv)), (''public_key'', JStr (py_strip pub))]))"

definition tunnel_conf :: "string \<Rightarrow> string \<Rightarrow> int \<Rightarrow> string" where
  "tunnel_conf private_key address listen_port =
     ''[Interface]'' @ [nl] @ ''PrivateKey = '' @ private_key @ [nl] @
     ''Address = '' @ address @ [nl] @ ''ListenPort = '' @ dec_int listen_port @ [nl]"

definition port_of :: "json \<Rightarrow> exn + int" where
  \<comment> \<open>a boolean is an integer of Python, but out of the range\<close>
  "port_of v = (case v of
     JInt i \<Rightarrow> if 1024 \<le> i \<and> i \<le> 65535 then Inr i else Inl (HelperError ''invalid listen_port'')
   | _ \<Rightarrow> Inl (HelperError ''invalid listen_port''))"

definition address_field :: "jdict \<Rightarrow> json" where
  \<comment> \<open>\<open>req.get("address", "")\<close>\<close>
  "address_field req = (case map_of req ''address'' of None \<Rightarrow> JStr [] | Some v \<Rightarrow> v)"

definition cmd_create_tunnel :: "'x env \<Rightarrow> jdict \<Rightarrow> ('x, jdict) hop" where
  "cmd_create_tunnel env req =
     bindm (liftr (validate_tunnel_name (jget req ''name''))) (\<lambda>name.
     bindm (liftr (validate_wg_key (jget req ''private_key'') ''private_key'')) (\<lambda>private_key.
     bindm (liftr (case json_interface (address_field req) of
              None \<Rightarrow> Inl (HelperError ''invalid address'') | Some a \<Rightarrow> Inr a)) (\<lambda>address.
     bindm (liftr (port_of (jget req ''listen_port''))) (\<lambda>listen_port.
     bindm (exists_file (conf_path name)) (\<lambda>present.
     bindm (assertm (\<not> present) (HelperError ''tunnel already exists'')) (\<lambda>_.
     bindm (os_mkdir env wg_dir 448) (\<lambda>_.
     bindm (os_chmod_dir env wg_dir 448) (\<lambda>_.
     bindm (os_open_excl env (conf_path name) 384) (\<lambda>_.
     bindm (catchm (os_write env (conf_path name)
                      (tunnel_conf private_key (str_iface address) listen_port))
              (\<lambda>e. bindm (os_unlink env (conf_path name)) (\<lambda>_. raise e))) (\<lambda>_.
     ret []))))))))))"

definition cmd_delete_tunnel :: "'x env \<Rightarrow> jdict \<Rightarrow> ('x, jdict) hop" where
  "cmd_delete_tunnel env req =
     bindm (liftr (validate_tunnel_name (jget req ''name''))) (\<lambda>name.
     bindm (run_prog env [''systemctl'', ''disable'', ''--now'', unit_name name] None) (\<lambda>_.
     bindm (os_unlink env (conf_path name)) (\<lambda>_.
     ret [])))"

definition keepalive_ok :: "json \<Rightarrow> bool" where
  \<comment> \<open>\<open>isinstance(True, int)\<close> holds in Python\<close>
  "keepalive_ok v = (case v of JNull \<Rightarrow> True | JInt i \<Rightarrow> 0 \<le> i \<and> i \<le> 3600 | JBool _ \<Rightarrow> True
     | _ \<Rightarrow> False)"

definition optional_key :: "json \<Rightarrow> exn + string option" where
  \<comment> \<open>the check of \<open>preshared_key\<close>: null passes, anything else must be a key\<close>
  "optional_key v = (if v = JNull then Inr None
     else case validate_wg_key v ''preshared_key'' of Inl e \<Rightarrow> Inl e | Inr k \<Rightarrow> Inr (Some k))"

definition peer_block :: "string \<Rightarrow> string option \<Rightarrow> string \<Rightarrow> json \<Rightarrow> string" where
  "peer_block public_key preshared_key allowed_ips keepalive =
     ''[Peer]'' @ [nl] @ ''PublicKey = '' @ public_key @ [nl] @
     (case preshared_key of None \<Rightarrow> [] | Some k \<Rightarrow> ''PresharedKey = '' @ k @ [nl]) @
     ''AllowedIPs = '' @ allowed_ips @ [nl] @
     (if truthy keepalive then ''PersistentKeepalive = '' @ py_repr keepalive @ [nl] else [])"

definition wg_set_args :: "string \<Rightarrow> string \<Rightarrow> string \<Rightarrow> json \<Rightarrow> string list" where
  "wg_set_args tunnel public_key allowed_ips keepalive =
     [''wg'', ''set'', tunnel, ''peer'', public_key, ''allowed-ips'', allowed_ips] @
     (if truthy keepalive then [''persistent-keepalive'', py_repr keepalive] else [])"

definition live_add :: "'x env \<Rightarrow> string list \<Rightarrow> string option \<Rightarrow> ('x, unit) hop" where
  \<comment> \<open>the \<open>try ... finally\<close> of \<open>cmd_add_peer\<close>: a pre-shared key goes through a file that is
      removed afterwards\<close>
  "live_add env args preshared_key = (case preshared_key of
     None \<Rightarrow> bindm (checked_run env args None ''wg set'') (\<lambda>_. ret ())
   | Some k \<Rightarrow> finallym
       (bindm (os_open_excl env (psk_path env) 384) (\<lambda>_.
        bindm (os_write env (psk_path env) (k @ [nl])) (\<lambda>_.
        bindm (checked_run env (args @ [''preshared-key'', path_str (psk_path env)]) None ''wg set'')
          (\<lambda>_. ret ()))))
       (os_unlink env (psk_path env)))"

definition cmd_add_peer :: "'x env \<Rightarrow> jdict \<Rightarrow> ('x, jdict) hop" where
  "cmd_add_peer env req =
     bindm (liftr (validate_tunnel_name (jget req ''tunnel''))) (\<lambda>tunnel.
     bindm (liftr (validate_wg_key (jget req ''public_key'') ''public_key'')) (\<lambda>public_key.
     bindm (liftr (validate_allowed_ips (jget req ''allowed_ips''))) (\<lambda>allowed_ips.
     bindm (liftr (optional_key (jget req ''preshared_key''))) (\<lambda>preshared_key.
     bindm (assertm (keepalive_ok (jget req ''keepalive'')) (HelperError ''invalid keepalive'')) (\<lambda>_.
     bindm (read_conf tunnel) (\<lambda>content.
     bindm (assertm (\<not> list_ex (has_key public_key) (snd (split_conf content)))
              (HelperError ''peer already exists'')) (\<lambda>_.
     bindm (write_conf env tunnel (rebuild_conf (fst (split_conf content))
              (snd (split_conf content) @
               [peer_block public_key preshared_key allowed_ips (jget req ''keepalive'')]))) (\<lambda>_.
     bindm (is_interface_up env tunnel) (\<lambda>up.
     bindm (if up then live_add env
              (wg_set_args tunnel public_key allowed_ips (jget req ''keepalive'')) preshared_key
            else ret ()) (\<lambda>_.
     ret []))))))))))"

definition cmd_remove_peer :: "'x env \<Rightarrow> jdict \<Rightarrow> ('x, jdict) hop" where
  "cmd_remove_peer env req =
     bindm (liftr (validate_tunnel_name (jget req ''tunnel''))) (\<lambda>tunnel.
     bindm (liftr (validate_wg_key (jget req ''public_key'') ''public_key'')) (\<lambda>public_key.
     bindm (read_conf tunnel) (\<lambda>content.
     bindm (write_conf env tunnel (rebuild_conf (fst (split_conf content))
              (filter (\<lambda>b. \<not> has_key public_key b) (snd (split_conf content))))) (\<lambda>_.
     bindm (is_interface_up env tunnel) (\<lambda>up.
     bindm (if up then bindm (checked_run env [''wg'', ''set'', tunnel, ''peer'', public_key, ''remove'']
                        None ''wg set remove'') (\<lambda>_. ret ())
            else ret ()) (\<lambda>_.
     ret []))))))"

subsection \<open>The status of the tunnels\<close>

record live_entry =
  le_public_key :: "string option"
  le_listen_port :: "string option"
  le_peers :: "json list"

definition empty_entry :: live_entry where
  "empty_entry = \<lparr>le_public_key = None, le_listen_port = None, le_peers = []\<rparr>"

definition digits_or_zero :: "string \<Rightarrow> exn + int" where
  \<comment> \<open>\<open>int(s) if s.isdigit() else 0\<close>\<close>
  "digits_or_zero s =
     (if py_isdigit s
      then (if list_all is_ascii_digit s then Inr (int (undec s)) else Inl (PyError ''ValueError''))
      else Inr 0)"

definition peer_entry :: "string list \<Rightarrow> exn + json" where
  "peer_entry cols =
     (case digits_or_zero (cols ! 5) of Inl e \<Rightarrow> Inl e | Inr hs \<Rightarrow>
     (case digits_or_zero (cols ! 6) of Inl e \<Rightarrow> Inl e | Inr rx \<Rightarrow>
     (case digits_or_zero (cols ! 7) of Inl e \<Rightarrow> Inl e | Inr tx \<Rightarrow>
      Inr (JObj [(''public_key'', JStr (cols ! 1)),
        (''endpoint'', if cols ! 3 \<noteq> ''(none)'' then JStr (cols ! 3) else JNull),
        (''allowed_ips'', JStr (cols ! 4)),
        (''latest_handshake'', JInt hs), (''rx_bytes'', JInt rx), (''tx_bytes'', JInt tx)]))))"

definition live_line :: "(string \<times> live_entry) list \<Rightarrow> string \<Rightarrow> exn + (string \<times> live_entry) list" where
  "live_line live line =
     (let cols = py_split (CHR 0x09) line in
      if hd cols = [] then Inr live
      else
        (let entry = (case map_of live (hd cols) of None \<Rightarrow> empty_entry | Some e \<Rightarrow> e) in
         if length cols = 5
         then Inr (AList.update (hd cols)
                (entry\<lparr>le_public_key := Some (cols ! 2), le_listen_port := Some (cols ! 3)\<rparr>) live)
         else if length cols = 9
         then (case peer_entry cols of Inl e \<Rightarrow> Inl e
               | Inr p \<Rightarrow> Inr (AList.update (hd cols) (entry\<lparr>le_peers := le_peers entry @ [p]\<rparr>) live))
         else Inr (AList.update (hd cols) entry live)))"

fun live_lines :: "(string \<times> live_entry) list \<Rightarrow> string list \<Rightarrow> exn + (string \<times> live_entry) list" where
  "live_lines live [] = Inr live"
| "live_lines live (l # ls) = (case live_line live l of Inl e \<Rightarrow> Inl e | Inr live' \<Rightarrow> live_lines live' ls)"

definition stem :: "string \<Rightarrow> string" where
  \<comment> \<open>\<open>Path.stem\<close> of a name that ends in \<open>.conf\<close>\<close>
  "stem n = (if n = ''.conf'' then n else take (length n - 5) n)"

definition conf_stems :: "'x host \<Rightarrow> string list" where
  "conf_stems h = (if has_dir wg_dir h
     then sort (map stem (filter (suffix ''.conf'')
            (map snd (filter (\<lambda>p. fst p = wg_dir) (map fst (h_fs h))))))
     else [])"

definition opt_str :: "string option \<Rightarrow> json" where
  "opt_str x = (case x of None \<Rightarrow> JNull | Some s \<Rightarrow> JStr s)"

definition no_conf_info :: conf_info where
  "no_conf_info = \<lparr>ci_mode = ''server'', ci_address = None, ci_endpoint = None, ci_allowed_ips = []\<rparr>"

definition status_entry :: "string \<Rightarrow> bool \<Rightarrow> live_entry option \<Rightarrow> conf_info \<Rightarrow> json" where
  "status_entry tname active info ci =
     JObj [(''name'', JStr tname), (''active'', JBool active),
       (''listen_port'', opt_str (Option.bind info le_listen_port)),
       (''public_key'', opt_str (Option.bind info le_public_key)),
       (''peers'', JList (case info of None \<Rightarrow> [] | Some e \<Rightarrow> le_peers e)),
       (''mode'', JStr (ci_mode ci)), (''configured_address'', opt_str (ci_address ci)),
       (''configured_endpoint'', opt_str (ci_endpoint ci)),
       (''configured_allowed_ips'', JList (map JStr (ci_allowed_ips ci)))]"

fun tunnel_entries :: "'x env \<Rightarrow> (string \<times> live_entry) list \<Rightarrow> string list \<Rightarrow> ('x, json list) hop" where
  "tunnel_entries env live [] = ret []"
| "tunnel_entries env live (tname # ts) =
     bindm (run_prog env [''systemctl'', ''is-active'', unit_name tname] None) (\<lambda>(rc, out, err).
     bindm (catchm (bindm (read_conf tname) (\<lambda>c. ret (parse_conf_info c)))
              (\<lambda>e. case e of HelperError _ \<Rightarrow> ret no_conf_info | PyError _ \<Rightarrow> raise e)) (\<lambda>ci.
     bindm (tunnel_entries env live ts) (\<lambda>rest.
     ret (status_entry tname (py_strip out = ''active'') (map_of live tname) ci # rest))))"

definition optional_name :: "json \<Rightarrow> exn + string option" where
  "optional_name v = (if v = JNull then Inr None
     else case validate_tunnel_name v of Inl e \<Rightarrow> Inl e | Inr n \<Rightarrow> Inr (Some n))"

definition cmd_tunnel_status :: "'x env \<Rightarrow> jdict \<Rightarrow> ('x, jdict) hop" where
  "cmd_tunnel_status env req =
     bindm (liftr (optional_name (jget req ''name''))) (\<lambda>name.
     bindm getm (\<lambda>h.
     bindm (run_prog env [''wg'', ''show'', ''all'', ''dump''] None) (\<lambda>(rc, dump_out, err).
     bindm (liftr (if rc = 0 then live_lines [] (py_splitlines dump_out) else Inr [])) (\<lambda>live.
     bindm (tunnel_entries env live
              (case name of None \<Rightarrow> conf_stems h | Some n \<Rightarrow> filter (\<lambda>m. m = n) (conf_stems h))) (\<lambda>tunnels.
     ret [(''tunnels'', JList tunnels)])))))"

subsection \<open>Starting and stopping\<close>

definition state_args :: "string \<Rightarrow> string list" where
  "state_args action =
     (if action = ''activate'' then [''enable'', ''--now'']
      else if action = ''disconnect'' then [''stop'']
      else [''disable'', ''--now''])"

definition action_of :: "json \<Rightarrow> exn + string" where
  "action_of v = (case v of
     JStr a \<Rightarrow> if a \<in> {''activate'', ''deactivate'', ''disconnect''} then Inr a
               else Inl (HelperError ''invalid action'')
   | _ \<Rightarrow> Inl (HelperError ''invalid action''))"

definition cmd_set_tunnel_state :: "'x env \<Rightarrow> jdict \<Rightarrow> ('x, jdict) hop" where
  "cmd_set_tunnel_state env req =
     bindm (liftr (validate_tunnel_name (jget req ''name''))) (\<lambda>name.
     bindm (liftr (action_of (jget req ''action''))) (\<lambda>action.
     bindm (exists_file (conf_path name)) (\<lambda>present.
     bindm (assertm present (HelperError ''tunnel not found'')) (\<lambda>_.
     bindm (checked_run env ([''systemctl''] @ state_args action @ [unit_name name]) None ''systemctl'') (\<lambda>_.
     ret [])))))"

section \<open>The connection handler\<close>

definition helper_dispatch :: "string \<Rightarrow> ('x env \<Rightarrow> jdict \<Rightarrow> ('x, jdict) hop) option" where
  "helper_dispatch cmd =
     map_of [(''genkey'', cmd_genkey), (''create_tunnel'', cmd_create_tunnel),
       (''delete_tunnel'', cmd_delete_tunnel), (''add_peer'', cmd_add_peer),
       (''remove_peer'', cmd_remove_peer), (''tunnel_status'', cmd_tunnel_status),
       (''set_tunnel_state'', cmd_set_tunnel_state)] cmd"

record conn =
  cn_allowed_uid :: "int option"   \<comment> \<open>\<open>getpwnam\<close> of the application's user\<close>
  cn_peer_uid :: int               \<comment> \<open>\<open>SO_PEERCRED\<close> of the socket\<close>
  cn_input :: string               \<comment> \<open>what the client has sent\<close>

datatype reply = NoReply | Reply string | Escaped exn

definition readline :: "string \<Rightarrow> string" where
  "readline s = takeWhile (\<lambda>c. c \<noteq> nl) s @ (if nl \<in> set s then [nl] else [])"

definition stream_limit :: nat where
  "stream_limit = 65536"

definition ok_reply :: "jdict \<Rightarrow> string" where
  "ok_reply result = dumps (JObj [(''ok'', JBool True), (''result'', JObj result)]) @ [nl]"

definition error_reply :: "string \<Rightarrow> string" where
  "error_reply msg = dumps (JObj [(''ok'', JBool False), (''error'', JStr msg)]) @ [nl]"

definition run_command :: "'x env \<Rightarrow> ('x env \<Rightarrow> jdict \<Rightarrow> ('x, jdict) hop) \<Rightarrow> jdict \<Rightarrow> 'x host \<Rightarrow> reply \<times> 'x host" where
  "run_command env handler req h = (case handler env req h of
     (Inr result, h') \<Rightarrow> (Reply (ok_reply result), h')
   | (Inl (HelperError m), h') \<Rightarrow> (Reply (error_reply m), h')
   | (Inl (PyError m), h') \<Rightarrow> (Reply (error_reply ''internal error''), h'))"

definition handle_request :: "'x env \<Rightarrow> json option \<Rightarrow> 'x host \<Rightarrow> reply \<times> 'x host" where
  \<comment> \<open>the part of \<open>handle_client\<close> after the line was read; \<open>None\<close> is \<open>JSONDecodeError\<close>\<close>
  "handle_request env parsed h = (case parsed of
     None \<Rightarrow> (Reply (error_reply ''invalid request''), h)
   | Some (JObj req) \<Rightarrow>
       (case jget req ''cmd'' of
          JStr c \<Rightarrow> (case helper_dispatch c of
              None \<Rightarrow> (Reply (error_reply ''unknown command''), h)
            | Some handler \<Rightarrow> run_command env handler req h)
        | JList _ \<Rightarrow> (Escaped (PyError ''TypeError''), h)
        | JObj _ \<Rightarrow> (Escaped (PyError ''TypeError''), h)
        | _ \<Rightarrow> (Reply (error_reply ''unknown command''), h))
   | Some _ \<Rightarrow> (Escaped (PyError ''AttributeError''), h))"

definition handle_client :: "'x env \<Rightarrow> conn \<Rightarrow> 'x host \<Rightarrow> reply \<times> 'x host" where
  "handle_client env cn h = (case cn_allowed_uid cn of
     None \<Rightarrow> (NoReply, h)
   | Some uid \<Rightarrow>
       if cn_peer_uid cn \<noteq> uid then (NoReply, h)
       else if length (takeWhile (\<lambda>c. c \<noteq> nl) (cn_input cn)) > stream_limit
       then (Escaped (PyError ''ValueError''), h)
       else
         (let line = readline (cn_input cn) in
          if line = [] then (NoReply, h) else handle_request env (loads line) h))"

end
