(* ===== verification/HelperFrame.thy ===== *)
theory HelperFrame
  imports Helper
begin

text \<open>
  What a request to the helper daemon can touch.  The daemon runs as root; its header
  comment promises that a request is only acted on when it is well formed and safe to
  execute.  Here this is a frame condition: whatever a client sends, only the three kinds
  of files named in \<open>request_path\<close> can change, and only programs with the argument lists of
  \<open>argv_ok\<close> are started, all built from validated parts.
\<close>

section \<open>The whitelist of programs\<close>

definition ips_arg :: "string \<Rightarrow> bool" where
  "ips_arg s \<longleftrightarrow> (\<exists>nets. nets \<noteq> [] \<and> list_all wf_net nets \<and> s = py_join '', '' (map str_net nets))"

definition keepalive_args :: "string list \<Rightarrow> bool" where
  "keepalive_args a \<longleftrightarrow> a = [] \<or> a = [''persistent-keepalive'', ''True''] \<or>
     (\<exists>i. 0 < i \<and> i \<le> 3600 \<and> a = [''persistent-keepalive'', dec_int i])"

definition argv_ok :: "'x env \<Rightarrow> string list \<Rightarrow> bool" where
  "argv_ok env argv \<longleftrightarrow>
     argv \<in> {[''wg'', ''genkey''], [''wg'', ''pubkey''], [''wg'', ''show'', ''all'', ''dump'']} \<or>
     (\<exists>tname. argv = [''systemctl'', ''is-active'', unit_name tname]) \<or>
     (\<exists>tname. valid_name tname \<and> (\<exists>act. argv = [''systemctl''] @ act @ [unit_name tname] \<and>
        act \<in> {[''enable'', ''--now''], [''stop''], [''disable'', ''--now'']})) \<or>
     (\<exists>tname key ips ka psk. valid_name tname \<and> valid_key key \<and> ips_arg ips \<and> keepalive_args ka \<and>
        psk \<in> {[], [''preshared-key'', path_str (psk_path env)]} \<and>
        argv = [''wg'', ''set'', tname, ''peer'', key, ''allowed-ips'', ips] @ ka @ psk) \<or>
     (\<exists>tname key. valid_name tname \<and> valid_key key \<and>
        argv = [''wg'', ''set'', tname, ''peer'', key, ''remove''])"

definition name_paths :: "string \<Rightarrow> path \<Rightarrow> bool" where
  "name_paths n p \<longleftrightarrow> p = conf_path n \<or> p = tmp_path n"

definition request_path :: "'x env \<Rightarrow> jdict \<Rightarrow> path \<Rightarrow> bool" where
  "request_path env req p \<longleftrightarrow> p = psk_path env \<or>
     (\<exists>n. valid_name n \<and> (jget req ''name'' = JStr n \<or> jget req ''tunnel'' = JStr n) \<and>
        name_paths n p)"

section \<open>The commands stay inside\<close>

lemma argv_ok_simple:
  "argv_ok env [''wg'', ''genkey'']" "argv_ok env [''wg'', ''pubkey'']"
  "argv_ok env [''wg'', ''show'', ''all'', ''dump'']"
  "argv_ok env [''systemctl'', ''is-active'', unit_name t]"
  by (auto simp: argv_ok_def)

lemma argv_ok_systemctl:
  "valid_name n \<Longrightarrow> argv_ok env ([''systemctl''] @ state_args a @ [unit_name n])"
  "valid_name n \<Longrightarrow> argv_ok env [''systemctl'', ''disable'', ''--now'', unit_name n]"
  unfolding argv_ok_def state_args_def by auto

lemma argv_ok_remove:
  "valid_name n \<Longrightarrow> valid_key k \<Longrightarrow> argv_ok env [''wg'', ''set'', n, ''peer'', k, ''remove'']"
  unfolding argv_ok_def by blast

lemma keepalive_args_ok:
  assumes "keepalive_ok v"
  shows "keepalive_args (if truthy v then [''persistent-keepalive'', py_repr v] else [])"
proof (cases v)
  case (JInt i)
  with assms have "i = 0 \<or> 0 < i \<and> i \<le> 3600" by (auto simp: keepalive_ok_def)
  with JInt show ?thesis unfolding keepalive_args_def by fastforce
qed (use assms in \<open>auto simp: keepalive_ok_def keepalive_args_def\<close>)

lemma argv_ok_add:
  assumes "valid_name n" "valid_key k" "ips_arg ips" "keepalive_ok v"
  shows "argv_ok env (wg_set_args n k ips v)"
    and "argv_ok env (wg_set_args n k ips v @ [''preshared-key'', path_str (psk_path env)])"
proof -
  let ?ka = "if truthy v then [''persistent-keepalive'', py_repr v] else []"
  have "argv_ok env ([''wg'', ''set'', n, ''peer'', k, ''allowed-ips'', ips] @ ?ka @ psk)"
    if "psk \<in> {[], [''preshared-key'', path_str (psk_path env)]}" for psk
    using assms(1-3) keepalive_args_ok [OF assms(4)] that unfolding argv_ok_def by blast
  from this [of "[]"] this [of "[''preshared-key'', path_str (psk_path env)]"]
  show "argv_ok env (wg_set_args n k ips v)"
    and "argv_ok env (wg_set_args n k ips v @ [''preshared-key'', path_str (psk_path env)])"
    by (simp_all add: wg_set_args_def)
qed

lemma ips_arg_validated: "validate_allowed_ips v = Inr s \<Longrightarrow> ips_arg s"
proof -
  assume "validate_allowed_ips v = Inr s"
  then obtain es nets where "es \<noteq> []" "map json_network es = map Some nets"
      "s = py_join '', '' (map str_net nets)"
    unfolding validate_allowed_ips_iff by blast
  moreover from this have "nets \<noteq> []" by auto
  moreover have "list_all wf_net nets"
    using \<open>map json_network es = map Some nets\<close>
    by (induction es arbitrary: nets) (auto simp: Cons_eq_map_conv json_network_wf)
  ultimately show ?thesis unfolding ips_arg_def by blast
qed

lemma touch_checked_run: "A argv \<Longrightarrow> keeps (touches P A) (checked_run env argv inp w)"
  unfolding checked_run_def
  by (intro touch_rules) (auto split: prod.splits intro!: touch_rules)

lemma touch_read_conf: "keeps (touches P A) (read_conf n)"
  unfolding read_conf_def by (intro touch_rules)

lemma touch_write_conf:
  "P (conf_path n) \<Longrightarrow> P (tmp_path n) \<Longrightarrow> keeps (touches P A) (write_conf env n c)"
  unfolding write_conf_def by (intro touch_rules)

lemma touch_if_up: "keeps (touches P A) (is_interface_up env n)"
  unfolding is_interface_up_def by (intro touch_rules)

lemma touch_live_add:
  assumes "A args" and "A (args @ [''preshared-key'', path_str (psk_path env)])"
    and "P (psk_path env)"
  shows "keeps (touches P A) (live_add env args psk)"
  unfolding live_add_def using assms
  by (cases psk) (auto intro!: touch_rules touch_checked_run)

lemmas touch_helper = touch_checked_run touch_read_conf touch_write_conf touch_if_up
  touch_live_add touch_rules

lemmas touch_steps = touch.keeps_lift_bind touch.keeps_assert_bind touch_helper

lemma touch_genkey: "keeps (touches P (argv_ok env)) (cmd_genkey env req)"
  unfolding cmd_genkey_def by (intro touch_helper argv_ok_simple)

lemma request_pathI:
  "jget req ''name'' = JStr n \<Longrightarrow> valid_name n \<Longrightarrow> request_path env req (conf_path n)"
  "jget req ''name'' = JStr n \<Longrightarrow> valid_name n \<Longrightarrow> request_path env req (tmp_path n)"
  "jget req ''tunnel'' = JStr n \<Longrightarrow> valid_name n \<Longrightarrow> request_path env req (conf_path n)"
  "jget req ''tunnel'' = JStr n \<Longrightarrow> valid_name n \<Longrightarrow> request_path env req (tmp_path n)"
  "request_path env req (psk_path env)"
  by (auto simp: request_path_def name_paths_def)

lemma touch_create: "keeps (touches (request_path env req) A) (cmd_create_tunnel env req)"
  unfolding cmd_create_tunnel_def
  by (intro touch_steps) (auto simp: validators_iff request_pathI)

lemma touch_delete: "keeps (touches (request_path env req) (argv_ok env)) (cmd_delete_tunnel env req)"
  unfolding cmd_delete_tunnel_def
  by (intro touch_steps) (auto simp: validators_iff request_pathI argv_ok_systemctl)

lemma touch_add: "keeps (touches (request_path env req) (argv_ok env)) (cmd_add_peer env req)"
  unfolding cmd_add_peer_def
  by (intro touch_steps)
    (auto simp: validate_tunnel_name_iff validate_wg_key_iff request_pathI argv_ok_add
      dest: ips_arg_validated)

lemma touch_remove: "keeps (touches (request_path env req) (argv_ok env)) (cmd_remove_peer env req)"
  unfolding cmd_remove_peer_def
  by (intro touch_steps) (auto simp: validators_iff request_pathI argv_ok_remove)

lemma touch_entries: "keeps (touches P (argv_ok env)) (tunnel_entries env live ts)"
proof (induction ts)
  case Nil
  then show ?case by (simp add: touch_rules)
next
  case (Cons t ts)
  then show ?case
    by (auto intro!: touch_helper argv_ok_simple split: prod.splits exn.splits)
qed

lemma touch_status: "keeps (touches P (argv_ok env)) (cmd_tunnel_status env req)"
  unfolding cmd_tunnel_status_def
  by (auto intro!: touch_helper touch_entries argv_ok_simple split: prod.splits)

lemma touch_state: "keeps (touches P (argv_ok env)) (cmd_set_tunnel_state env req)"
  unfolding cmd_set_tunnel_state_def
  by (intro touch_steps)
    (auto simp: validators_iff simp del: append_Cons append_Nil intro!: argv_ok_systemctl)

lemma dispatch_cases:
  assumes "helper_dispatch c = Some handler"
  obtains "handler = cmd_genkey" | "handler = cmd_create_tunnel" | "handler = cmd_delete_tunnel"
    | "handler = cmd_add_peer" | "handler = cmd_remove_peer" | "handler = cmd_tunnel_status"
    | "handler = cmd_set_tunnel_state"
  using assms by (auto simp: helper_dispatch_def split: if_splits)

lemma touch_dispatch:
  "helper_dispatch c = Some handler \<Longrightarrow>
   keeps (touches (request_path env req) (argv_ok env)) (handler env req)"
  by (erule dispatch_cases)
    (simp_all add: touch_genkey touch_create touch_delete touch_add touch_remove touch_status
      touch_state)

definition conn_request :: "conn \<Rightarrow> jdict" where
  \<comment> \<open>the request a connection carries, empty when it is not an object\<close>
  "conn_request cn = (case loads (readline (cn_input cn)) of Some (JObj req) \<Rightarrow> req | _ \<Rightarrow> [])"

lemma handle_request_touches:
  "touches (request_path env (case v of Some (JObj req) \<Rightarrow> req | _ \<Rightarrow> [])) (argv_ok env) h
     (snd (handle_request env v h))"
proof -
  have run: "touches (request_path env req) (argv_ok env) h (snd (run_command env handler req h))"
    if "helper_dispatch c = Some handler" for req c handler
    using touch_dispatch [OF that, where env = env and req = req]
    unfolding keeps_def run_command_def
    by (auto split: prod.splits sum.splits exn.splits dest: spec [of _ h])
  show ?thesis
    unfolding handle_request_def
    by (auto split: option.splits json.splits simp: touch.frame_refl intro: run)
qed

section \<open>Properties\<close>

text \<open>C9: whatever a client sends, and whatever the operating system makes fail, serving one
  connection changes no file other than the configuration file of the validated tunnel name in
  the request, its temporary file, and the temporary key file; and every program that is started
  is on the whitelist, its arguments being constants, validated names and keys, and printed
  networks.\<close>

theorem handle_client_confined:
  "touches (request_path env (conn_request cn)) (argv_ok env) h (snd (handle_client env cn h))"
  using handle_request_touches [of env "loads (readline (cn_input cn))" h]
  by (auto simp: handle_client_def conn_request_def Let_def touch.frame_refl split: option.splits)

text \<open>A caller that is not the application's user gets no answer and has no effect, whatever
  it sends.\<close>

lemma handle_client_unauthorised:
  assumes "cn_allowed_uid cn \<noteq> Some (cn_peer_uid cn)"
  shows "handle_client env cn h = (NoReply, h)"
  using assms by (auto simp: handle_client_def split: option.splits)

definition quiet_env :: "unit env" where
  \<comment> \<open>no failures, programs succeed with no output, interfaces are up: for evaluation\<close>
  "quiet_env = \<lparr>e_run = (\<lambda>_ _ _ x. (Some (0, [], []), x)), e_if_up = (\<lambda>_ _. True),
     e_fault = (\<lambda>_. None), e_pid = 7, e_reqid = 42\<rparr>"

definition empty_host :: "unit host" where
  "empty_host = \<lparr>h_fs = [], h_dirs = [(run_dir, 493)], h_tick = 0, h_ran = [], h_ext = ()\<rparr>"

definition root_conn :: conn where
  \<comment> \<open>a connection of root, where the application runs as user 996\<close>
  "root_conn = \<lparr>cn_allowed_uid = Some 996, cn_peer_uid = 0, cn_input = ''{}''\<rparr>"

lemma handle_client_unauthorised_witness:
  "handle_client quiet_env root_conn empty_host = (NoReply, empty_host) \<and> cn_allowed_uid root_conn \<noteq> Some (cn_peer_uid root_conn)"
  using handle_client_unauthorised [of root_conn quiet_env empty_host] by (simp add: root_conn_def)

end
