(* ===== verification/HelperFiles.thy ===== *)
theory HelperFiles
  imports HelperFrame
begin

text \<open>
  What the file operations of the daemon guarantee when any of them may fail: replacing a
  configuration is atomic, creating one never destroys another, the files it makes are
  readable by root alone, and a pre-shared key does not stay on disk.  \<open>write_result\<close> is the
  abstract description of \<open>_write_conf\<close> the command proofs use.
\<close>

section \<open>Replacing a configuration\<close>

definition private_tmp :: "string \<Rightarrow> 'x host \<Rightarrow> bool" where
  \<comment> \<open>a left-over temporary file, if any, is readable by root alone\<close>
  "private_tmp n h \<longleftrightarrow> (\<forall>f. file_at (tmp_path n) h = Some f \<longrightarrow> fmode f = 384)"

lemma tmp_conf_distinct [simp]: "tmp_path n \<noteq> conf_path m" "conf_path m \<noteq> tmp_path n"
proof -
  have "last (''.conf.tmp'') \<noteq> last (''.conf'')" by simp
  then have "n @ ''.conf.tmp'' \<noteq> m @ ''.conf''"
    by (metis append_is_Nil_conv last_appendR list.discI)
  then show "tmp_path n \<noteq> conf_path m" "conf_path m \<noteq> tmp_path n"
    by (auto simp: tmp_path_def conf_path_def)
qed

lemma psk_distinct [simp]:
  "psk_path env \<noteq> conf_path n" "conf_path n \<noteq> psk_path env"
  "psk_path env \<noteq> tmp_path n" "tmp_path n \<noteq> psk_path env"
  by (auto simp: psk_path_def conf_path_def tmp_path_def run_dir_def wg_dir_def)

definition new_mode :: "string \<Rightarrow> 'x host \<Rightarrow> nat" where
  "new_mode n h = (case file_at (tmp_path n) h of None \<Rightarrow> 384 | Some f \<Rightarrow> fmode f)"

lemma write_conf_result:
  obtains (ok) h' where "write_conf env n c h = (Inr (), h')"
      "file_at (conf_path n) h' = Some \<lparr>fdata = c, fmode = new_mode n h\<rparr>"
      "file_at (tmp_path n) h' = None"
    | (failed) h' where "write_conf env n c h = (Inl io_error, h')"
      "file_at (conf_path n) h' = file_at (conf_path n) h"
proof -
  let ?t = "h_tick h"
  show ?thesis
  proof (cases "e_fault env ?t = None \<and> has_dir wg_dir h")
    case False
    then have "\<exists>h'. write_conf env n c h = (Inl io_error, h') \<and>
        file_at (conf_path n) h' = file_at (conf_path n) h"
      by (auto simp: write_conf_def os_defs bindm_def tmp_path_def split: option.splits)
    then show ?thesis using failed by blast
  next
    case True
    then have dir: "e_fault env ?t = None" "has_dir (fst (tmp_path n)) h"
      by (simp_all add: tmp_path_def)
    show ?thesis
    proof (cases "e_fault env (Suc ?t) = None \<and> e_fault env (Suc (Suc ?t)) = None")
      case True
      with dir have "\<exists>h'. write_conf env n c h = (Inr (), h') \<and>
          file_at (conf_path n) h' = Some \<lparr>fdata = c, fmode = new_mode n h\<rparr> \<and>
          file_at (tmp_path n) h' = None"
        by (auto simp: write_conf_def os_defs bindm_def catchm_def new_mode_def split: option.splits)
      then show ?thesis using ok by blast
    next
      case False
      with dir have "\<exists>h'. write_conf env n c h = (Inl io_error, h') \<and>
          file_at (conf_path n) h' = file_at (conf_path n) h"
        by (auto simp: write_conf_def os_defs bindm_def catchm_def raise_def split: option.splits)
      then show ?thesis using failed by blast
    qed
  qed
qed

text \<open>C17: replacing a configuration is all or nothing, for every pattern of failing system calls
  (so for a crash at any of them): when \<open>_write_conf\<close> returns, the file holds exactly the new
  text and no temporary file is left; when it raises, the file is what it was before.\<close>

theorem write_conf_atomic:
  "case write_conf env n c h of
     (Inr _, h') \<Rightarrow> file_at (conf_path n) h' = Some \<lparr>fdata = c, fmode = new_mode n h\<rparr> \<and>
       file_at (tmp_path n) h' = None
   | (Inl _, h') \<Rightarrow> file_at (conf_path n) h' = file_at (conf_path n) h"
  by (rule write_conf_result [of env n c h]) simp_all

section \<open>Creating a tunnel\<close>

definition never_fails :: "'x env \<Rightarrow> bool" where
  "never_fails env \<longleftrightarrow> e_fault env = (\<lambda>_. None)"

definition keeps_files :: "'x host \<Rightarrow> 'x host \<Rightarrow> bool" where
  "keeps_files h h' \<longleftrightarrow> (\<forall>p f. file_at p h = Some f \<longrightarrow> file_at p h' = Some f)"

lemma open_excl_ok:
  assumes "os_open_excl env p mode h = (Inr u, h')"
  shows "file_at p h = None \<and> h' = set_file p \<lparr>fdata = [], fmode = mode\<rparr> (tick h) \<and> has_dir (fst p) h"
  using assms by (auto simp: os_defs split: option.splits if_splits)

text \<open>The last part of \<open>create_tunnel\<close>: exclusive creation, then the text or the clean-up.\<close>

definition create_file :: "'x env \<Rightarrow> path \<Rightarrow> string \<Rightarrow> ('x, unit) hop" where
  "create_file env p c =
     bindm (os_open_excl env p 384) (\<lambda>_.
     catchm (os_write env p c) (\<lambda>e. bindm (os_unlink env p) (\<lambda>_. raise e)))"

lemma create_file_keeps:
  assumes "file_at q h = Some f"
  shows "file_at q (snd (create_file env p c h)) = Some f"
proof (cases "os_open_excl env p 384 h")
  case (Pair r h')
  show ?thesis
  proof (cases r)
    case (Inl e)
    with Pair have "h' = tick h" by (auto simp: os_defs split: option.splits if_splits)
    with Pair Inl assms show ?thesis by (simp add: create_file_def bindm_def)
  next
    case (Inr u)
    with Pair have "file_at p h = None" and h': "h' = set_file p \<lparr>fdata = [], fmode = 384\<rparr> (tick h)"
      using open_excl_ok by blast+
    with assms have "q \<noteq> p" by auto
    with Pair Inr assms h' show ?thesis
      by (auto simp: create_file_def bindm_def catchm_def os_defs raise_def split: option.splits)
  qed
qed

lemma create_file_ok:
  "create_file env p c h = (Inr u, h') \<Longrightarrow>
   file_at p h = None \<and> file_at p h' = Some \<lparr>fdata = c, fmode = 384\<rparr>"
  by (auto simp: create_file_def bindm_def catchm_def os_defs raise_def
      split: option.splits if_splits)

lemma create_file_never_fails:
  "never_fails env \<Longrightarrow> has_dir (fst p) h \<Longrightarrow> file_at p h = None \<Longrightarrow>
   create_file env p c h =
     (Inr (), tick (put_data p c (set_file p \<lparr>fdata = [], fmode = 384\<rparr> (tick h))))"
  by (simp add: create_file_def bindm_def catchm_def os_defs never_fails_def)

lemma cmd_create_tunnel_eq:
  "cmd_create_tunnel env req =
     bindm (liftr (validate_tunnel_name (jget req ''name''))) (\<lambda>name.
     bindm (liftr (validate_wg_key (jget req ''private_key'') ''private_key'')) (\<lambda>private_key.
     bindm (liftr (case json_interface (address_field req) of
              None \<Rightarrow> Inl (HelperError ''invalid address'') | Some a \<Rightarrow> Inr a)) (\<lambda>address.
     bindm (liftr (port_of (jget req ''listen_port''))) (\<lambda>listen_port.
     bindm (exists_file (conf_path name)) (\<lambda>present.
     bindm (assertm (\<not> present) (HelperError ''tunnel already exists'')) (\<lambda>_.
     bindm (os_mkdir env wg_dir 448) (\<lambda>_.
     bindm (os_chmod_dir env wg_dir 448) (\<lambda>_.
     bindm (create_file env (conf_path name)
              (tunnel_conf private_key (str_iface address) listen_port)) (\<lambda>_.
     ret [])))))))))"
  by (simp add: cmd_create_tunnel_def create_file_def bindm_assoc)

interpretation keep_files: frame_rel keeps_files
  by unfold_locales (auto simp: keeps_files_def)

text \<open>C27: creating a tunnel never destroys or changes a file: whatever existed before the command
  is there afterwards with the same content and mode, even when the name is taken, the check and
  the creation are separated, or any system call fails.\<close>

theorem create_tunnel_keeps_files: "keeps keeps_files (cmd_create_tunnel env req)"
proof -
  have "keeps keeps_files (create_file env p c)" for p c
    unfolding keeps_def keeps_files_def by (intro allI impI create_file_keeps)
  moreover have "keeps keeps_files (exists_file p)" "keeps keeps_files (os_mkdir env d m)"
      "keeps keeps_files (os_chmod_dir env d m)" for p d m
    by (auto simp: keeps_def keeps_files_def os_defs split: option.splits)
  ultimately show ?thesis
    unfolding cmd_create_tunnel_eq
    by (intro keep_files.keeps_bind keep_files.keeps_basic)
qed

section \<open>The pre-shared key\<close>

lemma finallym_snd:
  assumes "\<And>r h'. m h = (r, h') \<Longrightarrow> Q (snd (c h'))"
  shows "Q (snd (finallym m c h))"
proof -
  obtain r h' where m: "m h = (r, h')" by fastforce
  from assms [OF m] m show ?thesis
    by (cases "c h'"; cases "fst (c h')") (auto simp: finallym_def)
qed

lemma unlink_gone: "never_fails env \<Longrightarrow> file_at p (snd (os_unlink env p h)) = None"
  by (simp add: os_defs never_fails_def)

text \<open>C35: when a peer with a pre-shared key is added to a running interface, the file that hands the
  key to \<open>wg\<close> does not exist any more afterwards, whether \<open>wg set\<close> succeeded, failed or could not
  be started at all.\<close>

theorem live_add_leaves_no_key:
  assumes "never_fails env"
  shows "file_at (psk_path env) (snd (live_add env args (Some k) h)) = None"
  unfolding live_add_def option.case
  by (rule finallym_snd) (rule unlink_gone [OF assms])

lemma quiet_never_fails: "never_fails quiet_env"
  by (simp add: never_fails_def quiet_env_def)

theorem live_add_leaves_no_key_witness:
  "file_at (psk_path quiet_env) (snd (live_add quiet_env [''wg''] (Some ''secret'') empty_host)) = None"
  using live_add_leaves_no_key [OF quiet_never_fails] .

text \<open>While \<open>wg set\<close> runs, the key file it is told to read is there, holds exactly the key and a
  line break, and is readable by root alone.\<close>

lemma live_add_key_file_private:
  assumes "live_add env args (Some k) h = (Inr u, h')"
  shows "\<exists>fs. h_ran h' = h_ran h @ [(args @ [''preshared-key'', path_str (psk_path env)], None, fs)] \<and>
    map_of fs (psk_path env) = Some \<lparr>fdata = k @ [nl], fmode = 384\<rparr>"
proof -
  let ?p = "psk_path env"
  let ?m = "bindm (os_open_excl env ?p 384) (\<lambda>_. bindm (os_write env ?p (k @ [nl])) (\<lambda>_.
      bindm (checked_run env (args @ [''preshared-key'', path_str ?p]) None ''wg set'') (\<lambda>_. ret ())))"
  from assms obtain h1 where m: "?m h = (Inr u, h1)" and c: "snd (os_unlink env ?p h1) = h'"
    unfolding live_add_def finallym_def by (auto split: prod.splits sum.splits)
  from m obtain h2 where o1: "os_open_excl env ?p 384 h = (Inr (), h2)" and
      r: "bindm (os_write env ?p (k @ [nl])) (\<lambda>_.
        bindm (checked_run env (args @ [''preshared-key'', path_str ?p]) None ''wg set'')
          (\<lambda>_. ret ())) h2 = (Inr u, h1)"
    by (rule bindm_InrE) simp
  from r obtain h3 where w: "os_write env ?p (k @ [nl]) h2 = (Inr (), h3)" and
      r2: "bindm (checked_run env (args @ [''preshared-key'', path_str ?p]) None ''wg set'')
          (\<lambda>_. ret ()) h3 = (Inr u, h1)"
    by (rule bindm_InrE) simp
  from open_excl_ok [OF o1] have h2: "h2 = set_file ?p \<lparr>fdata = [], fmode = 384\<rparr> (tick h)" by simp
  with w have h3: "h3 = tick (put_data ?p (k @ [nl]) h2)"
    by (auto simp: os_defs split: option.splits)
  have f: "map_of (h_fs h3) ?p = Some \<lparr>fdata = k @ [nl], fmode = 384\<rparr>"
  proof -
    have "file_at ?p h3 = Some \<lparr>fdata = k @ [nl], fmode = 384\<rparr>" using h2 h3 by simp
    then show ?thesis by (simp only: file_at_def)
  qed
  have ran: "h_ran h1 = h_ran h3 @ [(args @ [''preshared-key'', path_str ?p], None, h_fs h3)]"
    using r2
    by (auto simp: checked_run_def bindm_def run_prog_def ret_def assertm_def Let_def
        split: prod.splits option.splits sum.splits if_splits)
  have "h_ran h3 = h_ran h" using h2 h3 by simp
  moreover have "h_ran h' = h_ran h1"
    using c by (auto simp: os_defs split: option.splits)
  ultimately show ?thesis using ran f by auto
qed

lemma live_add_key_file_private_witness:
  "\<exists>fs. h_ran (snd (live_add quiet_env [''wg''] (Some ''secret'') empty_host)) =
      [([''wg'', ''preshared-key'', path_str (psk_path quiet_env)], None, fs)] \<and>
    map_of fs (psk_path quiet_env) = Some \<lparr>fdata = ''secret'' @ [nl], fmode = 384\<rparr>"
proof -
  have "\<exists>h'. live_add quiet_env [''wg''] (Some ''secret'') empty_host = (Inr (), h')"
    by (simp add: live_add_def finallym_def bindm_def checked_run_def run_prog_def os_defs
        quiet_env_def empty_host_def has_dir_def tick_def set_file_def put_data_def file_at_def
        psk_path_def assertm_def ret_def Let_def)
  then obtain h' where r: "live_add quiet_env [''wg''] (Some ''secret'') empty_host = (Inr (), h')" ..
  from live_add_key_file_private [OF r] r show ?thesis by (simp add: empty_host_def)
qed

end
