(* ===== verification/TunnelText.thy ===== *)
theory TunnelText
  imports HelperFiles
begin

text \<open>
  The abstract view of a tunnel, and its configuration file as text.

  \<open>tunnel\<close> is what a configuration means: the key, the address and the port of the interface,
  and a list of peers.  \<open>render\<close> is the text the daemon's commands produce for it.  The
  lemmas show that the daemon's own functions on texts act as list operations on the abstract
  tunnel: splitting gives one block per peer, \<open>_parse_conf_info\<close> reads the fields back, and
  the test \<open>"PublicKey = K" in block\<close> is the test on the peer's key.
\<close>

section \<open>The abstract tunnel\<close>

record tun_peer =
  tp_key :: string
  tp_psk :: "string option"
  tp_nets :: "ipnet list"
  tp_keep :: int

record tunnel =
  tn_key :: string
  tn_addr :: ipiface
  tn_port :: int
  tn_peers :: "tun_peer list"

definition nets_text :: "ipnet list \<Rightarrow> string" where
  "nets_text ns = py_join '', '' (map str_net ns)"

definition peer_text :: "tun_peer \<Rightarrow> string" where
  "peer_text p = peer_block (tp_key p) (tp_psk p) (nets_text (tp_nets p)) (JInt (tp_keep p))"

definition header_text :: "tunnel \<Rightarrow> string" where
  "header_text t = tunnel_conf (tn_key t) (str_iface (tn_addr t)) (tn_port t)"

definition render :: "tunnel \<Rightarrow> string" where
  "render t = header_text t @ concat (map (\<lambda>p. nl # peer_text p) (tn_peers t))"

definition noscope :: "ipaddr \<Rightarrow> bool" where
  "noscope a \<longleftrightarrow> ascope a = None"

definition wf_peer :: "tun_peer \<Rightarrow> bool" where
  "wf_peer p \<longleftrightarrow> key_core (tp_key p) \<and> (\<forall>k. tp_psk p = Some k \<longrightarrow> key_core k) \<and>
     tp_nets p \<noteq> [] \<and> list_all (\<lambda>n. noscope (naddr n)) (tp_nets p) \<and> 0 \<le> tp_keep p"

definition wf_tunnel :: "tunnel \<Rightarrow> bool" where
  "wf_tunnel t \<longleftrightarrow> key_core (tn_key t) \<and> noscope (iaddr (tn_addr t)) \<and> 0 \<le> tn_port t \<and>
     list_all wf_peer (tn_peers t)"

definition tunnel_info :: "tunnel \<Rightarrow> conf_info" where
  "tunnel_info t = \<lparr>ci_mode = ''server'', ci_address = Some (str_iface (tn_addr t)),
     ci_endpoint = None, ci_allowed_ips = concat (map (\<lambda>p. map str_net (tp_nets p)) (tn_peers t))\<rparr>"

section \<open>Characters\<close>

definition ip_char :: "char \<Rightarrow> bool" where
  "ip_char c \<longleftrightarrow> c \<in> set ''0123456789abcdef.:/''"

lemma digit_ip_char: "is_ascii_digit c \<Longrightarrow> ip_char c"
proof -
  assume "is_ascii_digit c"
  then have "code c \<in> {48..57}" by (simp add: is_ascii_digit_def)
  then have "c \<in> char_of ` {48..57::nat}" by (metis char_of_char code_def image_eqI)
  also have "{48..57::nat} = set [48..<58]" by (simp only: set_upt) auto
  also have "char_of ` set [48..<58] = set ''0123456789''" by code_simp
  finally show ?thesis by (auto simp: ip_char_def)
qed

lemma hexdigit_ip_char: "d < 16 \<Longrightarrow> ip_char (hexdigit d)"
proof -
  assume "d < 16"
  then have "d \<in> set [0..<16]" by simp
  moreover have "list_all (\<lambda>d. ip_char (hexdigit d)) [0..<16]" by code_simp
  ultimately show ?thesis by (auto simp: list_all_iff)
qed

lemma hex_ip_char: "list_all ip_char (hex n)"
proof (induction n rule: hex.induct)
  case (1 n)
  then show ?case by (subst hex.simps) (auto simp: hexdigit_ip_char)
qed

lemma join_chars: "list_all P sep \<Longrightarrow> (\<forall>w\<in>set ws. list_all P w) \<Longrightarrow> list_all P (py_join sep ws)"
  by (induction sep ws rule: py_join.induct) auto

lemma compress_hextets_mem: "w \<in> set (compress_hextets hs) \<Longrightarrow> w = [] \<or> w \<in> set hs"
  by (auto simp: compress_hextets_def Let_def split: if_splits dest: in_set_takeD in_set_dropD)

lemma str_v6_chars: "list_all ip_char (str_v6 i)"
  unfolding str_v6_def
proof (rule join_chars)
  show "list_all ip_char '':''" by (simp add: ip_char_def)
  show "\<forall>w\<in>set (compress_hextets (map (\<lambda>k. hex (nat (i div 2 ^ k mod 65536)))
      [112, 96, 80, 64, 48, 32, 16, 0])). list_all ip_char w"
    by (auto dest!: compress_hextets_mem simp: hex_ip_char)
qed

lemma str_addr_chars: "noscope a \<Longrightarrow> list_all ip_char (str_addr a)"
proof -
  assume "noscope a"
  then have "str_addr a = str_ipint (aver a) (aint a)" by (simp add: str_addr_def noscope_def)
  moreover have "list_all ip_char (str_v4 i)" for i
    by (auto simp: list_all_iff ip_char_def [of "CHR ''.''"] dest!: str_v4_chars intro: digit_ip_char)
  ultimately show ?thesis by (cases "aver a") (simp_all add: str_v6_chars)
qed

lemma dec_ip_char: "list_all ip_char (dec n)"
  using dec_digits [of n] by (auto simp: list_all_iff digit_ip_char)

lemma str_net_chars: "noscope (naddr n) \<Longrightarrow> list_all ip_char (str_net n)"
  by (simp add: str_net_def str_addr_chars dec_ip_char) (simp add: ip_char_def)

lemma str_iface_chars: "noscope (iaddr i) \<Longrightarrow> list_all ip_char (str_iface i)"
  by (simp add: str_iface_def str_addr_chars dec_ip_char) (simp add: ip_char_def)

definition text_char :: "char \<Rightarrow> bool" where
  \<comment> \<open>what a value of a clean configuration is made of\<close>
  "text_char c \<longleftrightarrow> ip_char c \<or> b64_char c \<or> c = CHR ''='' \<or> c = CHR '','' \<or> c = CHR '' ''"

lemma not_text_char:
  "\<not> text_char nl" "\<not> text_char (CHR ''['')"
  by (auto simp: text_char_def ip_char_def b64_char_def nl_def is_ascii_alnum_def
      is_ascii_digit_def is_lower_az_def is_upper_az_def code_def)

lemma ip_char_facts:
  assumes "ip_char c"
  shows "\<not> py_isspace c" "c \<noteq> CHR '',''" "c \<noteq> nl" "c \<noteq> CHR ''u''" "c \<noteq> CHR ''K''"
proof -
  have "list_all (\<lambda>c. \<not> py_isspace c \<and> c \<noteq> CHR '','' \<and> c \<noteq> nl \<and> c \<noteq> CHR ''u'' \<and> c \<noteq> CHR ''K'')
      ''0123456789abcdef.:/''"
    by code_simp
  with assms show "\<not> py_isspace c" "c \<noteq> CHR '',''" "c \<noteq> nl" "c \<noteq> CHR ''u''" "c \<noteq> CHR ''K''"
    unfolding ip_char_def list_all_iff by blast+
qed

lemma b64_not_space: "b64_char c \<Longrightarrow> \<not> py_isspace c"
  by (auto simp: b64_char_def py_isspace_def code_def dest!: alnum_not_space)

lemma key_core_chars:
  assumes "key_core k"
  shows "list_all (\<lambda>c. b64_char c \<or> c = CHR ''='') k"
proof -
  have "list_all b64_char ''AEIMQUYcgkosw048''" by code_simp
  then have "\<forall>i<44. b64_char (k ! i) \<or> k ! i = CHR ''=''"
  proof (intro allI impI)
    fix i :: nat assume "i < 44"
    then consider "i < 42" | "i = 42" | "i = 43" by linarith
    then show "b64_char (k ! i) \<or> k ! i = CHR ''=''"
    proof cases
      case 1
      then have "k ! i \<in> set (take 42 k)"
        using assms by (auto simp: key_core_def in_set_conv_nth intro!: exI [of _ i])
      then show ?thesis using assms by (auto simp: key_core_def list_all_iff)
    next
      case 2
      then show ?thesis
        using assms \<open>list_all b64_char _\<close> unfolding key_core_def list_all_iff by blast
    next
      case 3
      then show ?thesis using assms by (simp add: key_core_def)
    qed
  qed
  then show ?thesis
    using assms unfolding key_core_def list_all_length by (metis)
qed

lemma key_core_text: "key_core k \<Longrightarrow> list_all text_char k"
  using key_core_chars [of k] by (auto simp: list_all_iff text_char_def)

lemma trimmedI:
  assumes "v \<noteq> []" and "\<And>c. c \<in> set v \<Longrightarrow> \<not> py_isspace c"
  shows "trimmed v"
  unfolding trimmed_def
proof (intro conjI)
  show "nl \<notin> set v" using assms(2) nl_space by blast
qed (use assms in simp_all)

lemma eq_not_space: "\<not> py_isspace (CHR ''='')"
  by (simp add: py_isspace_def code_def)

lemma key_core_trimmed:
  assumes "key_core k"
  shows "trimmed k"
proof (rule trimmedI)
  show "k \<noteq> []" using assms by (auto simp: key_core_def)
  fix c assume "c \<in> set k"
  with key_core_chars [OF assms] have "b64_char c \<or> c = CHR ''=''" by (simp add: list_all_iff)
  then show "\<not> py_isspace c" using b64_not_space eq_not_space by blast
qed

lemma key_core_wg_key: "key_core k \<Longrightarrow> wg_key_ok k"
  using key_core_trimmed [of k] by (auto simp: trimmed_def wg_key_ok_def)

lemma ip_chars_trimmed: "s \<noteq> [] \<Longrightarrow> list_all ip_char s \<Longrightarrow> trimmed s"
  by (rule trimmedI) (simp_all add: list_all_iff ip_char_facts(1))

lemma ip_chars_text: "list_all ip_char s \<Longrightarrow> list_all text_char s"
  by (auto simp: list_all_iff text_char_def)

lemma str_net_not_Nil [simp]: "str_net n \<noteq> []"
  by (simp add: str_net_def)

lemma str_iface_not_Nil [simp]: "str_iface n \<noteq> []"
  by (simp add: str_iface_def)

section \<open>The text as lines\<close>

definition header_lines :: "tunnel \<Rightarrow> string list" where
  "header_lines t = [''[Interface]'', ''PrivateKey = '' @ tn_key t,
     ''Address = '' @ str_iface (tn_addr t), ''ListenPort = '' @ dec_int (tn_port t)]"

definition peer_lines :: "tun_peer \<Rightarrow> string list" where
  "peer_lines p = [''[Peer]'', ''PublicKey = '' @ tp_key p] @
     (case tp_psk p of None \<Rightarrow> [] | Some k \<Rightarrow> [''PresharedKey = '' @ k]) @
     [''AllowedIPs = '' @ nets_text (tp_nets p)] @
     (if tp_keep p \<noteq> 0 then [''PersistentKeepalive = '' @ dec_int (tp_keep p)] else [])"

lemma header_text_lines: "header_text t = lines_text (header_lines t)"
  by (simp add: header_text_def tunnel_conf_def lines_text_def header_lines_def)

lemma peer_text_lines: "peer_text p = lines_text (peer_lines p)"
  by (simp add: peer_text_def peer_block_def lines_text_def peer_lines_def split: option.splits)

lemma dec_int_ip: "0 \<le> i \<Longrightarrow> list_all ip_char (dec_int i)"
  by (simp add: dec_int_def dec_ip_char)

lemma dec_int_not_Nil [simp]: "dec_int i \<noteq> []"
  by (simp add: dec_int_def)

lemma nets_text_chars:
  assumes "list_all (\<lambda>n. noscope (naddr n)) ns"
  shows "list_all (\<lambda>c. ip_char c \<or> c = CHR '','' \<or> c = CHR '' '') (nets_text ns)"
  unfolding nets_text_def
proof (rule join_chars)
  show "\<forall>w\<in>set (map str_net ns). list_all (\<lambda>c. ip_char c \<or> c = CHR '','' \<or> c = CHR '' '') w"
    using assms str_net_chars unfolding list_all_iff by fastforce
qed simp

lemma join_hd_last:
  assumes "ws \<noteq> []" and "\<forall>w\<in>set ws. w \<noteq> [] \<and> \<not> p (hd w) \<and> \<not> p (last w)"
  shows "py_join sep ws \<noteq> [] \<and> \<not> p (hd (py_join sep ws)) \<and> \<not> p (last (py_join sep ws))"
  using assms by (induction sep ws rule: py_join.induct) auto

lemma nets_text_trimmed:
  assumes "ns \<noteq> []" and "list_all (\<lambda>n. noscope (naddr n)) ns"
  shows "trimmed (nets_text ns)"
proof -
  have "w \<noteq> [] \<and> \<not> py_isspace (hd w) \<and> \<not> py_isspace (last w)" if "w \<in> set (map str_net ns)" for w
  proof -
    have w: "w \<noteq> []" "list_all ip_char w"
      using that assms(2) str_net_chars by (auto simp: list_all_iff)
    from ip_chars_trimmed [OF this] show ?thesis by (simp add: trimmed_def)
  qed
  then have "nets_text ns \<noteq> [] \<and> \<not> py_isspace (hd (nets_text ns)) \<and> \<not> py_isspace (last (nets_text ns))"
    unfolding nets_text_def using assms(1) by (intro join_hd_last) auto
  moreover have "nl \<notin> set (nets_text ns)"
    using nets_text_chars [OF assms(2)] ip_char_facts(3) [of nl]
    unfolding list_all_iff by (force simp: nl_def)
  ultimately show ?thesis by (simp add: trimmed_def)
qed

lemma plain_line_other:
  "l \<noteq> [] \<Longrightarrow> \<not> py_isspace (hd l) \<Longrightarrow> nl \<notin> set l \<Longrightarrow> \<not> prefix key l \<Longrightarrow> plain_line key l"
  by (simp add: plain_line_def)

lemma plain_line_key:
  assumes "plain_key key" and "trimmed v"
  shows "plain_line key (key @ '' = '' @ v)" and "line_val key (key @ '' = '' @ v) = Some v"
proof -
  have d: "drop (length key + 3) (key @ '' = '' @ v) = v" by simp
  show "line_val key (key @ '' = '' @ v) = Some v" unfolding line_val_def d by simp
  obtain c k where k: "key = c # k" "\<not> py_isspace c"
    using assms(1) by (cases key) (auto simp: plain_key_def alnum_not_space)
  have "nl \<notin> set (key @ '' = '' @ v)"
    using plain_key_no_nl [OF assms(1)] assms(2) by (auto simp: trimmed_def nl_def)
  with k show "plain_line key (key @ '' = '' @ v)"
    unfolding plain_line_def d using assms(2) by simp
qed

lemma text_no_nl: "list_all text_char s \<Longrightarrow> nl \<notin> set s"
  using not_text_char(1) by (auto simp: list_all_iff)

lemma text_no_bracket: "list_all text_char s \<Longrightarrow> CHR ''['' \<notin> set s"
  using not_text_char(2) by (auto simp: list_all_iff)

lemma nets_text_text: "list_all (\<lambda>n. noscope (naddr n)) ns \<Longrightarrow> list_all text_char (nets_text ns)"
  using nets_text_chars [of ns] by (auto simp: list_all_iff text_char_def)

text \<open>The values of a well-formed tunnel.\<close>

lemma wf_peer_text:
  assumes "wf_peer p"
  shows "list_all text_char (tp_key p)" "tp_psk p = Some k \<Longrightarrow> list_all text_char k"
    "list_all text_char (nets_text (tp_nets p))" "list_all text_char (dec_int (tp_keep p))"
  using assms
  by (auto simp: wf_peer_def key_core_text nets_text_text ip_chars_text dec_int_ip)

lemma wf_tunnel_text:
  assumes "wf_tunnel t"
  shows "list_all text_char (tn_key t)" "list_all text_char (str_iface (tn_addr t))"
    "list_all text_char (dec_int (tn_port t))"
  using assms
  by (auto simp: wf_tunnel_def key_core_text str_iface_chars ip_chars_text dec_int_ip)

lemma space_lits: "\<not> py_isspace (CHR ''['')" "\<not> py_isspace (CHR ''P'')" "\<not> py_isspace (CHR ''A'')"
    "\<not> py_isspace (CHR ''L'')"
  by (simp_all add: py_isspace_def code_def)

lemma nl_lits: "nl \<notin> set ''[Peer]''" "nl \<notin> set ''[Interface]''" "nl \<notin> set ''PublicKey = ''"
    "nl \<notin> set ''PresharedKey = ''" "nl \<notin> set ''AllowedIPs = ''"
    "nl \<notin> set ''PersistentKeepalive = ''" "nl \<notin> set ''PrivateKey = ''" "nl \<notin> set ''Address = ''"
    "nl \<notin> set ''ListenPort = ''"
  by (simp_all add: nl_def)

lemma nl_line: "nl \<notin> set w \<Longrightarrow> list_all text_char s \<Longrightarrow> nl \<notin> set (w @ s)"
  using text_no_nl by auto

lemmas plain_other = plain_line_other nl_line space_lits nl_lits

lemma plain_keys: "plain_key ''Address''" "plain_key ''Endpoint''" "plain_key ''AllowedIPs''"
  by (code_simp, code_simp, code_simp)

lemma header_plain_address:
  assumes "wf_tunnel t"
  shows "list_all (plain_line ''Address'') (header_lines t)"
    and "List.map_filter (line_val ''Address'') (header_lines t) = [str_iface (tn_addr t)]"
proof -
  have tr: "trimmed (str_iface (tn_addr t))"
    using assms by (intro ip_chars_trimmed) (simp_all add: wf_tunnel_def str_iface_chars)
  note v = plain_line_key [OF plain_keys(1) tr]
  have "nl \<notin> set (''PrivateKey = '' @ tn_key t)" "nl \<notin> set (''ListenPort = '' @ dec_int (tn_port t))"
    using assms by (intro nl_line nl_lits wf_tunnel_text; assumption)+
  then show "list_all (plain_line ''Address'') (header_lines t)"
    using v(1) nl_lits(2) space_lits by (simp add: header_lines_def plain_line_other)
  show "List.map_filter (line_val ''Address'') (header_lines t) = [str_iface (tn_addr t)]"
    using v(2) by (simp add: header_lines_def List.map_filter_simps line_val_def)
qed

lemma peer_line_nl:
  assumes "wf_peer p"
  shows "nl \<notin> set (''PublicKey = '' @ tp_key p)" "tp_psk p = Some k \<Longrightarrow> nl \<notin> set (''PresharedKey = '' @ k)"
    "nl \<notin> set (''AllowedIPs = '' @ nets_text (tp_nets p))"
    "nl \<notin> set (''PersistentKeepalive = '' @ dec_int (tp_keep p))"
proof -
  note t = wf_peer_text [OF assms]
  show "nl \<notin> set (''PublicKey = '' @ tp_key p)" by (rule nl_line [OF nl_lits(3) t(1)])
  show "tp_psk p = Some k \<Longrightarrow> nl \<notin> set (''PresharedKey = '' @ k)" by (rule nl_line [OF nl_lits(4) t(2)])
  show "nl \<notin> set (''AllowedIPs = '' @ nets_text (tp_nets p))" by (rule nl_line [OF nl_lits(5) t(3)])
  show "nl \<notin> set (''PersistentKeepalive = '' @ dec_int (tp_keep p))"
    by (rule nl_line [OF nl_lits(6) t(4)])
qed

lemma peer_plain_endpoint:
  assumes "wf_peer p"
  shows "list_all (plain_line ''Endpoint'') (peer_lines p)"
    and "List.map_filter (line_val ''Endpoint'') (peer_lines p) = []"
proof -
  show "list_all (plain_line ''Endpoint'') (peer_lines p)"
    using peer_line_nl [OF assms] nl_lits(1) space_lits
    by (cases "tp_psk p") (simp_all add: peer_lines_def plain_line_other)
  show "List.map_filter (line_val ''Endpoint'') (peer_lines p) = []"
    by (cases "tp_psk p") (simp_all add: peer_lines_def List.map_filter_simps line_val_def)
qed

lemma peer_plain_ips:
  assumes "wf_peer p"
  shows "list_all (plain_line ''AllowedIPs'') (peer_lines p)"
    and "List.map_filter (line_val ''AllowedIPs'') (peer_lines p) = [nets_text (tp_nets p)]"
proof -
  have tr: "trimmed (nets_text (tp_nets p))"
    using assms by (intro nets_text_trimmed) (simp_all add: wf_peer_def)
  note v = plain_line_key [OF plain_keys(3) tr]
  show "list_all (plain_line ''AllowedIPs'') (peer_lines p)"
    using peer_line_nl [OF assms] nl_lits(1) space_lits v(1)
    by (cases "tp_psk p") (simp_all add: peer_lines_def plain_line_other)
  show "List.map_filter (line_val ''AllowedIPs'') (peer_lines p) = [nets_text (tp_nets p)]"
    using v(2) by (cases "tp_psk p") (simp_all add: peer_lines_def List.map_filter_simps line_val_def)
qed

section \<open>The text as header and blocks\<close>

definition bracket_head :: "string \<Rightarrow> bool" where
  \<comment> \<open>the only bracket that opens a section is the first character\<close>
  "bracket_head s \<longleftrightarrow> s \<noteq> [] \<and> hd s \<noteq> nl \<and> CHR ''['' \<notin> set (tl s)"

lemma bracket_head_no_mark: "bracket_head s \<Longrightarrow> \<not> py_contains peer_mark s"
proof
  assume b: "bracket_head s" and "py_contains peer_mark s"
  then obtain x y where s: "s = x @ peer_mark @ y" by (auto simp: py_contains_iff)
  have "CHR ''['' \<in> set (tl s)"
    unfolding s by (cases x) (simp_all add: peer_mark_def)
  with b show False by (simp add: bracket_head_def)
qed

lemma bracket_nl: "CHR ''['' \<noteq> nl" "nl \<noteq> CHR ''[''"
  by (simp_all add: nl_def)

lemma header_bracket: "wf_tunnel t \<Longrightarrow> bracket_head (header_text t)"
  using wf_tunnel_text [of t, THEN text_no_bracket] bracket_nl
  by (simp add: bracket_head_def header_text_def tunnel_conf_def)

lemma peer_bracket: "wf_peer p \<Longrightarrow> bracket_head (peer_text p)"
  using wf_peer_text [of p, THEN text_no_bracket] bracket_nl
  by (auto simp: bracket_head_def peer_text_def peer_block_def split: option.splits)

lemma norm_lines:
  assumes "ls \<noteq> []" and "last ls \<noteq> []" and "nl \<notin> set (last ls)"
  shows "hdr_norm (lines_text ls) = lines_text ls"
proof -
  have "lines_text ls = lines_text (butlast ls) @ last ls @ [nl]"
    using assms(1) by (metis append_butlast_last_id concat_append concat.simps lines_text_def
        list.map map_append append_Nil2)
  then have l: "lines_text ls = (lines_text (butlast ls) @ last ls) @ [nl]" by simp
  have "last (last ls) \<noteq> nl" using assms(2,3) last_in_set by metis
  then have "rstrip_nl ((lines_text (butlast ls) @ last ls) @ [nl]) = lines_text (butlast ls) @ last ls"
    using assms(2) unfolding rstrip_nl_def by (subst rstrip_by_append_all) (simp_all add: rstrip_by_id)
  then show ?thesis unfolding hdr_norm_def l by simp
qed

lemma header_norm: "wf_tunnel t \<Longrightarrow> hdr_norm (header_text t) = header_text t"
  unfolding header_text_lines
  using wf_tunnel_text(3) [of t, THEN text_no_nl] nl_lits(9)
  by (intro norm_lines) (simp_all add: header_lines_def)

lemma peer_norm: "wf_peer p \<Longrightarrow> hdr_norm (peer_text p) = peer_text p"
  unfolding peer_text_lines
  using peer_line_nl [of p] by (intro norm_lines) (simp_all add: peer_lines_def)

lemma peer_blk_ok: "wf_peer p \<Longrightarrow> blk_ok (peer_text p)"
  using bracket_head_no_mark [OF peer_bracket, of p]
  by (simp add: blk_ok_def peer_text_def peer_block_def)

lemma header_hdr_ok: "wf_tunnel t \<Longrightarrow> hdr_ok (header_text t)"
  using bracket_head_no_mark [OF header_bracket] by (simp add: hdr_ok_def)

lemma rebuild_header:
  assumes "wf_tunnel t" and "list_all wf_peer ps"
  shows "rebuild_conf (header_text t) (map peer_text ps) = render (t\<lparr>tn_peers := ps\<rparr>)"
proof -
  have h: "rstrip_nl (header_text t) @ [nl] = header_text t"
    using header_norm [OF assms(1)] by (simp add: hdr_norm_def)
  have p: "map (\<lambda>b. nl # rstrip_nl b @ [nl]) (map peer_text ps) = map (\<lambda>p. nl # peer_text p) ps"
    using assms(2) peer_norm by (simp add: list_all_iff hdr_norm_def)
  have "header_text (t\<lparr>tn_peers := ps\<rparr>) = header_text t" by (simp add: header_text_def)
  moreover have "tn_peers (t\<lparr>tn_peers := ps\<rparr>) = ps" by simp
  ultimately show ?thesis unfolding rebuild_conf_def render_def p
    using h by (metis append.assoc)
qed

lemma split_render:
  assumes "wf_tunnel t"
  shows "split_conf (render t) = (header_text t, map peer_text (tn_peers t))"
proof -
  have ps: "list_all wf_peer (tn_peers t)" using assms by (simp add: wf_tunnel_def)
  have r: "render t = rebuild_conf (header_text t) (map peer_text (tn_peers t))"
    using rebuild_header [OF assms ps] by simp
  have n: "map hdr_norm (map peer_text (tn_peers t)) = map peer_text (tn_peers t)"
    using ps peer_norm by (simp add: list_all_iff)
  have b: "list_all blk_ok (map peer_text (tn_peers t))"
    using ps peer_blk_ok by (simp add: list_all_iff)
  show ?thesis
    unfolding r split_rebuild [OF header_hdr_ok [OF assms] b] n header_norm [OF assms] ..
qed

section \<open>Reading the fields back\<close>

lemma strip_trimmed:
  assumes "trimmed w" and "list_all py_isspace pre"
  shows "py_strip (pre @ w) = w"
proof -
  have w: "w \<noteq> []" "\<not> py_isspace (hd w)" "\<not> py_isspace (last w)"
    using assms(1) by (simp_all add: trimmed_def)
  have "dropWhile py_isspace (pre @ w) = w"
    using assms(2) w by (cases w) (auto simp: list_all_iff dropWhile_append2)
  then show ?thesis
    using w by (simp add: py_strip_def py_lstrip_def py_rstrip_def rstrip_by_id)
qed

lemma split_join_comma:
  assumes "ws \<noteq> []" and "\<forall>w\<in>set ws. trimmed w \<and> CHR '','' \<notin> set w"
    and "list_all py_isspace pre" and "CHR '','' \<notin> set pre"
  shows "map py_strip (py_split (CHR '','') (pre @ py_join '', '' ws)) = ws"
  using assms
proof (induction ws arbitrary: pre)
  case Nil
  then show ?case by simp
next
  case (Cons w ws)
  show ?case
  proof (cases "ws = []")
    case True
    with Cons.prems show ?thesis by (simp add: py_split_none strip_trimmed)
  next
    case False
    have sp: "list_all py_isspace '' ''" by (simp add: py_isspace_def code_def)
    have "pre @ py_join '', '' (w # ws) = (pre @ w) @ CHR '','' # ('' '' @ py_join '', '' ws)"
      using False by (simp add: py_join_Cons)
    moreover have "CHR '','' \<notin> set (pre @ w)" using Cons.prems by simp
    ultimately have "py_split (CHR '','') (pre @ py_join '', '' (w # ws)) =
        (pre @ w) # py_split (CHR '','') ('' '' @ py_join '', '' ws)"
      using py_split_append [of "CHR '',''" "pre @ w" "'' '' @ py_join '', '' ws"] by simp
    then show ?thesis
      using Cons.prems Cons.IH [OF False, of "'' ''"] sp by (simp add: strip_trimmed)
  qed
qed

lemma ips_of_nets:
  assumes "ns \<noteq> []" and "list_all (\<lambda>n. noscope (naddr n)) ns"
  shows "ips_of_match (Some (nets_text ns)) = map str_net ns"
proof -
  have w: "\<forall>w\<in>set (map str_net ns). trimmed w \<and> CHR '','' \<notin> set w"
  proof
    fix w assume "w \<in> set (map str_net ns)"
    then have "w \<noteq> []" "list_all ip_char w"
      using assms(2) str_net_chars by (auto simp: list_all_iff)
    then show "trimmed w \<and> CHR '','' \<notin> set w"
      using ip_chars_trimmed ip_char_facts(2) by (auto simp: list_all_iff)
  qed
  have "map py_strip (py_split (CHR '','') (nets_text ns)) = map str_net ns"
    using split_join_comma [of "map str_net ns" "[]"] assms(1) w by (simp add: nets_text_def)
  then show ?thesis by (simp add: ips_of_match_def comp_def)
qed

lemma conf_peers_render:
  "list_all wf_peer ps \<Longrightarrow>
   conf_peers (map peer_text ps) None al = (None, al @ concat (map (\<lambda>p. map str_net (tp_nets p)) ps))"
proof (induction ps arbitrary: al)
  case Nil
  then show ?case by simp
next
  case (Cons p ps)
  then have p: "wf_peer p" and ps: "list_all wf_peer ps" by simp_all
  have e: "re_search_group endpoint_line (peer_text p) = None"
    unfolding endpoint_line_def peer_text_lines
    by (simp add: search_lines [OF plain_keys(2) peer_plain_endpoint(1) [OF p]] peer_plain_endpoint(2) [OF p])
  have f: "re_finditer allowed_ips_line (peer_text p) = [Some (nets_text (tp_nets p))]"
    unfolding allowed_ips_line_def peer_text_lines
    by (simp add: finditer_lines [OF plain_keys(3) peer_plain_ips(1) [OF p]] peer_plain_ips(2) [OF p])
  have i: "ips_of_match (Some (nets_text (tp_nets p))) = map str_net (tp_nets p)"
    using p by (intro ips_of_nets) (simp_all add: wf_peer_def)
  show ?case using e f i Cons.IH [OF ps] by simp
qed

lemma parse_render:
  assumes "wf_tunnel t"
  shows "parse_conf_info (render t) = tunnel_info t"
proof -
  have a: "re_search_group address_line (header_text t) = Some (str_iface (tn_addr t))"
    unfolding address_line_def header_text_lines
    by (simp add: search_lines [OF plain_keys(1) header_plain_address(1) [OF assms]]
        header_plain_address(2) [OF assms])
  have ps: "list_all wf_peer (tn_peers t)" using assms by (simp add: wf_tunnel_def)
  show ?thesis
    using a conf_peers_render [OF ps, of "[]"]
    by (simp add: parse_conf_info_def split_render [OF assms] tunnel_info_def)
qed

section \<open>Peers by key\<close>

lemma contains_length: "py_contains w s \<Longrightarrow> length w \<le> length s"
  by (auto simp: py_contains_iff)

lemma contains_set: "py_contains w s \<Longrightarrow> set w \<subseteq> set s"
  by (auto simp: py_contains_iff)

lemma contains_line:
  assumes "nl \<notin> set w"
  shows "py_contains w (l @ nl # s) \<longleftrightarrow> py_contains w l \<or> py_contains w s"
proof (induction l)
  case Nil
  have "prefix w (nl # s) \<longleftrightarrow> w = []" using assms by (cases w) auto
  then show ?case using assms by (cases w) (auto simp: prefix_Cons)
next
  case (Cons c l)
  have "prefix w (c # l @ nl # s) \<longleftrightarrow> prefix w (c # l)"
    using prefix_line [OF assms, of "c # l" s] by simp
  with Cons show ?case by auto
qed

lemma contains_lines:
  "nl \<notin> set w \<Longrightarrow> w \<noteq> [] \<Longrightarrow> py_contains w (lines_text ls) \<longleftrightarrow> list_ex (py_contains w) ls"
  by (induction ls) (auto simp: lines_text_def contains_line)

lemma has_key_peer:
  assumes "wf_peer p" and "key_core k"
  shows "has_key k (peer_text p) \<longleftrightarrow> k = tp_key p"
proof -
  let ?w = "peer_key_line k"
  have len: "length k = 44" "length (tp_key p) = 44"
    using assms by (simp_all add: wf_peer_def key_core_def)
  have w: "nl \<notin> set ?w" "?w \<noteq> []"
    using key_core_trimmed [OF assms(2)] by (auto simp: peer_key_line_def trimmed_def nl_def)
  have u: "CHR ''u'' \<in> set ?w" by (simp add: peer_key_line_def)
  have ips: "list_all (\<lambda>n. noscope (naddr n)) (tp_nets p)" using assms(1) by (simp add: wf_peer_def)
  have key: "py_contains ?w (''PublicKey = '' @ tp_key p) \<longleftrightarrow> k = tp_key p"
  proof
    assume "py_contains ?w (''PublicKey = '' @ tp_key p)"
    then obtain x y where xy: "''PublicKey = '' @ tp_key p = x @ ?w @ y" by (auto simp: py_contains_iff)
    then have "length (''PublicKey = '' @ tp_key p) = length (x @ ?w @ y)" by (rule arg_cong)
    with len have "x = []" "y = []" by (simp_all add: peer_key_line_def)
    with xy show "k = tp_key p" by (simp add: peer_key_line_def)
  next
    assume "k = tp_key p"
    then have "''PublicKey = '' @ tp_key p = [] @ ?w @ []" by (simp add: peer_key_line_def)
    then show "py_contains ?w (''PublicKey = '' @ tp_key p)" unfolding py_contains_iff by blast
  qed
  have psk: "\<not> py_contains ?w (''PresharedKey = '' @ q)" if "tp_psk p = Some q" for q
  proof -
    have "length q = 44" using that assms(1) by (simp add: wf_peer_def key_core_def)
    then have "\<not> py_contains ?w q"
      using contains_length [of ?w q] len by (auto simp: peer_key_line_def)
    then show ?thesis by (simp add: peer_key_line_def)
  qed
  have a: "\<not> py_contains ?w (''AllowedIPs = '' @ nets_text (tp_nets p))"
  proof
    assume "py_contains ?w (''AllowedIPs = '' @ nets_text (tp_nets p))"
    with u have "CHR ''u'' \<in> set (nets_text (tp_nets p))" using contains_set by fastforce
    then show False using nets_text_chars [OF ips] ip_char_facts(4) by (auto simp: list_all_iff)
  qed
  have ka: "\<not> py_contains ?w (''PersistentKeepalive = '' @ dec_int (tp_keep p))"
  proof
    assume "py_contains ?w (''PersistentKeepalive = '' @ dec_int (tp_keep p))"
    with u have "CHR ''u'' \<in> set (dec_int (tp_keep p))" using contains_set by fastforce
    then show False
      using assms(1) dec_int_ip [of "tp_keep p"] ip_char_facts(4) by (auto simp: list_all_iff wf_peer_def)
  qed
  have pe: "\<not> py_contains ?w ''[Peer]''" by (simp add: peer_key_line_def)
  show ?thesis
    unfolding has_key_def peer_text_lines contains_lines [OF w]
    using key psk a ka pe by (cases "tp_psk p") (simp_all add: peer_lines_def)
qed

lemma filter_peers:
  "list_all wf_peer ps \<Longrightarrow> key_core k \<Longrightarrow>
   filter (\<lambda>b. \<not> has_key k b) (map peer_text ps) = map peer_text (filter (\<lambda>p. tp_key p \<noteq> k) ps)"
  by (induction ps) (auto simp: has_key_peer)

lemma any_peer:
  "list_all wf_peer ps \<Longrightarrow> key_core k \<Longrightarrow>
   list_ex (has_key k) (map peer_text ps) \<longleftrightarrow> k \<in> tp_key ` set ps"
  by (induction ps) (auto simp: has_key_peer)

end
