(* ===== verification/TunnelRefine.thy ===== *)
theory TunnelRefine
  imports TunnelText
begin

text \<open>
  Refinement: the daemon's commands on files implement operations on a map from tunnel names
  to abstract tunnels.

  \<open>represents T h\<close> relates the abstract map to the files of the host.  A request is clean when
  it is what the application sends: keys without a line break, addresses without an IPv6
  scope, an integer keepalive (what happens on the other accepted requests is in
  \<open>HelperGaps\<close>).  \<open>abs_step\<close> says what a clean request means, and the simulation theorems say
  that the command does just that, for every behaviour of the programs it starts.
\<close>

section \<open>Abstract operations\<close>

type_synonym tunnels = "string \<Rightarrow> tunnel option"

datatype hreq =
    Create string tunnel
  | Delete string
  | AddPeer string tun_peer
  | RemovePeer string string

fun abs_step :: "tunnels \<Rightarrow> hreq \<Rightarrow> tunnels" where
  "abs_step T (Create n t) = (case T n of None \<Rightarrow> T(n \<mapsto> t) | Some _ \<Rightarrow> T)"
| "abs_step T (Delete n) = T(n := None)"
| "abs_step T (AddPeer n p) = (case T n of None \<Rightarrow> T
     | Some t \<Rightarrow> if tp_key p \<in> tp_key ` set (tn_peers t) then T
                 else T(n \<mapsto> t\<lparr>tn_peers := tn_peers t @ [p]\<rparr>))"
| "abs_step T (RemovePeer n k) = (case T n of None \<Rightarrow> T
     | Some t \<Rightarrow> T(n \<mapsto> t\<lparr>tn_peers := filter (\<lambda>p. tp_key p \<noteq> k) (tn_peers t)\<rparr>))"

fun refused :: "tunnels \<Rightarrow> hreq \<Rightarrow> exn option" where
  \<comment> \<open>the requests the daemon must refuse, and the reason it gives\<close>
  "refused T (Create n t) = (if T n = None then None else Some (HelperError ''tunnel already exists''))"
| "refused T (Delete n) = None"
| "refused T (AddPeer n p) = (case T n of None \<Rightarrow> Some (HelperError ''tunnel not found'')
     | Some t \<Rightarrow> if tp_key p \<in> tp_key ` set (tn_peers t)
                 then Some (HelperError ''peer already exists'') else None)"
| "refused T (RemovePeer n k) = (case T n of None \<Rightarrow> Some (HelperError ''tunnel not found'')
     | Some t \<Rightarrow> None)"

section \<open>Requests\<close>

definition clean_create :: "jdict \<Rightarrow> string \<Rightarrow> tunnel \<Rightarrow> bool" where
  "clean_create req n t \<longleftrightarrow> jget req ''name'' = JStr n \<and> valid_name n \<and>
     jget req ''private_key'' = JStr (tn_key t) \<and> key_core (tn_key t) \<and>
     json_interface (address_field req) = Some (tn_addr t) \<and> noscope (iaddr (tn_addr t)) \<and>
     jget req ''listen_port'' = JInt (tn_port t) \<and> 1024 \<le> tn_port t \<and> tn_port t \<le> 65535 \<and>
     tn_peers t = []"

definition clean_add :: "jdict \<Rightarrow> string \<Rightarrow> tun_peer \<Rightarrow> bool" where
  "clean_add req n p \<longleftrightarrow> jget req ''tunnel'' = JStr n \<and> valid_name n \<and>
     jget req ''public_key'' = JStr (tp_key p) \<and>
     jget req ''preshared_key'' = opt_str (tp_psk p) \<and>
     (\<exists>es. jget req ''allowed_ips'' = JList es \<and> map json_network es = map Some (tp_nets p)) \<and>
     (jget req ''keepalive'' = JInt (tp_keep p) \<or> jget req ''keepalive'' = JNull \<and> tp_keep p = 0) \<and>
     tp_keep p \<le> 3600 \<and> wf_peer p"

fun clean :: "string \<Rightarrow> jdict \<Rightarrow> hreq \<Rightarrow> bool" where
  "clean c req (Create n t) \<longleftrightarrow> c = ''create_tunnel'' \<and> clean_create req n t"
| "clean c req (Delete n) \<longleftrightarrow> c = ''delete_tunnel'' \<and> jget req ''name'' = JStr n \<and> valid_name n"
| "clean c req (AddPeer n p) \<longleftrightarrow> c = ''add_peer'' \<and> clean_add req n p"
| "clean c req (RemovePeer n k) \<longleftrightarrow> c = ''remove_peer'' \<and> jget req ''tunnel'' = JStr n \<and>
     valid_name n \<and> jget req ''public_key'' = JStr k \<and> key_core k"

definition tunnel_file :: "tunnel \<Rightarrow> pfile" where
  "tunnel_file t = \<lparr>fdata = render t, fmode = 384\<rparr>"

definition represents :: "tunnels \<Rightarrow> 'x host \<Rightarrow> bool" where
  "represents T h \<longleftrightarrow> (\<forall>n. file_at (tmp_path n) h = None) \<and>
     (\<forall>n. file_at (conf_path n) h = map_option tunnel_file (T n)) \<and>
     (\<forall>n t. T n = Some t \<longrightarrow> wf_tunnel t)"

section \<open>Reading and writing a represented file\<close>

lemma code_cr: "code c = 13 \<longleftrightarrow> c = CHR 0x0D"
proof -
  have "code (CHR 0x0D) = 13" by (simp add: code_def)
  then show ?thesis by (metis code_inject)
qed

lemma universal_nl_id: "CHR 0x0D \<notin> set s \<Longrightarrow> universal_nl s = s"
  by (induction s rule: universal_nl.induct) (auto simp: code_cr)

lemma text_no_cr: "list_all text_char s \<Longrightarrow> CHR 0x0D \<notin> set s"
proof -
  have "\<not> text_char (CHR 0x0D)"
    by (simp add: text_char_def ip_char_def b64_char_def is_ascii_alnum_def is_ascii_digit_def
        is_lower_az_def is_upper_az_def code_def)
  then show "list_all text_char s \<Longrightarrow> CHR 0x0D \<notin> set s" by (auto simp: list_all_iff)
qed

lemma render_no_cr:
  assumes "wf_tunnel t"
  shows "CHR 0x0D \<notin> set (render t)"
proof -
  have "CHR 0x0D \<notin> set (peer_text p)" if "wf_peer p" for p
    using wf_peer_text [OF that, THEN text_no_cr]
    by (cases "tp_psk p") (simp_all add: peer_text_def peer_block_def nl_def)
  moreover have "CHR 0x0D \<notin> set (header_text t)"
    using wf_tunnel_text [OF assms, THEN text_no_cr]
    by (simp add: header_text_def tunnel_conf_def nl_def)
  ultimately show ?thesis using assms by (auto simp: render_def wf_tunnel_def list_all_iff nl_def)
qed

lemma represents_conf:
  "represents T h \<Longrightarrow> file_at (conf_path n) h = map_option tunnel_file (T n)"
  by (simp add: represents_def)

lemma represents_wf: "represents T h \<Longrightarrow> T n = Some t \<Longrightarrow> wf_tunnel t"
  unfolding represents_def by blast

lemma represents_tmp: "represents T h \<Longrightarrow> file_at (tmp_path n) h = None"
  by (simp add: represents_def)

lemma represents_cong:
  "represents T h \<Longrightarrow> (\<And>n. file_at (tmp_path n) h' = file_at (tmp_path n) h) \<Longrightarrow>
   (\<And>n. file_at (conf_path n) h' = file_at (conf_path n) h) \<Longrightarrow> represents T h'"
  by (simp add: represents_def)

lemma represents_touch:
  assumes "represents T h" and "touches (\<lambda>p. p = psk_path env) A h h'"
  shows "represents T h'"
proof -
  have "file_at p h' = file_at p h" if "p \<noteq> psk_path env" for p
    using assms(2) that unfolding touches_def by blast
  then show ?thesis using assms(1) by (intro represents_cong [OF assms(1)]) simp_all
qed

lemma conf_path_inject [simp]: "conf_path n = conf_path m \<longleftrightarrow> n = m"
  by (simp add: conf_path_def)

lemma tmp_path_inject [simp]: "tmp_path n = tmp_path m \<longleftrightarrow> n = m"
  by (simp add: tmp_path_def)

lemma read_conf_represents:
  assumes "represents T h"
  shows "read_conf n h = (case T n of None \<Rightarrow> (Inl (HelperError ''tunnel not found''), h)
    | Some t \<Rightarrow> (Inr (render t), h))"
proof -
  have "universal_nl (render t) = render t" if "T n = Some t" for t
    using that represents_wf [OF assms] universal_nl_id render_no_cr by blast
  then show ?thesis
    using represents_conf [OF assms, of n]
    by (cases "T n")
      (simp_all add: read_conf_def bindm_def exists_file_def assertm_def getm_def ret_def tunnel_file_def)
qed

lemma pfile_data: "f\<lparr>fdata := c\<rparr> = \<lparr>fdata = c, fmode = fmode f\<rparr>"
  by (cases f) simp

lemma write_conf_never_fails:
  assumes "never_fails env"
  obtains (written) h' where "has_dir wg_dir h" "write_conf env n c h = (Inr (), h')"
      "\<And>p. file_at p h' = (if p = conf_path n then Some \<lparr>fdata = c, fmode = new_mode n h\<rparr>
         else if p = tmp_path n then None else file_at p h)"
    | (no_dir) "\<not> has_dir wg_dir h" "write_conf env n c h = (Inl io_error, tick h)"
proof (cases "has_dir wg_dir h")
  case False
  have "write_conf env n c h = (Inl io_error, tick h)"
    using assms False
    by (simp add: write_conf_def os_defs bindm_def tmp_path_def never_fails_def)
  with False show ?thesis by (rule no_dir)
next
  case True
  then have d: "has_dir (fst (tmp_path n)) h" by (simp add: tmp_path_def)
  let ?h = "tick (put_data (tmp_path n) c (set_file (tmp_path n) (case file_at (tmp_path n) h of
             None \<Rightarrow> \<lparr>fdata = [], fmode = 384\<rparr> | Some f \<Rightarrow> f\<lparr>fdata := []\<rparr>) (tick h)))"
  have "write_conf env n c h = (Inr (), set_file (conf_path n)
      \<lparr>fdata = c, fmode = new_mode n h\<rparr> (del_file (tmp_path n) (tick ?h)))"
    using assms d
    by (simp add: write_conf_def os_defs bindm_def catchm_def never_fails_def new_mode_def
        pfile_data split: option.split)
  with True show ?thesis by (rule written) simp
qed

lemma represents_update:
  assumes "represents T h" and "wf_tunnel t"
    and "\<And>p. file_at p h' = (if p = conf_path n then Some (tunnel_file t)
         else if p = tmp_path n then None else file_at p h)"
  shows "represents (T(n \<mapsto> t)) h'"
  using assms by (simp add: represents_def)

lemma new_mode_represents: "represents T h \<Longrightarrow> new_mode n h = 384"
  by (simp add: new_mode_def represents_tmp)

text \<open>A rewrite of one tunnel's file, as both peer commands do it.\<close>

lemma write_conf_represents:
  assumes "never_fails env" and "represents T h" and "T n = Some t" and "list_all wf_peer ps"
  defines "r \<equiv> write_conf env n (rebuild_conf (header_text t) (map peer_text ps)) h"
  shows "fst r = Inr () \<and> represents (T(n \<mapsto> t\<lparr>tn_peers := ps\<rparr>)) (snd r) \<or>
    r = (Inl io_error, tick h)"
proof -
  have t: "wf_tunnel t" using represents_wf [OF assms(2,3)] .
  then have t': "wf_tunnel (t\<lparr>tn_peers := ps\<rparr>)" using assms(4) by (simp add: wf_tunnel_def)
  show ?thesis
  proof (rule write_conf_never_fails [OF assms(1), where n = n and h = h and
        c = "rebuild_conf (header_text t) (map peer_text ps)"])
    fix h'
    assume w: "write_conf env n (rebuild_conf (header_text t) (map peer_text ps)) h = (Inr (), h')"
      and f: "\<And>p. file_at p h' = (if p = conf_path n
        then Some \<lparr>fdata = rebuild_conf (header_text t) (map peer_text ps), fmode = new_mode n h\<rparr>
        else if p = tmp_path n then None else file_at p h)"
    have "represents (T(n \<mapsto> t\<lparr>tn_peers := ps\<rparr>)) h'"
      using assms(2) t'
    proof (rule represents_update)
      fix p
      show "file_at p h' = (if p = conf_path n
          then Some (tunnel_file (t\<lparr>tn_peers := ps\<rparr>))
          else if p = tmp_path n then None else file_at p h)"
        unfolding f new_mode_represents [OF assms(2)] rebuild_header [OF t assms(4)] tunnel_file_def ..
    qed
    with w show ?thesis by (simp add: r_def)
  qed (simp add: r_def)
qed

section \<open>The commands\<close>

text \<open>
  \<open>refines T a r\<close>: the outcome \<open>r\<close> of a command is right for the abstract request \<open>a\<close> in state
  \<open>T\<close>.  A refused request leaves everything as it is and gives its reason; a request that goes
  through has its abstract effect; an error of the system leaves the old state or, when it
  comes from a program run after the file was written, the new one.
\<close>

definition refines :: "tunnels \<Rightarrow> hreq \<Rightarrow> (exn + jdict) \<times> 'x host \<Rightarrow> bool" where
  "refines T a r \<longleftrightarrow> (case refused T a of
     Some e \<Rightarrow> fst r = Inl e \<and> represents T (snd r)
   | None \<Rightarrow> (case fst r of Inr d \<Rightarrow> d = [] \<and> represents (abs_step T a) (snd r)
              | Inl e \<Rightarrow> represents T (snd r) \<or> represents (abs_step T a) (snd r)))"

lemma valid_key_core: "key_core k \<Longrightarrow> valid_key k"
  by (auto simp: valid_key_def or_nl_def)

lemma validate_key_core: "key_core k \<Longrightarrow> validate_wg_key (JStr k) f = Inr k"
  by (simp add: validate_wg_key_iff valid_key_core)

lemma validate_name_ok: "valid_name n \<Longrightarrow> validate_tunnel_name (JStr n) = Inr n"
  by (simp add: validate_tunnel_name_iff)

lemma liftr_Inr: "liftr (Inr x) = ret x"
  by (simp add: fun_eq_iff liftr_def ret_def)

lemma assertm_True: "assertm True e = ret ()"
  by (simp add: fun_eq_iff assertm_def ret_def)

lemma exists_bind: "bindm (exists_file p) f h = f (file_at p h \<noteq> None) h"
  by (simp add: bindm_def exists_file_def)

lemma live_add_quiet:
  "keeps (touches (\<lambda>p. p = psk_path env) (\<lambda>_. True)) (live_add env args psk)"
  by (rule touch_live_add) simp_all

lemma read_bind_represents:
  assumes "represents T h"
  shows "bindm (read_conf n) f h = (case T n of None \<Rightarrow> (Inl (HelperError ''tunnel not found''), h)
    | Some t \<Rightarrow> f (render t) h)"
  using read_conf_represents [OF assms, of n] by (cases "T n") (simp_all add: bindm_def)

text \<open>The end of both peer commands: the file is rewritten, then the interface is told.\<close>

lemma write_then_live:
  assumes "never_fails env" and "represents T h" and "T n = Some t" and "list_all wf_peer ps"
    and "\<And>h'. keeps (touches (\<lambda>p. p = psk_path env) A) (m h')"
  shows "case bindm (write_conf env n (rebuild_conf (header_text t) (map peer_text ps)))
      (\<lambda>_. bindm (is_interface_up env n) (\<lambda>up. bindm (m up) (\<lambda>_. ret ([] :: jdict)))) h of
    (Inr d, h') \<Rightarrow> d = [] \<and> represents (T(n \<mapsto> t\<lparr>tn_peers := ps\<rparr>)) h'
  | (Inl e, h') \<Rightarrow> represents T h' \<or> represents (T(n \<mapsto> t\<lparr>tn_peers := ps\<rparr>)) h'"
proof -
  let ?T' = "T(n \<mapsto> t\<lparr>tn_peers := ps\<rparr>)"
  let ?w = "write_conf env n (rebuild_conf (header_text t) (map peer_text ps))"
  let ?rest = "bindm (is_interface_up env n) (\<lambda>up. bindm (m up) (\<lambda>_. ret ([] :: jdict)))"
  from write_conf_represents [OF assms(1-4)]
  consider h1 where "?w h = (Inr (), h1)" "represents ?T' h1" | "?w h = (Inl io_error, tick h)"
    by (metis prod.collapse)
  then show ?thesis
  proof cases
    case 1
    have "keeps (touches (\<lambda>p. p = psk_path env) A) ?rest"
      by (intro touch_rules touch_if_up assms(5))
    then have "touches (\<lambda>p. p = psk_path env) A h1 (snd (?rest h1))" by (simp add: keeps_def)
    with 1(2) have r: "represents ?T' (snd (?rest h1))" by (rule represents_touch)
    have "fst (?rest h1) = Inr d \<Longrightarrow> d = []" for d
      by (auto simp: bindm_def ret_def is_interface_up_def getm_def split: prod.splits sum.splits)
    with r 1(1) show ?thesis
      by (cases "?rest h1") (auto simp: bindm_Inr split: sum.splits)
  next
    case 2
    have "represents T (tick h)" by (rule represents_cong [OF assms(2)]) simp_all
    with 2 show ?thesis by (simp add: bindm_def)
  qed
qed

lemma create_raw:
  assumes "never_fails env" and "validate_tunnel_name (jget req ''name'') = Inr n"
    and "validate_wg_key (jget req ''private_key'') ''private_key'' = Inr k"
    and "json_interface (address_field req) = Some a" and "port_of (jget req ''listen_port'') = Inr port"
  shows "if file_at (conf_path n) h = None
    then fst (cmd_create_tunnel env req h) = Inr [] \<and>
      (\<forall>p. file_at p (snd (cmd_create_tunnel env req h)) =
        (if p = conf_path n then Some \<lparr>fdata = tunnel_conf k (str_iface a) port, fmode = 384\<rparr>
         else file_at p h))
    else cmd_create_tunnel env req h = (Inl (HelperError ''tunnel already exists''), h)"
proof -
  let ?c = "tunnel_conf k (str_iface a) port"
  let ?rest = "bindm (os_mkdir env wg_dir 448) (\<lambda>_. bindm (os_chmod_dir env wg_dir 448) (\<lambda>_.
      bindm (create_file env (conf_path n) ?c) (\<lambda>_. ret ([] :: jdict))))"
  have eq: "cmd_create_tunnel env req h =
      (if file_at (conf_path n) h = None then ?rest h else (Inl (HelperError ''tunnel already exists''), h))"
    unfolding cmd_create_tunnel_eq assms(2-5) option.case
    by (simp add: liftr_Inr exists_bind assertm_bind)
  show ?thesis
  proof (cases "file_at (conf_path n) h = None")
    case True
    define h1 where "h1 = snd (os_mkdir env wg_dir 448 h)"
    define h2 where "h2 = snd (os_chmod_dir env wg_dir 448 h1)"
    have m: "os_mkdir env wg_dir 448 h = (Inr (), h1)" "has_dir wg_dir h1"
      using assms(1) by (auto simp: h1_def os_defs never_fails_def has_dir_def)
    then have ch: "os_chmod_dir env wg_dir 448 h1 = (Inr (), h2)" "has_dir wg_dir h2"
      using assms(1) by (auto simp: h2_def os_defs never_fails_def has_dir_def tick_def)
    have f: "file_at p h2 = file_at p h" for p
      using assms(1) by (simp add: h1_def h2_def os_defs never_fails_def)
    let ?h3 = "tick (put_data (conf_path n) ?c
        (set_file (conf_path n) \<lparr>fdata = [], fmode = 384\<rparr> (tick h2)))"
    have "create_file env (conf_path n) ?c h2 = (Inr (), ?h3)"
      using ch True f by (intro create_file_never_fails assms(1)) (simp_all add: conf_path_def)
    then have "?rest h = (Inr [], ?h3)"
      using m ch by (simp add: bindm_def ret_def)
    then show ?thesis using eq True f by simp
  next
    case False
    then have "cmd_create_tunnel env req h = (Inl (HelperError ''tunnel already exists''), h)"
      using eq by (simp only: if_False)
    with False show ?thesis by (simp only: if_False)
  qed
qed

lemma create_result:
  assumes "never_fails env" and "represents T h" and "clean_create req n t"
  shows "if T n = None
    then fst (cmd_create_tunnel env req h) = Inr [] \<and>
      represents (T(n \<mapsto> t)) (snd (cmd_create_tunnel env req h))
    else cmd_create_tunnel env req h = (Inl (HelperError ''tunnel already exists''), h)"
proof -
  note c = assms(3) [unfolded clean_create_def]
  have port: "port_of (jget req ''listen_port'') = Inr (tn_port t)" using c by (simp add: port_of_def)
  have wf: "wf_tunnel t" using c by (simp add: wf_tunnel_def)
  have tf: "\<lparr>fdata = tunnel_conf (tn_key t) (str_iface (tn_addr t)) (tn_port t), fmode = 384\<rparr> = tunnel_file t"
    using c by (simp add: tunnel_file_def render_def header_text_def)
  have nk: "validate_tunnel_name (jget req ''name'') = Inr n"
      "validate_wg_key (jget req ''private_key'') ''private_key'' = Inr (tn_key t)"
      "json_interface (address_field req) = Some (tn_addr t)"
    using c by (simp_all add: validate_name_ok validate_key_core)
  note raw = create_raw [OF assms(1) nk port, of h, unfolded tf]
  have none: "file_at (conf_path n) h = None \<longleftrightarrow> T n = None"
    using represents_conf [OF assms(2), of n] by simp
  show ?thesis
  proof (cases "T n = None")
    case True
    with raw none have r: "fst (cmd_create_tunnel env req h) = Inr []"
        "\<And>p. file_at p (snd (cmd_create_tunnel env req h)) =
          (if p = conf_path n then Some (tunnel_file t) else file_at p h)"
      by (simp_all del: split_paired_All)
    have "represents (T(n \<mapsto> t)) (snd (cmd_create_tunnel env req h))"
      by (rule represents_update [OF assms(2) wf]) (use r(2) represents_tmp [OF assms(2)] in simp)
    with r(1) True show ?thesis by simp
  next
    case False
    with raw none show ?thesis by (simp only: if_False)
  qed
qed

lemma create_refines:
  assumes "never_fails env" and "represents T h" and "clean_create req n t"
  shows "refines T (Create n t) (cmd_create_tunnel env req h)"
  using create_result [OF assms] assms(2) by (auto simp: refines_def split: if_splits)

lemma optional_key_clean:
  "(\<forall>k. psk = Some k \<longrightarrow> key_core k) \<Longrightarrow> optional_key (opt_str psk) = Inr psk"
  by (cases psk) (simp_all add: optional_key_def opt_str_def validate_key_core)

lemma allowed_clean:
  assumes "map json_network es = map Some nets" and "nets \<noteq> []"
  shows "validate_allowed_ips (JList es) = Inr (nets_text nets)"
proof -
  have "es \<noteq> []" using assms by auto
  then show ?thesis using assms(1) by (auto simp: validate_allowed_ips_iff nets_text_def)
qed

lemma add_eq:
  assumes "represents T h" and "clean_add req n p"
  defines "args \<equiv> wg_set_args n (tp_key p) (nets_text (tp_nets p)) (jget req ''keepalive'')"
  shows "cmd_add_peer env req h = (case T n of None \<Rightarrow> (Inl (HelperError ''tunnel not found''), h)
     | Some t \<Rightarrow> if tp_key p \<in> tp_key ` set (tn_peers t) then (Inl (HelperError ''peer already exists''), h)
        else bindm (write_conf env n (rebuild_conf (header_text t) (map peer_text (tn_peers t @ [p]))))
          (\<lambda>_. bindm (is_interface_up env n) (\<lambda>up.
             bindm (if up then live_add env args (tp_psk p) else ret ()) (\<lambda>_. ret []))) h)"
proof -
  note c = assms(2) [unfolded clean_add_def]
  have wf: "wf_peer p" using c by blast
  then have w: "key_core (tp_key p)" "\<forall>k. tp_psk p = Some k \<longrightarrow> key_core k" "tp_nets p \<noteq> []"
    by (auto simp: wf_peer_def)
  from c obtain es where es: "jget req ''allowed_ips'' = JList es"
      "map json_network es = map Some (tp_nets p)" by blast
  let ?ka = "jget req ''keepalive''"
  have ka: "keepalive_ok ?ka" using c wf by (auto simp: keepalive_ok_def wf_peer_def)
  have blk: "peer_block (tp_key p) (tp_psk p) (nets_text (tp_nets p)) ?ka = peer_text p"
    using c by (auto simp: peer_text_def peer_block_def)
  show ?thesis
  proof (cases "T n")
    case None
    then show ?thesis
      unfolding cmd_add_peer_def args_def using c es w ka
      by (simp add: validate_name_ok validate_key_core liftr_Inr allowed_clean [OF es(2) w(3)]
          optional_key_clean assertm_True read_bind_represents [OF assms(1)])
  next
    case (Some t)
    have t: "wf_tunnel t" using represents_wf [OF assms(1) Some] .
    then have ps: "list_all wf_peer (tn_peers t)" by (simp add: wf_tunnel_def)
    show ?thesis
      unfolding cmd_add_peer_def args_def using c es w ka Some
      by (simp add: validate_name_ok validate_key_core liftr_Inr allowed_clean [OF es(2) w(3)]
          optional_key_clean assertm_True read_bind_represents [OF assms(1)] split_render [OF t]
          any_peer [OF ps w(1)] assertm_bind blk)
  qed
qed

lemma add_refines:
  assumes "never_fails env" and "represents T h" and "clean_add req n p"
  shows "refines T (AddPeer n p) (cmd_add_peer env req h)"
proof -
  have wf: "wf_peer p" using assms(3) by (simp add: clean_add_def)
  let ?args = "wg_set_args n (tp_key p) (nets_text (tp_nets p)) (jget req ''keepalive'')"
  let ?live = "\<lambda>up. if up then live_add env ?args (tp_psk p) else ret ()"
  note eq = add_eq [OF assms(2,3), of env]
  show ?thesis
  proof (cases "T n")
    case None
    then show ?thesis using eq assms(2) by (simp add: refines_def)
  next
    case (Some t)
    have ps: "list_all wf_peer (tn_peers t @ [p])"
      using represents_wf [OF assms(2) Some] wf by (simp add: wf_tunnel_def)
    have live: "keeps (touches (\<lambda>q. q = psk_path env) (\<lambda>_. True)) (?live up)" for up
      by (simp add: live_add_quiet touch_rules)
    show ?thesis
      using eq Some assms(2) write_then_live [where m = ?live, OF assms(1,2) Some ps live]
      by (auto simp: refines_def split: prod.splits sum.splits)
  qed
qed

lemma remove_refines:
  assumes "never_fails env" and "represents T h" and "clean ''remove_peer'' req (RemovePeer n k)"
  shows "refines T (RemovePeer n k) (cmd_remove_peer env req h)"
proof -
  from assms(3) have c: "jget req ''tunnel'' = JStr n" "valid_name n"
      "jget req ''public_key'' = JStr k" "key_core k" by simp_all
  let ?live = "\<lambda>up. if up then bindm (checked_run env [''wg'', ''set'', n, ''peer'', k, ''remove'']
      None ''wg set remove'') (\<lambda>_. ret ()) else ret ()"
  let ?kept = "\<lambda>t. filter (\<lambda>p. tp_key p \<noteq> k) (tn_peers t)"
  have eq: "cmd_remove_peer env req h = (case T n of None \<Rightarrow> (Inl (HelperError ''tunnel not found''), h)
     | Some t \<Rightarrow> bindm (write_conf env n (rebuild_conf (header_text t) (map peer_text (?kept t))))
          (\<lambda>_. bindm (is_interface_up env n) (\<lambda>up. bindm (?live up) (\<lambda>_. ret []))) h)"
  proof (cases "T n")
    case None
    then show ?thesis
      unfolding cmd_remove_peer_def using c
      by (simp add: validate_name_ok validate_key_core liftr_Inr read_bind_represents [OF assms(2)])
  next
    case (Some t)
    have t: "wf_tunnel t" using represents_wf [OF assms(2) Some] .
    then have ps: "list_all wf_peer (tn_peers t)" by (simp add: wf_tunnel_def)
    show ?thesis
      unfolding cmd_remove_peer_def using c Some
      by (simp add: validate_name_ok validate_key_core liftr_Inr read_bind_represents [OF assms(2)]
          split_render [OF t] filter_peers [OF ps c(4)])
  qed
  show ?thesis
  proof (cases "T n")
    case None
    then show ?thesis using eq assms(2) by (simp add: refines_def)
  next
    case (Some t)
    have ps: "list_all wf_peer (?kept t)"
      using represents_wf [OF assms(2) Some] by (auto simp: wf_tunnel_def list_all_iff)
    have live: "keeps (touches (\<lambda>q. q = psk_path env) (\<lambda>_. True)) (?live up)" for up
      by (auto intro!: touch_rules touch_checked_run)
    show ?thesis
      using eq Some assms(2) write_then_live [where m = ?live, OF assms(1,2) Some ps live]
      by (auto simp: refines_def split: prod.splits sum.splits)
  qed
qed

lemma delete_refines:
  assumes "never_fails env" and "represents T h" and "clean ''delete_tunnel'' req (Delete n)"
  shows "refines T (Delete n) (cmd_delete_tunnel env req h)"
proof -
  from assms(3) have c: "jget req ''name'' = JStr n" "valid_name n" by simp_all
  let ?run = "run_prog env [''systemctl'', ''disable'', ''--now'', unit_name n] None"
  have f: "file_at p (snd (?run h)) = file_at p h" for p
    by (auto simp: run_prog_def file_at_def Let_def split: prod.splits option.splits)
  have eq: "cmd_delete_tunnel env req h = (case ?run h of (Inl e, h') \<Rightarrow> (Inl e, h')
     | (Inr _, h') \<Rightarrow> (Inr [], del_file (conf_path n) (tick h')))"
    unfolding cmd_delete_tunnel_def using c assms(1)
    by (simp add: validate_name_ok liftr_Inr bindm_def os_defs never_fails_def ret_def
        split: prod.split sum.split)
  have r: "represents T (snd (?run h))" by (rule represents_cong [OF assms(2)]) (simp_all add: f)
  then have "represents (T(n := None)) (del_file (conf_path n) (tick (snd (?run h))))"
    by (auto simp: represents_def)
  with r eq show ?thesis
    by (auto simp: refines_def split: prod.splits sum.splits)
qed

end
