(* ===== verification/HelperProps.thy ===== *)
theory HelperProps
  imports TunnelRefine
begin

text \<open>
  The properties of the helper daemon as a whole: the refinement of the abstract tunnels over
  single requests and over runs, what a status request reports, what starting and stopping
  does, and the exact language of the validators.
\<close>

section \<open>Refinement over runs\<close>

lemma dispatch_clean:
  assumes "clean c req a" and "helper_dispatch c = Some handler"
  shows "handler = (case a of Create _ _ \<Rightarrow> cmd_create_tunnel | Delete _ \<Rightarrow> cmd_delete_tunnel
    | AddPeer _ _ \<Rightarrow> cmd_add_peer | RemovePeer _ _ \<Rightarrow> cmd_remove_peer)"
  using assms by (cases a) (auto simp: helper_dispatch_def)

lemma clean_dispatch_refines:
  assumes "never_fails env" and "represents T h" and "clean c req a"
    and "helper_dispatch c = Some handler"
  shows "refines T a (handler env req h)"
proof (cases a)
  case (Create n t)
  with assms show ?thesis using dispatch_clean [OF assms(3,4)] by (simp add: create_refines)
next
  case (Delete n)
  with assms show ?thesis using dispatch_clean [OF assms(3,4)] by (simp add: delete_refines)
next
  case (AddPeer n p)
  with assms show ?thesis using dispatch_clean [OF assms(3,4)] by (simp add: add_refines)
next
  case (RemovePeer n k)
  with assms show ?thesis using dispatch_clean [OF assms(3,4)] by (simp add: remove_refines)
qed

text \<open>C1: on the clean requests that change tunnels, each command of the daemon does on the files
  exactly what the abstract operation does on the map of tunnels: a refused request gives its
  reason and changes nothing, a successful one has its abstract effect on the text of the one
  configuration file and returns an empty result, and a failing program leaves the old or the
  new state, never a third one.\<close>

theorem helper_refines:
  assumes "never_fails env" and "represents T h" and "clean c req a"
    and "helper_dispatch c = Some handler"
  shows "refines T a (handler env req h)"
  by (rule clean_dispatch_refines [OF assms])

definition key_a :: string where
  "key_a = ''AAAAAAAAAAAAAAAAAAAAAAAAAAAAAAAAAAAAAAAAAAA=''"

definition key_b :: string where
  "key_b = ''BBBBBBBBBBBBBBBBBBBBBBBBBBBBBBBBBBBBBBBBBBA=''"

lemma key_core_ab: "key_core key_a" "key_core key_b"
  by (code_simp, code_simp)

definition addr_a :: ipiface where
  "addr_a = \<lparr>iaddr = addr_of_int V4 167772161, inet = mk_net (addr_of_int V4 167772161) 24\<rparr>"

definition tunnel_a :: tunnel where
  \<comment> \<open>the server tunnel \<open>wg0\<close> at 10.0.0.1/24, port 51820\<close>
  "tunnel_a = \<lparr>tn_key = key_a, tn_addr = addr_a, tn_port = 51820, tn_peers = []\<rparr>"

definition create_req_a :: jdict where
  "create_req_a = [(''cmd'', JStr ''create_tunnel''), (''name'', JStr ''wg0''),
     (''private_key'', JStr key_a), (''address'', JStr ''10.0.0.1/24''), (''listen_port'', JInt 51820)]"

lemma represents_empty: "represents (\<lambda>_. None) empty_host"
  by (simp add: represents_def file_at_def empty_host_def)

lemma valid_wg0: "valid_name ''wg0''"
proof -
  have "name_core ''wg0''" by code_simp
  then show ?thesis by (auto simp: valid_name_def or_nl_def)
qed

lemma clean_a: "clean ''create_tunnel'' create_req_a (Create ''wg0'' tunnel_a)"
proof -
  have "ip_interface ''10.0.0.1/24'' = Some addr_a" by code_simp
  then show ?thesis
    using key_core_ab(1) valid_wg0
    by (simp add: clean_create_def create_req_a_def tunnel_a_def jget_def address_field_def
        json_interface_def noscope_def addr_a_def addr_of_int_def)
qed

theorem helper_refines_witness:
  "refines (\<lambda>_. None) (Create ''wg0'' tunnel_a) (cmd_create_tunnel quiet_env create_req_a empty_host)"
  by (rule helper_refines [OF quiet_never_fails represents_empty clean_a])
    (simp add: helper_dispatch_def)

section \<open>Requests in odd forms, and invalid ones\<close>

text \<open>The validators let four forms through that the program does not intend, \<open>HelperGaps\<close> evaluates
  them: a key with a final line break, an address or a network with an IPv6 scope, and a boolean
  keepalive.  Every other request that edits tunnels is either clean or invalid: then a validator
  refuses it, whatever the state.\<close>

definition odd_key :: "json \<Rightarrow> bool" where
  "odd_key v = (case v of JStr s \<Rightarrow> valid_key s \<and> \<not> key_core s | _ \<Rightarrow> False)"

definition scoped :: "json \<Rightarrow> bool" where
  "scoped v = (case json_interface v of None \<Rightarrow> False | Some i \<Rightarrow> \<not> noscope (iaddr i) \<or> \<not> noscope (naddr (inet i)))"

definition odd_form :: "string \<Rightarrow> jdict \<Rightarrow> bool" where
  "odd_form c req \<longleftrightarrow>
     c = ''create_tunnel'' \<and> (odd_key (jget req ''private_key'') \<or> scoped (address_field req)) \<or>
     c = ''add_peer'' \<and> (odd_key (jget req ''public_key'') \<or> odd_key (jget req ''preshared_key'') \<or>
       (case jget req ''allowed_ips'' of JList es \<Rightarrow> list_ex scoped es | _ \<Rightarrow> False) \<or>
       (case jget req ''keepalive'' of JBool _ \<Rightarrow> True | _ \<Rightarrow> False)) \<or>
     c = ''remove_peer'' \<and> odd_key (jget req ''public_key'')"

definition first_error :: "(exn + unit) list \<Rightarrow> exn option" where
  "first_error rs = (case List.map_filter (\<lambda>r. case r of Inl e \<Rightarrow> Some e | Inr _ \<Rightarrow> None) rs of
     [] \<Rightarrow> None | e # _ \<Rightarrow> Some e)"

definition checked :: "exn + 'a \<Rightarrow> exn + unit" where
  "checked r = (case r of Inl e \<Rightarrow> Inl e | Inr _ \<Rightarrow> Inr ())"

definition invalid :: "string \<Rightarrow> jdict \<Rightarrow> exn option" where
  \<comment> \<open>the error of the first validator that refuses a field\<close>
  "invalid c req = first_error
     (if c = ''create_tunnel''
      then [checked (validate_tunnel_name (jget req ''name'')),
        checked (validate_wg_key (jget req ''private_key'') ''private_key''),
        (if json_interface (address_field req) = None then Inl (HelperError ''invalid address'') else Inr ()),
        checked (port_of (jget req ''listen_port''))]
      else if c = ''delete_tunnel'' then [checked (validate_tunnel_name (jget req ''name''))]
      else if c = ''add_peer''
      then [checked (validate_tunnel_name (jget req ''tunnel'')),
        checked (validate_wg_key (jget req ''public_key'') ''public_key''),
        checked (validate_allowed_ips (jget req ''allowed_ips'')),
        checked (optional_key (jget req ''preshared_key'')),
        (if keepalive_ok (jget req ''keepalive'') then Inr () else Inl (HelperError ''invalid keepalive''))]
      else if c = ''remove_peer''
      then [checked (validate_tunnel_name (jget req ''tunnel'')),
        checked (validate_wg_key (jget req ''public_key'') ''public_key'')]
      else [])"

lemma first_error_simps [simp]:
  "first_error [] = None" "first_error (Inl e # rs) = Some e" "first_error (Inr u # rs) = first_error rs"
  by (simp_all add: first_error_def List.map_filter_def)

lemma checked_simps [simp]: "checked (Inl e) = Inl e" "checked (Inr x) = Inr ()"
  by (simp_all add: checked_def)

lemma command_cases:
  assumes "helper_dispatch c = Some handler"
  obtains "c = ''create_tunnel''" "handler = cmd_create_tunnel" | "c = ''delete_tunnel''" "handler = cmd_delete_tunnel"
    | "c = ''add_peer''" "handler = cmd_add_peer" | "c = ''remove_peer''" "handler = cmd_remove_peer"
    | "c \<in> {''genkey'', ''tunnel_status'', ''set_tunnel_state''}"
  using assms by (auto simp: helper_dispatch_def split: if_splits)

lemma invalid_refused:
  assumes "invalid c req = Some e" and "helper_dispatch c = Some handler"
  shows "handler env req h = (Inl e, h)"
proof -
  note s = invalid_def liftr_bind assertm_bind
  show ?thesis
    using assms(2)
  proof (cases rule: command_cases)
    case 1
    then show ?thesis using assms(1)
      by (cases "validate_tunnel_name (jget req ''name'')"; cases "validate_wg_key (jget req ''private_key'') ''private_key''";
          cases "json_interface (address_field req)"; cases "port_of (jget req ''listen_port'')")
        (simp_all add: s cmd_create_tunnel_def)
  next
    case 2
    then show ?thesis using assms(1)
      by (cases "validate_tunnel_name (jget req ''name'')") (simp_all add: s cmd_delete_tunnel_def)
  next
    case 3
    then show ?thesis using assms(1)
      by (cases "validate_tunnel_name (jget req ''tunnel'')"; cases "validate_wg_key (jget req ''public_key'') ''public_key''";
          cases "validate_allowed_ips (jget req ''allowed_ips'')"; cases "optional_key (jget req ''preshared_key'')")
        (simp_all add: s cmd_add_peer_def split: if_splits)
  next
    case 4
    then show ?thesis using assms(1)
      by (cases "validate_tunnel_name (jget req ''tunnel'')"; cases "validate_wg_key (jget req ''public_key'') ''public_key''")
        (simp_all add: s cmd_remove_peer_def)
  qed (use assms(1) in \<open>auto simp: invalid_def\<close>)
qed

lemma checked_Inr: "checked r = Inr () \<longleftrightarrow> (\<exists>x. r = Inr x)"
  by (cases r) simp_all

lemma first_error_None: "first_error rs = None \<longleftrightarrow> list_all (\<lambda>r. r = Inr ()) rs"
proof (induction rs)
  case (Cons r rs)
  then show ?case by (cases r) simp_all
qed simp

lemma plain_key: "validate_wg_key v f = Inr k \<Longrightarrow> \<not> odd_key v \<Longrightarrow> v = JStr k \<and> key_core k"
  by (auto simp: validate_wg_key_iff odd_key_def)

lemma plain_optional_key:
  "optional_key v = Inr psk \<Longrightarrow> \<not> odd_key v \<Longrightarrow> v = opt_str psk \<and> (\<forall>k. psk = Some k \<longrightarrow> key_core k)"
  by (auto simp: optional_key_def opt_str_def dest: plain_key split: if_splits sum.splits)

lemma unscoped_nets:
  "map json_network es = map Some nets \<Longrightarrow> \<not> list_ex scoped es \<Longrightarrow> list_all (\<lambda>n. noscope (naddr n)) nets"
proof (induction es arbitrary: nets)
  case (Cons e es)
  then obtain n ns where n: "nets = n # ns" "json_network e = Some n" "map json_network es = map Some ns"
    by (auto simp: Cons_eq_map_conv)
  with Cons show ?case by (auto simp: json_network_def scoped_def)
qed simp

lemma clean_or_invalid:
  assumes "c \<in> {''create_tunnel'', ''delete_tunnel'', ''add_peer'', ''remove_peer''}"
    and "\<not> odd_form c req" and "invalid c req = None"
  shows "\<exists>a. clean c req a"
proof -
  note v = assms(3) [unfolded invalid_def first_error_None]
  consider "c = ''create_tunnel''" | "c = ''delete_tunnel''" | "c = ''add_peer''" | "c = ''remove_peer''"
    using assms(1) by blast
  then show ?thesis
  proof cases
    case 1
    with v obtain n k i p where f: "validate_tunnel_name (jget req ''name'') = Inr n"
        "validate_wg_key (jget req ''private_key'') ''private_key'' = Inr k"
        "json_interface (address_field req) = Some i" "port_of (jget req ''listen_port'') = Inr p"
      by (auto simp: checked_Inr split: if_splits)
    have "jget req ''private_key'' = JStr k \<and> key_core k" "noscope (iaddr i)"
      using 1 assms(2) f plain_key [OF f(2)] by (auto simp: odd_form_def scoped_def)
    moreover have "jget req ''listen_port'' = JInt p" "1024 \<le> p" "p \<le> 65535"
      using f(4) by (auto simp: port_of_def split: json.splits if_splits)
    ultimately show ?thesis
      using 1 f by (intro exI [of _ "Create n \<lparr>tn_key = k, tn_addr = i, tn_port = p, tn_peers = []\<rparr>"])
        (simp add: clean_create_def validate_tunnel_name_iff)
  next
    case 2
    with v obtain n where "validate_tunnel_name (jget req ''name'') = Inr n" by (auto simp: checked_Inr)
    with 2 show ?thesis by (intro exI [of _ "Delete n"]) (simp add: validate_tunnel_name_iff)
  next
    case 3
    with v obtain n k ips psk where f: "validate_tunnel_name (jget req ''tunnel'') = Inr n"
        "validate_wg_key (jget req ''public_key'') ''public_key'' = Inr k"
        "validate_allowed_ips (jget req ''allowed_ips'') = Inr ips" "optional_key (jget req ''preshared_key'') = Inr psk"
        "keepalive_ok (jget req ''keepalive'')"
      by (auto simp: checked_Inr split: if_splits)
    from f(3) obtain es nets where es: "jget req ''allowed_ips'' = JList es" "es \<noteq> []"
        "map json_network es = map Some nets" by (auto simp: validate_allowed_ips_iff)
    obtain ka where ka: "jget req ''keepalive'' = JInt ka \<or> jget req ''keepalive'' = JNull \<and> ka = 0" "0 \<le> ka" "ka \<le> 3600"
      using 3 assms(2) f(5) by (auto simp: odd_form_def keepalive_ok_def split: json.splits)
    have "jget req ''public_key'' = JStr k \<and> key_core k"
        "jget req ''preshared_key'' = opt_str psk \<and> (\<forall>k. psk = Some k \<longrightarrow> key_core k)"
      using 3 assms(2) plain_key [OF f(2)] plain_optional_key [OF f(4)] by (auto simp: odd_form_def)
    moreover have "list_all (\<lambda>n. noscope (naddr n)) nets" "nets \<noteq> []"
      using 3 assms(2) es unscoped_nets [OF es(3)] by (auto simp: odd_form_def)
    ultimately show ?thesis
      using 3 f(1) es ka
      by (intro exI [of _ "AddPeer n \<lparr>tp_key = k, tp_psk = psk, tp_nets = nets, tp_keep = ka\<rparr>"])
        (simp add: clean_add_def wf_peer_def validate_tunnel_name_iff)
  next
    case 4
    with v obtain n k where f: "validate_tunnel_name (jget req ''tunnel'') = Inr n"
        "validate_wg_key (jget req ''public_key'') ''public_key'' = Inr k"
      by (auto simp: checked_Inr)
    with 4 assms(2) plain_key [OF f(2)] show ?thesis
      by (intro exI [of _ "RemovePeer n k"]) (auto simp: odd_form_def validate_tunnel_name_iff)
  qed
qed

section \<open>Runs\<close>

inductive helper_run :: "'x env \<Rightarrow> 'x host \<Rightarrow> 'x host \<Rightarrow> bool" for env where
  run_refl: "helper_run env h h"
| run_step: "helper_run env h h1 \<Longrightarrow> \<not> odd_form c req \<Longrightarrow> helper_dispatch c = Some handler \<Longrightarrow>
    helper_run env h (snd (handler env req h1))"

definition sound_tunnel :: "tunnel \<Rightarrow> bool" where
  "sound_tunnel t \<longleftrightarrow> wf_tunnel t \<and> distinct (map tp_key (tn_peers t)) \<and>
     1024 \<le> tn_port t \<and> tn_port t \<le> 65535"

definition sound :: "tunnels \<Rightarrow> bool" where
  "sound T \<longleftrightarrow> (\<forall>n t. T n = Some t \<longrightarrow> valid_name n \<and> sound_tunnel t)"

lemma sound_step:
  assumes "sound T" and "clean c req a"
  shows "sound (abs_step T a)"
proof (cases a)
  case (Create n t)
  then have "valid_name n" "sound_tunnel t"
    using assms(2) by (auto simp: clean_create_def sound_tunnel_def wf_tunnel_def)
  with Create assms(1) show ?thesis by (auto simp: sound_def split: option.splits)
next
  case (Delete n)
  with assms show ?thesis by (auto simp: sound_def)
next
  case (AddPeer n p)
  then have p: "wf_peer p" using assms(2) by (simp add: clean_add_def)
  have "sound_tunnel (t\<lparr>tn_peers := tn_peers t @ [p]\<rparr>)"
    if "sound_tunnel t" "tp_key p \<notin> tp_key ` set (tn_peers t)" for t
    using that p by (auto simp: sound_tunnel_def wf_tunnel_def)
  with AddPeer assms(1) show ?thesis by (auto simp: sound_def split: option.splits)
next
  case (RemovePeer n k)
  have "sound_tunnel (t\<lparr>tn_peers := filter (\<lambda>p. tp_key p \<noteq> k) (tn_peers t)\<rparr>)"
    if "sound_tunnel t" for t
    using that by (auto simp: sound_tunnel_def wf_tunnel_def list_all_iff distinct_map inj_on_def)
  with RemovePeer assms(1) show ?thesis by (auto simp: sound_def split: option.splits)
qed

lemma represents_quiet:
  "represents T h \<Longrightarrow> touches (\<lambda>_. False) A h h' \<Longrightarrow> represents T h'"
  by (rule represents_touch) (auto elim: touches_mono)

lemma other_quiet:
  assumes "c \<in> {''genkey'', ''tunnel_status'', ''set_tunnel_state''}" and "helper_dispatch c = Some handler"
  shows "keeps (touches (\<lambda>_. False) (argv_ok env)) (handler env req)"
  using assms touch_genkey touch_status touch_state by (auto simp: helper_dispatch_def)

lemma refines_cases: "refines T a r \<Longrightarrow> represents T (snd r) \<or> represents (abs_step T a) (snd r)"
  by (auto simp: refines_def split: option.splits sum.splits)

lemma run_request:
  assumes "never_fails env" and "represents T h" and "sound T" and "\<not> odd_form c req"
    and "helper_dispatch c = Some handler"
  shows "\<exists>T'. represents T' (snd (handler env req h)) \<and> sound T'"
proof (cases "invalid c req")
  case (Some e)
  then show ?thesis using invalid_refused [OF Some assms(5), of env h] assms(2,3) by auto
next
  case None
  show ?thesis
  proof (cases "c \<in> {''genkey'', ''tunnel_status'', ''set_tunnel_state''}")
    case True
    have "touches (\<lambda>_. False) (argv_ok env) h (snd (handler env req h))"
      using other_quiet [OF True assms(5)] by (simp add: keeps_def)
    then show ?thesis using assms(2,3) represents_quiet by blast
  next
    case False
    with assms(5) have "c \<in> {''create_tunnel'', ''delete_tunnel'', ''add_peer'', ''remove_peer''}"
      by (cases rule: command_cases) simp_all
    from clean_or_invalid [OF this assms(4) None] obtain a where a: "clean c req a" ..
    show ?thesis
      using refines_cases [OF clean_dispatch_refines [OF assms(1,2) a assms(5)]] assms(3) sound_step [OF assms(3) a]
      by blast
  qed
qed

text \<open>C16: after any run of requests in none of the odd forms, valid or refused, the configuration
  files are the text of some map of well-formed tunnels, each with a valid name, a port in range
  and pairwise different peer keys; every file is readable by root alone and no temporary file is
  left.  The odd forms are those of \<open>odd_form\<close>: a key with a final line break, an address or network with an IPv6
  scope, a boolean keepalive; an accepted scope can break the files' structure, as
  \<open>HelperGaps\<close> shows.  No system call fails in the run.\<close>

theorem helper_run_invariant:
  assumes "helper_run env h h'" and "never_fails env" and "represents T h" and "sound T"
  shows "\<exists>T'. represents T' h' \<and> sound T'"
  using assms
proof (induction rule: helper_run.induct)
  case (run_refl h)
  then show ?case by blast
next
  case (run_step h h1 c req handler)
  then obtain T1 where T1: "represents T1 h1" "sound T1" by blast
  show ?case by (rule run_request [OF run_step.prems(1) T1 run_step.hyps(2,3)])
qed

definition refused_req_a :: jdict where
  \<comment> \<open>the port is out of range\<close>
  "refused_req_a = [(''name'', JStr ''wg1''), (''private_key'', JStr key_a), (''address'', JStr ''10.0.1.1/24''),
     (''listen_port'', JInt 80)]"

lemma tidy_requests: "\<not> odd_form ''create_tunnel'' create_req_a" "\<not> odd_form ''create_tunnel'' refused_req_a"
proof -
  have k: "\<not> odd_key (JStr key_a)" using key_core_ab by (simp add: odd_key_def)
  have "scoped (JStr ''10.0.0.1/24'') = False" "scoped (JStr ''10.0.1.1/24'') = False" by (code_simp, code_simp)
  then show "\<not> odd_form ''create_tunnel'' create_req_a" "\<not> odd_form ''create_tunnel'' refused_req_a"
    using k by (simp_all add: odd_form_def create_req_a_def refused_req_a_def jget_def address_field_def)
qed

theorem helper_run_invariant_witness:
  "\<exists>T'. represents T' (snd (cmd_create_tunnel quiet_env refused_req_a
      (snd (cmd_create_tunnel quiet_env create_req_a empty_host)))) \<and> sound T'"
proof (rule helper_run_invariant [OF _ quiet_never_fails represents_empty])
  have d: "helper_dispatch ''create_tunnel'' = Some cmd_create_tunnel" by (simp add: helper_dispatch_def)
  show "helper_run quiet_env empty_host (snd (cmd_create_tunnel quiet_env refused_req_a
      (snd (cmd_create_tunnel quiet_env create_req_a empty_host))))"
    by (rule run_step [OF run_step [OF run_refl tidy_requests(1) d] tidy_requests(2) d])
qed (simp add: sound_def)

text \<open>C25: what the commands wrote is what is read back: for a represented tunnel the daemon's own
  reader gives exactly the text of the file, and \<open>_parse_conf_info\<close> on it gives the address of the
  interface, the role of a server, no endpoint, and the networks of all peers in order.\<close>

theorem parse_reads_back:
  assumes "represents T h" and "T n = Some t"
  shows "\<exists>c. read_conf n h = (Inr c, h) \<and> parse_conf_info c = tunnel_info t"
  using read_conf_represents [OF assms(1), of n] assms(2) parse_render [OF represents_wf [OF assms]]
  by simp

lemma created_a:
  "represents [''wg0'' \<mapsto> tunnel_a] (snd (cmd_create_tunnel quiet_env create_req_a empty_host))"
  using create_result [OF quiet_never_fails represents_empty, of create_req_a "''wg0''" tunnel_a]
    clean_a by simp

theorem parse_reads_back_witness:
  "\<exists>c. read_conf ''wg0'' (snd (cmd_create_tunnel quiet_env create_req_a empty_host)) =
      (Inr c, snd (cmd_create_tunnel quiet_env create_req_a empty_host)) \<and>
    parse_conf_info c = tunnel_info tunnel_a"
  by (rule parse_reads_back [OF created_a]) simp

text \<open>A clean request for a tunnel whose name is free always succeeds: the file is created with
  the text of the tunnel.\<close>

lemma create_succeeds:
  assumes "never_fails env" and "represents T h" and "clean_create req n t" and "T n = None"
  shows "fst (cmd_create_tunnel env req h) = Inr [] \<and>
    represents (T(n \<mapsto> t)) (snd (cmd_create_tunnel env req h))"
  using create_result [OF assms(1-3)] assms(4) by simp

lemma create_succeeds_witness:
  "fst (cmd_create_tunnel quiet_env create_req_a empty_host) = Inr [] \<and>
    represents ((\<lambda>_. None)(''wg0'' \<mapsto> tunnel_a)) (snd (cmd_create_tunnel quiet_env create_req_a empty_host))"
  by (rule create_succeeds [OF quiet_never_fails represents_empty]) (use clean_a in simp_all)

section \<open>Editing any configuration text\<close>

text \<open>Rewriting a file is stable: for any text at all, splitting it and putting it together
  again changes at most line breaks around the sections, and doing so twice is the same as
  doing it once.\<close>

lemma conf_rewrite_stable:
  "rebuild_conf (fst (split_conf (rebuild_conf (fst (split_conf c)) (snd (split_conf c)))))
     (snd (split_conf (rebuild_conf (fst (split_conf c)) (snd (split_conf c))))) =
   rebuild_conf (fst (split_conf c)) (snd (split_conf c))"
  by (rule conf.rewrite_stable)

text \<open>C38: in any text, also one written by hand, adding a peer whose key is not in it and then
  removing that key gives back the text as it was, up to the line breaks that rewriting
  normalises; the other peers are untouched.\<close>

theorem remove_undoes_add:
  assumes "wf_peer p" and "\<not> list_ex (has_key (tp_key p)) (snd (split_conf c))"
    and "c' = rebuild_conf (fst (split_conf c)) (snd (split_conf c) @ [peer_text p])"
  shows "rebuild_conf (fst (split_conf c'))
      (filter (\<lambda>b. \<not> has_key (tp_key p) b) (snd (split_conf c'))) =
    rebuild_conf (fst (split_conf c)) (snd (split_conf c))"
proof -
  have k: "key_core (tp_key p)" using assms(1) by (simp add: wf_peer_def)
  have "has_key (tp_key p) (peer_text p)" using has_key_peer [OF assms(1) k] by simp
  moreover have "list_all (\<lambda>b. \<not> has_key (tp_key p) b) (snd (split_conf c))"
    using assms(2) by (simp add: list_all_iff list_ex_iff)
  ultimately show ?thesis
    unfolding assms(3)
    by (intro conf.remove_after_add peer_blk_ok assms(1) key_core_wg_key k)
qed

definition peer_b :: tun_peer where
  "peer_b = \<lparr>tp_key = key_b, tp_psk = None,
     tp_nets = [mk_net (addr_of_int V4 167772162) 32], tp_keep = 25\<rparr>"

lemma wf_peer_b: "wf_peer peer_b"
proof -
  have "noscope (naddr (mk_net (addr_of_int V4 167772162) 32))"
    by (simp add: noscope_def mk_net_def addr_of_int_def Let_def)
  then show ?thesis using key_core_ab(2) by (simp add: wf_peer_def peer_b_def)
qed

theorem remove_undoes_add_witness:
  "\<exists>c c'. c = ''[Interface]'' @ [nl] \<and>
    c' = rebuild_conf (fst (split_conf c)) (snd (split_conf c) @ [peer_text peer_b]) \<and>
    rebuild_conf (fst (split_conf c'))
      (filter (\<lambda>b. \<not> has_key (tp_key peer_b) b) (snd (split_conf c'))) =
    rebuild_conf (fst (split_conf c)) (snd (split_conf c))"
proof -
  let ?c = "''[Interface]'' @ [nl]"
  have "split_conf ?c = (?c, [])" by (simp add: split_conf_eq nl_def)
  then have "\<not> list_ex (has_key (tp_key peer_b)) (snd (split_conf ?c))" by simp
  from remove_undoes_add [OF wf_peer_b this refl] show ?thesis by blast
qed

section \<open>Status\<close>

definition conf_view :: "string \<Rightarrow> 'x host \<Rightarrow> conf_info" where
  \<comment> \<open>what a status request can say of a tunnel from its file\<close>
  "conf_view n h = (case file_at (conf_path n) h of None \<Rightarrow> no_conf_info
     | Some f \<Rightarrow> parse_conf_info (universal_nl (fdata f)))"

lemma read_info:
  "catchm (bindm (read_conf n) (\<lambda>c. ret (parse_conf_info c)))
     (\<lambda>e. case e of HelperError _ \<Rightarrow> ret no_conf_info | PyError _ \<Rightarrow> raise e) h =
   (Inr (conf_view n h), h)"
  by (cases "file_at (conf_path n) h")
    (simp_all add: read_conf_def bindm_def exists_file_def assertm_def getm_def ret_def catchm_def
      conf_view_def)

lemma conf_view_cong: "file_at (conf_path n) h' = file_at (conf_path n) h \<Longrightarrow> conf_view n h' = conf_view n h"
  by (simp add: conf_view_def)

lemma run_prog_files: "file_at p (snd (run_prog env argv inp h)) = file_at p h"
  by (auto simp: run_prog_def file_at_def Let_def split: prod.splits option.splits)

lemma tunnel_entries_result:
  "tunnel_entries env live ts h = (Inr es, h') \<Longrightarrow>
   list_all2 (\<lambda>n e. \<exists>act. e = status_entry n act (map_of live n) (conf_view n h)) ts es"
proof (induction ts arbitrary: h es h')
  case Nil
  then show ?case by (simp add: ret_def)
next
  case (Cons t ts)
  from Cons.prems obtain r h1 where run:
      "run_prog env [''systemctl'', ''is-active'', unit_name t] None h = (Inr r, h1)"
    by (auto elim: bindm_InrE)
  obtain rc out err where r: "r = (rc, out, err)" by (cases r)
  have f: "file_at p h1 = file_at p h" for p
    using run_prog_files [of p env "[''systemctl'', ''is-active'', unit_name t]" None h] run by simp
  from Cons.prems run r have "bindm (tunnel_entries env live ts) (\<lambda>rest.
      ret (status_entry t (py_strip out = ''active'') (map_of live t) (conf_view t h1) # rest)) h1 =
      (Inr es, h')"
    by (simp add: bindm_Inr [of "run_prog env [''systemctl'', ''is-active'', unit_name t] None" h, OF run]
        bindm_Inr [of "catchm _ _" h1, OF read_info])
  then obtain rest h2 where rest: "tunnel_entries env live ts h1 = (Inr rest, h2)" and
      es: "es = status_entry t (py_strip out = ''active'') (map_of live t) (conf_view t h1) # rest"
    by (auto elim!: bindm_InrE simp: ret_def)
  have "conf_view n h1 = conf_view n h" for n by (rule conf_view_cong) (rule f)
  with Cons.IH [OF rest] es show ?case by auto
qed

text \<open>A successful status request without a name lists exactly the configurations on disk, in
  sorted order, one entry each, and reports for each what its file says (the role, address,
  endpoint and networks read from the file, also for a tunnel that is down) together with the
  live data of its own interface.\<close>

lemma status_lists_configurations:
  assumes "cmd_tunnel_status env req h = (Inr d, h')" and "jget req ''name'' = JNull"
  shows "\<exists>es live. d = [(''tunnels'', JList es)] \<and> sorted (conf_stems h) \<and>
    list_all2 (\<lambda>n e. \<exists>act. e = status_entry n act (map_of live n) (conf_view n h)) (conf_stems h) es"
proof -
  have name: "optional_name (jget req ''name'') = Inr None" using assms(2) by (simp add: optional_name_def)
  from assms(1) name obtain r h1 where run:
      "run_prog env [''wg'', ''show'', ''all'', ''dump''] None h = (Inr r, h1)"
    unfolding cmd_tunnel_status_def by (auto simp: liftr_bind getm_bind elim: bindm_InrE)
  obtain rc out err where r: "r = (rc, out, err)" by (cases r)
  have f: "file_at p h1 = file_at p h" for p
    using run_prog_files [of p env "[''wg'', ''show'', ''all'', ''dump'']" None h] run by simp
  from assms(1) name r have "bindm (liftr (if rc = 0 then live_lines [] (py_splitlines out) else Inr []))
      (\<lambda>live. bindm (tunnel_entries env live (conf_stems h))
        (\<lambda>tunnels. ret [(''tunnels'', JList tunnels)])) h1 = (Inr d, h')"
    unfolding cmd_tunnel_status_def by (simp add: liftr_bind getm_bind
        bindm_Inr [of "run_prog env [''wg'', ''show'', ''all'', ''dump''] None" h, OF run])
  then obtain live es h2 where te: "tunnel_entries env live (conf_stems h) h1 = (Inr es, h2)" and
      d: "d = [(''tunnels'', JList es)]"
    by (auto simp: liftr_bind ret_def elim!: bindm_InrE split: sum.splits)
  have "conf_view n h1 = conf_view n h" for n by (rule conf_view_cong) (rule f)
  with tunnel_entries_result [OF te] d show ?thesis by (auto simp: conf_stems_def)
qed

definition wg0_host :: "unit host" where
  "wg0_host = \<lparr>h_fs = [((wg_dir, ''wg0.conf''), \<lparr>fdata = [], fmode = 384\<rparr>)],
     h_dirs = [(wg_dir, 448)], h_tick = 0, h_ran = [], h_ext = ()\<rparr>"

lemma status_lists_configurations_witness:
  "\<exists>es live. sorted (conf_stems wg0_host) \<and>
    list_all2 (\<lambda>n e. \<exists>act. e = status_entry n act (map_of live n) (conf_view n wg0_host))
      (conf_stems wg0_host) es"
proof -
  have "\<exists>d h'. cmd_tunnel_status quiet_env [] wg0_host = (Inr d, h')"
    by (simp add: cmd_tunnel_status_def jget_def optional_name_def liftr_bind getm_bind bindm_def
        run_prog_def quiet_env_def wg0_host_def conf_stems_def has_dir_def stem_def Let_def ret_def
        liftr_def wg_dir_def read_conf_def exists_file_def catchm_def assertm_def getm_def file_at_def
        conf_path_def suffix_def)
  then obtain d h' where "cmd_tunnel_status quiet_env [] wg0_host = (Inr d, h')" by blast
  from status_lists_configurations [OF this] show ?thesis by (auto simp: jget_def)
qed

section \<open>Starting and stopping\<close>

text \<open>A request to change the state of an existing tunnel starts exactly one program, and which
  one depends on the action alone: disconnecting is a plain \<open>systemctl stop\<close>, which leaves the
  start at boot as it is, while activating enables and deactivating disables it.  The request
  succeeds if and only if that program reports success.\<close>

lemma set_state_runs_one_program:
  assumes "valid_name n" and "jget req ''name'' = JStr n" and "jget req ''action'' = JStr act"
    and "act \<in> {''activate'', ''deactivate'', ''disconnect''}"
    and "file_at (conf_path n) h \<noteq> None"
  shows "\<exists>argv. h_ran (snd (cmd_set_tunnel_state env req h)) = h_ran h @ [(argv, None, h_fs h)] \<and>
    argv = [''systemctl''] @ (if act = ''activate'' then [''enable'', ''--now'']
      else if act = ''disconnect'' then [''stop''] else [''disable'', ''--now'']) @ [''wg-quick@'' @ n] \<and>
    ((\<exists>d. fst (cmd_set_tunnel_state env req h) = Inr d) \<longleftrightarrow>
     (\<exists>out err. fst (e_run env argv None (h_fs h) (h_ext h)) = Some (0, out, err)))"
proof -
  have a: "action_of (jget req ''action'') = Inr act" using assms(3,4) by (simp add: action_of_def)
  have p: "(file_at (conf_path n) h \<noteq> None) = True" using assms(5) by simp
  have "cmd_set_tunnel_state env req h =
      bindm (checked_run env ([''systemctl''] @ state_args act @ [unit_name n]) None ''systemctl'') (\<lambda>_. ret []) h"
    unfolding cmd_set_tunnel_state_def using assms(1,2) a p
    by (simp add: validate_name_ok liftr_Inr exists_bind assertm_True)
  then show ?thesis
    by (cases "e_run env ([''systemctl''] @ state_args act @ [unit_name n]) None (h_fs h) (h_ext h)")
      (auto simp: checked_run_def bindm_def run_prog_def assertm_def ret_def Let_def state_args_def
        unit_name_def split: option.splits prod.splits sum.splits)
qed

lemma set_state_runs_one_program_witness:
  "\<exists>argv. h_ran (snd (cmd_set_tunnel_state quiet_env
       [(''name'', JStr ''wg0''), (''action'', JStr ''disconnect'')] wg0_host)) =
      h_ran wg0_host @ [(argv, None, h_fs wg0_host)] \<and> argv = [''systemctl'', ''stop'', ''wg-quick@wg0'']"
  using set_state_runs_one_program [OF valid_wg0,
    of "[(''name'', JStr ''wg0''), (''action'', JStr ''disconnect'')]" "''disconnect''" wg0_host quiet_env]
  by (auto simp: jget_def file_at_def conf_path_def wg0_host_def)

section \<open>Validation\<close>

text \<open>The exact language of the name check: a JSON string passes if and only if it consists of 1 to
  15 ASCII letters, digits, underscores and dashes, possibly followed by one line break.\<close>

lemma tunnel_names_accepted:
  "validate_tunnel_name v = Inr s \<longleftrightarrow>
     v = JStr s \<and> (\<exists>w. (s = w \<or> s = w @ [nl]) \<and> 1 \<le> length w \<and> length w \<le> 15 \<and>
       list_all (\<lambda>c. is_ascii_alnum c \<or> c = CHR ''_'' \<or> c = CHR ''-'') w)"
  by (auto simp: validate_tunnel_name_iff valid_name_def or_nl_def name_core_def name_char_def [abs_def])

lemma key_core_shape:
  "key_core u \<longleftrightarrow> (\<exists>w x. u = w @ [x, CHR ''=''] \<and> length w = 42 \<and> list_all b64_char w \<and>
     x \<in> set ''AEIMQUYcgkosw048'')"
proof
  assume k: "key_core u"
  then have "length u = 44" by (simp add: key_core_def)
  then have "drop 42 u = [u ! 42, u ! 43]"
    using Cons_nth_drop_Suc [of 42 u] Cons_nth_drop_Suc [of 43 u] by simp
  then have "u = take 42 u @ [u ! 42, u ! 43]" by (metis append_take_drop_id)
  with k show "\<exists>w x. u = w @ [x, CHR ''=''] \<and> length w = 42 \<and> list_all b64_char w \<and>
      x \<in> set ''AEIMQUYcgkosw048''"
    unfolding key_core_def by (intro exI [of _ "take 42 u"] exI [of _ "u ! 42"]) simp
qed (auto simp: key_core_def nth_append)

lemma valid_key_shape:
  "valid_key s \<longleftrightarrow> (\<exists>w x. (s = w @ [x, CHR ''=''] \<or> s = w @ [x, CHR ''='', nl]) \<and> length w = 42 \<and>
     list_all b64_char w \<and> x \<in> set ''AEIMQUYcgkosw048'')"
proof
  assume "valid_key s"
  then obtain u where u: "key_core u" "s = u \<or> s = u @ [nl]" by (auto simp: valid_key_def or_nl_def)
  from u(1) obtain w x where "u = w @ [x, CHR ''='']" "length w = 42 \<and> list_all b64_char w \<and>
      x \<in> set ''AEIMQUYcgkosw048''"
    unfolding key_core_shape by blast
  with u(2) show "\<exists>w x. (s = w @ [x, CHR ''=''] \<or> s = w @ [x, CHR ''='', nl]) \<and> length w = 42 \<and>
      list_all b64_char w \<and> x \<in> set ''AEIMQUYcgkosw048''"
    by (intro exI [of _ w] exI [of _ x]) simp
next
  assume "\<exists>w x. (s = w @ [x, CHR ''=''] \<or> s = w @ [x, CHR ''='', nl]) \<and> length w = 42 \<and>
      list_all b64_char w \<and> x \<in> set ''AEIMQUYcgkosw048''"
  then obtain w x where w: "s = w @ [x, CHR ''=''] \<or> s = w @ [x, CHR ''='', nl]"
      "length w = 42 \<and> list_all b64_char w \<and> x \<in> set ''AEIMQUYcgkosw048''"
    by blast
  then have "key_core (w @ [x, CHR ''=''])" unfolding key_core_shape by blast
  with w(1) show "valid_key s"
    unfolding valid_key_def or_nl_def by (intro exI [of _ "w @ [x, CHR ''='']"]) simp
qed

text \<open>The exact language of the key check: a JSON string passes if and only if it consists of 42
  base64 characters, one of the sixteen characters that can end a 32-byte value, and one equals
  sign, possibly followed by one line break; any other value is rejected with an error that
  names the field.\<close>

lemma wg_keys_accepted:
  "(validate_wg_key v f = Inr s \<longleftrightarrow>
     v = JStr s \<and> (\<exists>w x. (s = w @ [x, CHR ''=''] \<or> s = w @ [x, CHR ''='', nl]) \<and> length w = 42 \<and>
       list_all b64_char w \<and> x \<in> set ''AEIMQUYcgkosw048'')) \<and>
   ((\<forall>s. validate_wg_key v f \<noteq> Inr s) \<longleftrightarrow> validate_wg_key v f = Inl (HelperError (''invalid '' @ f)))"
proof
  show "(\<forall>s. validate_wg_key v f \<noteq> Inr s) \<longleftrightarrow> validate_wg_key v f = Inl (HelperError (''invalid '' @ f))"
    by (cases "validate_wg_key v f") (auto dest: validate_wg_key_err)
qed (simp add: validate_wg_key_iff valid_key_shape)

end
