(* ===== verification/HelperGaps.thy ===== *)
theory HelperGaps
  imports HelperProps
begin

text \<open>
  Requests and files on which the helper daemon does something its comments do not promise.
  Each is a concrete input, evaluated on the model: an IPv6 scope that carries a line break
  into the configuration, a boolean keepalive, a name with a final line break, a request that
  is valid JSON but no object, an empty value in a configuration, and a peer written without
  the daemon's own spacing.
\<close>

definition reboot_address :: string where
  \<comment> \<open>the address ::1 with a scope that holds a line break and a \<open>wg-quick\<close> hook\<close>
  "reboot_address = ''::1%'' @ [nl] @ ''PostUp = reboot''"

definition reboot_iface :: ipiface where
  "reboot_iface =
     \<lparr>iaddr = \<lparr>aver = V6, aint = 1, ascope = Some (nl # ''PostUp = reboot'')\<rparr>,
      inet = mk_net \<lparr>aver = V6, aint = 1, ascope = Some (nl # ''PostUp = reboot'')\<rparr> 128\<rparr>"

lemma reboot_accepted: "json_interface (JStr reboot_address) = Some reboot_iface"
  by code_simp

lemma reboot_printed: "str_iface reboot_iface = reboot_address @ ''/128''"
  by code_simp

definition reboot_req :: jdict where
  "reboot_req = [(''name'', JStr ''wg0''), (''private_key'', JStr key_a),
     (''address'', JStr reboot_address), (''listen_port'', JInt 51820)]"

theorem create_tunnel_injects_line:
  "fst (cmd_create_tunnel quiet_env reboot_req empty_host) = Inr [] \<and>
   map_option fdata (file_at (conf_path ''wg0'') (snd (cmd_create_tunnel quiet_env reboot_req empty_host))) =
     Some (''[Interface]'' @ [nl] @ ''PrivateKey = '' @ key_a @ [nl] @ ''Address = ::1%'' @ [nl] @
       ''PostUp = reboot/128'' @ [nl] @ ''ListenPort = 51820'' @ [nl])"
proof -
  have f: "jget reboot_req ''name'' = JStr ''wg0''" "jget reboot_req ''private_key'' = JStr key_a"
      "address_field reboot_req = JStr reboot_address" "jget reboot_req ''listen_port'' = JInt 51820"
    by (simp_all add: reboot_req_def jget_def address_field_def)
  have v: "validate_tunnel_name (jget reboot_req ''name'') = Inr ''wg0''"
      "validate_wg_key (jget reboot_req ''private_key'') ''private_key'' = Inr key_a"
      "json_interface (address_field reboot_req) = Some reboot_iface"
      "port_of (jget reboot_req ''listen_port'') = Inr 51820"
    unfolding f
    by (rule validate_name_ok [OF valid_wg0], rule validate_key_core [OF key_core_ab(1)],
        rule reboot_accepted, simp add: port_of_def)
  have "map digit_char [5, 1, 8, 2, 0] = ''51820''" by code_simp
  then have p: "dec_int 51820 = ''51820''" by (simp add: dec_int_def dec.simps)
  have e: "file_at (conf_path ''wg0'') empty_host = None"
    by (simp add: file_at_def empty_host_def)
  from create_raw [OF quiet_never_fails v, of empty_host] e show ?thesis
    by (simp add: tunnel_conf_def reboot_printed p reboot_address_def del: split_paired_All)
qed

theorem name_with_line_break: "validate_tunnel_name (JStr (''wg0'' @ [nl])) = Inr (''wg0'' @ [nl])"
  by code_simp

theorem keepalive_true:
  "keepalive_ok (JBool True) \<and>
   suffix (''PersistentKeepalive = True'' @ [nl]) (peer_block k None ips (JBool True))"
  by (simp add: keepalive_ok_def peer_block_def suffix_def)

theorem request_not_an_object:
  "handle_request env (Some (JList [])) h = (Escaped (PyError ''AttributeError''), h)"
  by (simp add: handle_request_def)

theorem empty_value_takes_next_line:
  "parse_conf_info (''[Interface]'' @ [nl] @ [nl] @ ''[Peer]'' @ [nl] @ ''Endpoint ='' @ [nl] @
     ''PersistentKeepalive = 25'' @ [nl]) =
   \<lparr>ci_mode = ''client'', ci_address = None, ci_endpoint = Some ''PersistentKeepalive = 25'',
    ci_allowed_ips = []\<rparr>"
  by code_simp

theorem other_spacing_not_found:
  "\<not> has_key key_a (''[Peer]'' @ [nl] @ ''PublicKey='' @ key_a @ [nl])"
  by code_simp

end
