(* ===== verification/Startup.thy ===== *)
theory Startup
  imports HelperProps
begin

text \<open>
  The start of the helper daemon, \<open>main\<close> in deploy/pi-wg-helperd/helper.py: a stale socket is
  removed, the server listens, and then the socket gets its mode and its group.  Each system call
  may fail; a failure ends the daemon.
\<close>

record socket_file =
  sf_mode :: nat
  sf_group :: "nat option"     \<comment> \<open>\<open>None\<close>: the group of the process\<close>

record startup =
  su_dir :: bool
  su_socket :: "socket_file option"
  su_listening :: bool

definition startup_call :: "(nat \<Rightarrow> bool) \<Rightarrow> nat \<Rightarrow> (startup \<Rightarrow> startup) \<Rightarrow> (startup, exn, unit) op" where
  \<comment> \<open>the system call with this number: it fails or has its effect\<close>
  "startup_call fails i f = (if fails i then raise (PyError ''OSError'') else modm f)"

definition helper_main :: "(nat \<Rightarrow> bool) \<Rightarrow> nat \<Rightarrow> nat option \<Rightarrow> (startup, exn, unit) op" where
  \<comment> \<open>\<open>bind_mode\<close> is what the umask leaves; \<open>gid\<close> is \<open>None\<close> where \<open>getgrnam\<close> raises \<open>KeyError\<close>\<close>
  "helper_main fails bind_mode gid =
     bindm (startup_call fails 0 (\<lambda>s. s\<lparr>su_dir := True\<rparr>)) (\<lambda>_.
     bindm getm (\<lambda>s.
     bindm (if su_socket s \<noteq> None then startup_call fails 1 (\<lambda>s. s\<lparr>su_socket := None\<rparr>) else ret ()) (\<lambda>_.
     bindm (startup_call fails 2 (\<lambda>s. s\<lparr>su_socket := Some \<lparr>sf_mode = bind_mode, sf_group = None\<rparr>,
       su_listening := True\<rparr>)) (\<lambda>_.
     bindm (startup_call fails 3 (\<lambda>s. s\<lparr>su_socket := map_option (sf_mode_update (\<lambda>_. 432)) (su_socket s)\<rparr>)) (\<lambda>_.
     (case gid of None \<Rightarrow> ret ()
      | Some g \<Rightarrow> startup_call fails 4 (\<lambda>s. s\<lparr>su_socket := map_option (sf_group_update (\<lambda>_. Some g)) (su_socket s)\<rparr>)))))))"

text \<open>A daemon that serves has a socket of mode 0660, of the helper's group where there is one; a
  failure on the way leaves the daemon stopped with the exception of the call.\<close>

lemma helper_main_socket:
  "case helper_main fails m gid s of
     (Inr _, s') \<Rightarrow> su_socket s' = Some \<lparr>sf_mode = 432, sf_group = gid\<rparr> \<and> su_listening s'
   | (Inl e, _) \<Rightarrow> e = PyError ''OSError'' \<and> list_ex fails [0, 1, 2, 3, 4]"
  by (auto simp: helper_main_def startup_call_def op_defs split: option.splits if_splits)

end
