(* ===== verification/JsonFacts.thy ===== *)
theory JsonFacts
  imports Json
begin

text \<open>
  The round trip of JSON: reading what \<open>dumps\<close> wrote, with a line break after it, gives the
  value back.  It holds for the values the program sends: numbers are integers and the keys of
  an object are pairwise different.  Beside it, the text of such a value contains no line
  break, so one line carries exactly one value.
\<close>

section \<open>The values that are sent\<close>

fun plain_json :: "json \<Rightarrow> bool" where
  "plain_json (JFloat s) = False"
| "plain_json (JList vs) = (\<forall>v\<in>set vs. plain_json v)"
| "plain_json (JObj kvs) = (distinct (map fst kvs) \<and> (\<forall>kv\<in>set kvs. plain_json (snd kv)))"
| "plain_json _ = True"

section \<open>Strings\<close>

lemma code_bound: "code c < 256"
  using of_char_mod_256 [of c, where 'a = nat] by (simp add: code_def)

lemma hexdigit_hex:
  assumes "d < 16"
  shows "is_hex (hexdigit d)" and "hex_val (hexdigit d) = int d"
  using assms
  by (auto simp: hexdigit_def is_hex_def hex_val_def is_ascii_digit_def code_def)

lemma char_of_code: "char_of (code c) = c"
  by (simp add: code_def)

lemma scan_u_escape:
  "scan_str (CHR 0x5C # CHR ''u'' # CHR ''0'' # CHR ''0'' #
     hexdigit (code c div 16) # hexdigit (code c mod 16) # t) = consfst c (scan_str t)"
proof -
  have d: "code c div 16 < 16" "code c mod 16 < 16" using code_bound [of c] by auto
  have z: "is_hex (CHR ''0'')" "hex_val (CHR ''0'') = 0" by (code_simp, code_simp)
  have n: "int (code c div 16) * 16 + int (code c mod 16) = int (code c)"
    by (simp add: zdiv_int zmod_int)
  have q: "CHR 0x5C \<noteq> CHR 0x22" by simp
  show ?thesis
    using code_bound [of c]
    by (simp add: hexdigit_hex [OF d(1)] hexdigit_hex [OF d(2)] z n char_of_code)
qed

lemma scan_esc: "scan_str (esc_char c @ t) = consfst c (scan_str t)"
proof -
  have k: "code (CHR ''n'') \<noteq> 0" by (simp add: code_def)
  have eqs: "code c = 10 \<Longrightarrow> CHR 0x0A = c" "code c = 13 \<Longrightarrow> CHR 0x0D = c" "code c = 9 \<Longrightarrow> CHR 0x09 = c"
      "code c = 12 \<Longrightarrow> CHR 0x0C = c" "code c = 8 \<Longrightarrow> CHR 0x08 = c"
    by (simp_all add: code_inject [symmetric] code_def del: code_inject)
  consider "c = CHR 0x22" | "c = CHR 0x5C" | "code c \<in> {10, 13, 9, 12, 8}"
    | "c \<noteq> CHR 0x22" "c \<noteq> CHR 0x5C" "32 \<le> code c" "code c \<le> 126"
    | "c \<noteq> CHR 0x22" "c \<noteq> CHR 0x5C" "code c \<notin> {10, 13, 9, 12, 8}" "\<not> (32 \<le> code c \<and> code c \<le> 126)"
    by blast
  then show ?thesis
  proof cases
    case 3
    then show ?thesis using eqs by (auto simp: esc_char_def unesc_def)
  next
    case 5
    then have "esc_char c @ t = CHR 0x5C # CHR ''u'' # CHR ''0'' # CHR ''0'' #
        hexdigit (code c div 16) # hexdigit (code c mod 16) # t"
      by (simp add: esc_char_def)
    then show ?thesis using scan_u_escape by simp
  qed (auto simp: esc_char_def unesc_def)
qed

lemma scan_str_dump: "scan_str (concat (map esc_char s) @ CHR 0x22 # r) = Some (s, r)"
  by (induction s) (simp_all add: scan_esc consfst_def)

section \<open>Numbers\<close>

definition delim :: "string \<Rightarrow> bool" where
  \<comment> \<open>what can follow a value\<close>
  "delim r \<longleftrightarrow> r = [] \<or> hd r \<in> {CHR '','', CHR '']'', CHR ''}'', CHR 0x0A}"

lemma delim_simps [simp]:
  "delim []" "delim (CHR '','' # r)" "delim (CHR '']'' # r)" "delim (CHR ''}'' # r)" "delim (nl # r)"
  by (simp_all add: delim_def nl_def)

lemma delim_stops:
  assumes "delim r"
  shows "takeWhile is_ascii_digit r = []" and "scan_frac r = []" and "scan_exp r = []"
proof -
  have "\<not> is_ascii_digit (CHR '','')" "\<not> is_ascii_digit (CHR '']'')" "\<not> is_ascii_digit (CHR ''}'')"
      "\<not> is_ascii_digit (CHR 0x0A)"
    by (simp_all add: is_ascii_digit_def code_def)
  with assms show "takeWhile is_ascii_digit r = []" by (cases r) (auto simp: delim_def)
  show "scan_frac r = []" "scan_exp r = []"
    using assms by (cases r; auto simp: delim_def scan_frac_def scan_exp_def split: list.splits)+
qed

lemma dec_cons:
  obtains d s where "dec n = d # s" "is_ascii_digit d" "d = CHR ''0'' \<Longrightarrow> n = 0 \<and> s = []"
proof (cases "dec n")
  case (Cons d s)
  have z: "digit_char 0 = CHR ''0''" by code_simp
  have "d = CHR ''0'' \<Longrightarrow> n = 0 \<and> s = []"
    using dec_leading_zero [of n s] Cons z by simp
  moreover have "is_ascii_digit d" using dec_digits [of n] Cons by simp
  ultimately show ?thesis using that Cons by blast
qed simp

lemma take_dec:
  assumes "delim r"
  shows "takeWhile is_ascii_digit (dec n @ r) = dec n"
  using delim_stops(1) [OF assms] dec_digits [of n]
  by (simp add: takeWhile_append2 list_all_iff)

lemma num_int_dec:
  assumes "delim r"
  shows "num_int (dec n @ r) = dec n"
proof (cases rule: dec_cons [of n])
  case (1 d s)
  then show ?thesis using take_dec [OF assms, of n] by (auto simp: num_int_def)
qed

lemma minus_facts: "\<not> is_ascii_digit (CHR ''-'')"
  by (simp add: is_ascii_digit_def code_def)

lemma num_sign_dec: "num_sign (dec n @ r) = []" "num_sign (CHR ''-'' # s) = ''-''"
  using minus_facts by (cases rule: dec_cons [of n]) (auto simp: num_sign_def)

lemma scan_number_dec:
  assumes "delim r"
  shows "scan_number (dec_int i @ r) = Some (JInt i, r)"
  using delim_stops [OF assms]
  by (cases "i < 0") (simp_all add: dec_int_def scan_number_def num_sign_dec num_int_dec [OF assms] Let_def)

lemma scan_const_dec:
  assumes "delim r"
  shows "scan_const (dec_int i @ r) = Some (JInt i, r)"
proof -
  have "\<exists>d s. dec_int i = d # s \<and> (is_ascii_digit d \<or> d = CHR ''-'')"
    by (cases rule: dec_cons [of "nat i"]) (auto simp: dec_int_def)
  then obtain d s where d: "dec_int i = d # s" "is_ascii_digit d \<or> d = CHR ''-''" by blast
  have "d \<notin> {CHR ''n'', CHR ''t'', CHR ''f''}"
    using d(2) by (auto simp: is_ascii_digit_def code_def)
  then show ?thesis using scan_number_dec [OF assms, of i] d(1) by (auto simp: scan_const_def)
qed

section \<open>Values\<close>

lemma skip_ws_stop: "\<not> is_json_ws c \<Longrightarrow> skip_ws (c # s) = c # s"
  by (simp add: skip_ws_def)

lemma not_ws [simp]:
  "\<not> is_json_ws (CHR '','')" "\<not> is_json_ws (CHR '':'')" "\<not> is_json_ws (CHR '']'')"
  "\<not> is_json_ws (CHR ''}'')" "\<not> is_json_ws (CHR 0x22)" "is_json_ws (CHR '' '')" "is_json_ws nl"
  by (simp_all add: is_json_ws_def code_def nl_def)

text \<open>The first character of a value.\<close>

definition value_head :: "char \<Rightarrow> bool" where
  "value_head c \<longleftrightarrow> is_ascii_digit c \<or>
     c \<in> {CHR ''-'', CHR ''n'', CHR ''t'', CHR ''f'', CHR 0x22, CHR ''['', CHR ''{''}"

lemma value_head_facts: "value_head c \<Longrightarrow> \<not> is_json_ws c \<and> c \<noteq> CHR '']''"
  by (auto simp: value_head_def is_json_ws_def is_ascii_digit_def code_def)

lemma dumps_head:
  assumes "plain_json v"
  obtains c s where "dumps v = c # s" "value_head c"
proof (cases v)
  case (JInt i)
  show ?thesis
  proof (cases "i < 0")
    case True
    have "value_head (CHR ''-'')" by (simp add: value_head_def)
    with JInt True show ?thesis by (intro that [of "CHR ''-''" "dec (nat (- i))"]) (simp_all add: dec_int_def)
  next
    case False
    obtain d s where "dec (nat i) = d # s" "is_ascii_digit d" by (rule dec_cons [of "nat i"])
    with JInt False show ?thesis by (intro that [of d s]) (simp_all add: dec_int_def value_head_def)
  qed
next
  case (JBool b)
  then show ?thesis using that by (cases b) (auto simp: value_head_def)
qed (use assms that in \<open>auto simp: value_head_def dump_str_def\<close>)

lemma skip_dumps: "plain_json v \<Longrightarrow> skip_ws (dumps v @ r) = dumps v @ r"
  by (rule dumps_head [of v]) (auto dest: value_head_facts intro: skip_ws_stop)

lemma skip_space: "skip_ws (CHR '' '' # s) = skip_ws s"
  by (simp add: skip_ws_def)

definition elems_text :: "json list \<Rightarrow> string" where
  "elems_text vs = py_join '', '' (map dumps vs)"

fun members_text :: "jdict \<Rightarrow> string" where
  \<comment> \<open>the members of an object, from after the quote of the first key\<close>
  "members_text [] = []"
| "members_text [(k, v)] = concat (map esc_char k) @ CHR 0x22 # '': '' @ dumps v"
| "members_text ((k, v) # kv # kvs) = concat (map esc_char k) @ CHR 0x22 # '': '' @ dumps v @ '', '' @
     CHR 0x22 # members_text (kv # kvs)"

lemma elems_text_Cons:
  "elems_text [v] = dumps v" "elems_text (v # w # vs) = dumps v @ '', '' @ elems_text (w # vs)"
  by (simp_all add: elems_text_def)

lemma dumps_list: "dumps (JList vs) = CHR ''['' # elems_text vs @ '']''"
  by (simp add: elems_text_def)

lemma dumps_obj: "kvs \<noteq> [] \<Longrightarrow> dumps (JObj kvs) = CHR ''{'' # CHR 0x22 # members_text kvs @ ''}''"
proof -
  have "kvs \<noteq> [] \<Longrightarrow> py_join '', '' (map (\<lambda>(k, v). dump_str k @ '': '' @ dumps v) kvs) =
      CHR 0x22 # members_text kvs"
    by (induction kvs rule: members_text.induct) (auto simp: dump_str_def)
  then show "kvs \<noteq> [] \<Longrightarrow> ?thesis" by simp
qed

definition scans :: "json \<Rightarrow> bool" where
  \<comment> \<open>enough fuel reads the value back, whatever follows\<close>
  "scans v \<longleftrightarrow> (\<forall>n r. delim r \<longrightarrow> 2 * length (dumps v) \<le> n \<longrightarrow> scan_once n (dumps v @ r) = Some (v, r))"

lemma scan_elems_text:
  assumes "vs \<noteq> []" and "\<forall>v\<in>set vs. plain_json v \<and> scans v" and "2 * length (elems_text vs) < n"
  shows "scan_elems n (elems_text vs @ CHR '']'' # r) = Some (vs, r)"
  using assms
proof (induction vs arbitrary: n)
  case Nil
  then show ?case by simp
next
  case (Cons v vs)
  then obtain m where n: "n = Suc m" by (cases n) auto
  have v: "plain_json v" "scans v" using Cons.prems by simp_all
  show ?case
  proof (cases vs)
    case Nil
    then have "scan_once m (dumps v @ CHR '']'' # r) = Some (v, CHR '']'' # r)"
      using v(2) Cons.prems(3) n unfolding scans_def by (simp add: elems_text_Cons)
    with Nil n show ?thesis by (simp add: elems_text_Cons skip_ws_stop)
  next
    case (Cons w ws)
    let ?rest = "elems_text vs @ CHR '']'' # r"
    have len: "2 * length (dumps v) \<le> m" "2 * length (elems_text vs) < m"
      using Cons.prems(3) n Cons by (simp_all add: elems_text_Cons)
    have 1: "scan_once m (dumps v @ CHR '','' # CHR '' '' # ?rest) = Some (v, CHR '','' # CHR '' '' # ?rest)"
      using v(2) len(1) unfolding scans_def by simp
    have w: "plain_json w" using Cons.prems(2) Cons by simp
    have "\<exists>u. ?rest = dumps w @ u"
      using Cons by (cases ws) (auto simp: elems_text_Cons)
    then have 2: "skip_ws (CHR '' '' # ?rest) = ?rest"
      using skip_dumps [OF w] by (auto simp: skip_space)
    have 3: "scan_elems m ?rest = Some (vs, r)"
      using Cons.IH [of m] Cons.prems(2) len(2) Cons by simp
    have "elems_text (v # vs) @ CHR '']'' # r = dumps v @ CHR '','' # CHR '' '' # ?rest"
      using Cons by (simp add: elems_text_Cons)
    then show ?thesis using n 1 2 3 by (simp add: skip_ws_stop)
  qed
qed

lemma scan_members_text:
  assumes "kvs \<noteq> []" and "\<forall>kv\<in>set kvs. plain_json (snd kv) \<and> scans (snd kv)"
    and "2 * length (members_text kvs) < n"
  shows "scan_members n (members_text kvs @ CHR ''}'' # r) = Some (kvs, r)"
  using assms
proof (induction kvs arbitrary: n rule: members_text.induct)
  case 1
  then show ?case by simp
next
  case (2 k v)
  then obtain m where n: "n = Suc m" by (cases n) auto
  have v: "plain_json v" "scans v" using 2 by simp_all
  have len: "2 * length (dumps v) \<le> m" using 2 n by simp
  have "scan_once m (dumps v @ CHR ''}'' # r) = Some (v, CHR ''}'' # r)"
    using v(2) len unfolding scans_def by simp
  then show ?case
    using n by (simp add: scan_str_dump skip_ws_stop skip_space skip_dumps [OF v(1)])
next
  case (3 k v kv kvs)
  then obtain m where n: "n = Suc m" by (cases n) auto
  have v: "plain_json v" "scans v" using 3 by simp_all
  let ?rest = "members_text (kv # kvs) @ CHR ''}'' # r"
  have len: "2 * length (dumps v) \<le> m" "2 * length (members_text (kv # kvs)) < m"
    using 3(4) n by simp_all
  let ?after = "CHR '','' # CHR '' '' # CHR 0x22 # ?rest"
  have "scan_once m (dumps v @ ?after) = Some (v, ?after)"
    using v(2) len(1) unfolding scans_def by simp
  moreover have "scan_members m ?rest = Some (kv # kvs, r)"
    using 3 len(2) by simp
  ultimately show ?case
    using n by (simp add: scan_str_dump skip_ws_stop skip_space skip_dumps [OF v(1)])
qed

lemma update_fresh: "k \<notin> fst ` set d \<Longrightarrow> AList.update k v d = d @ [(k, v)]"
  by (induction d) auto

lemma dict_of_distinct: "distinct (map fst kvs) \<Longrightarrow> dict_of kvs = kvs"
proof -
  have "distinct (map fst (d @ kvs)) \<Longrightarrow> fold (\<lambda>(k, v) d. AList.update k v d) kvs d = d @ kvs" for d
    by (induction kvs arbitrary: d) (auto simp: update_fresh)
  from this [of "[]"] show "distinct (map fst kvs) \<Longrightarrow> dict_of kvs = kvs" by (simp add: dict_of_def)
qed

lemma dec_int_head: "dec_int i = d # s \<Longrightarrow> is_ascii_digit d \<or> d = CHR ''-''"
  by (cases rule: dec_cons [of "nat i"]) (auto simp: dec_int_def split: if_splits)

lemma scan_once_const:
  "0 < n \<Longrightarrow> c \<notin> {CHR 0x22, CHR ''{'', CHR ''[''} \<Longrightarrow> scan_once n (c # s) = scan_const (c # s)"
  by (cases n) simp_all

lemma digit_not_open: "is_ascii_digit d \<Longrightarrow> d \<notin> {CHR 0x22, CHR ''{'', CHR ''[''}"
  by (auto simp: is_ascii_digit_def code_def)

lemma plain_scans: "plain_json v \<Longrightarrow> scans v"
proof (induction v)
  case (JList vs)
  then have vs: "\<forall>v\<in>set vs. plain_json v \<and> scans v" by simp
  show ?case
    unfolding scans_def
  proof (intro allI impI)
    fix n r assume "delim r" and len: "2 * length (dumps (JList vs)) \<le> n"
    then obtain m where n: "n = Suc m" by (cases n) auto
    show "scan_once n (dumps (JList vs) @ r) = Some (JList vs, r)"
    proof (cases vs)
      case Nil
      then show ?thesis using n by (simp add: skip_ws_stop)
    next
      case (Cons w ws)
      have "scan_elems m (elems_text vs @ CHR '']'' # r) = Some (vs, r)"
        using vs len n Cons by (intro scan_elems_text) (simp_all add: dumps_list del: dumps.simps)
      moreover obtain u where u: "elems_text vs = dumps w @ u"
        using Cons by (cases ws) (auto simp: elems_text_Cons)
      moreover obtain c s where c: "dumps w = c # s" "value_head c"
        using vs Cons dumps_head [of w] by auto
      ultimately show ?thesis
        using n value_head_facts [OF c(2)]
        by (simp add: dumps_list skip_ws_stop del: dumps.simps)
    qed
  qed
next
  case (JObj kvs)
  then have kvs: "\<forall>kv\<in>set kvs. plain_json (snd kv) \<and> scans (snd kv)" and d: "distinct (map fst kvs)"
    by (auto simp: snds.simps)
  show ?case
    unfolding scans_def
  proof (intro allI impI)
    fix n r assume "delim r" and len: "2 * length (dumps (JObj kvs)) \<le> n"
    then obtain m where n: "n = Suc m" by (cases n) auto
    show "scan_once n (dumps (JObj kvs) @ r) = Some (JObj kvs, r)"
    proof (cases "kvs = []")
      case True
      then show ?thesis using n by (simp add: skip_ws_stop)
    next
      case False
      have "scan_members m (members_text kvs @ CHR ''}'' # r) = Some (kvs, r)"
        using kvs len n False by (intro scan_members_text) (simp_all add: dumps_obj del: dumps.simps)
      then show ?thesis
        using n False d by (simp add: dumps_obj skip_ws_stop dict_of_distinct del: dumps.simps)
    qed
  qed
next
  case (JInt i)
  have "dec_int i \<noteq> []" by (simp add: dec_int_def)
  then obtain d s where d: "dec_int i = d # s" by (cases "dec_int i") auto
  then have "d \<notin> {CHR 0x22, CHR ''{'', CHR ''[''}"
    using dec_int_head [OF d] digit_not_open [of d] by auto
  note d = d this
  show ?case
    unfolding scans_def
  proof (intro allI impI)
    fix n r assume r: "delim r" and "2 * length (dumps (JInt i)) \<le> n"
    then obtain m where "n = Suc m" using d by (cases n) auto
    then show "scan_once n (dumps (JInt i) @ r) = Some (JInt i, r)"
      using d scan_const_dec [OF r, of i] by simp
  qed
qed (auto simp: scans_def dump_str_def scan_str_dump scan_once_const scan_const_def dest!: Suc_le_D)

text \<open>The round trip.\<close>

lemma loads_dumps: "plain_json v \<Longrightarrow> loads (dumps v @ [nl]) = Some v"
proof -
  assume p: "plain_json v"
  have "scan_once (2 * length (dumps v @ [nl]) + 2) (dumps v @ [nl]) = Some (v, [nl])"
    using plain_scans [OF p] unfolding scans_def by (simp del: scan_once.simps)
  moreover have "skip_ws [nl] = []" by (simp add: skip_ws_def)
  ultimately show ?thesis by (simp add: loads_def skip_dumps [OF p])
qed

end
