(* ===== verification/HelperClient.thy ===== *)
theory HelperClient
  imports HelperProps JsonFacts
begin

text \<open>
  The application's side of the socket, src/app/wg_helper_client.py: one function per
  command, over \<open>_call\<close>.  The socket is a parameter \<open>send\<close>: it takes the line that is written
  and gives what comes back.  The locale \<open>line_codec\<close> is what both processes rely on in the
  format of a line; it is interpreted on JSON.  \<open>daemon_send\<close> puts the modelled daemon at the
  other end, and the last section shows that a call through it is the command itself.
\<close>

section \<open>One value per line\<close>

locale line_codec =
  fixes enc :: "'v \<Rightarrow> string" and dec :: "string \<Rightarrow> 'v option" and ok :: "'v \<Rightarrow> bool"
  assumes dec_enc: "ok v \<Longrightarrow> dec (enc v @ [nl]) = Some v"
    and enc_line: "ok v \<Longrightarrow> nl \<notin> set (enc v)"
begin

lemma read_enc: "ok v \<Longrightarrow> readline (enc v @ nl # s) = enc v @ [nl]"
proof -
  assume "ok v"
  then have n: "\<forall>c\<in>set (enc v). c \<noteq> nl" using enc_line by blast
  then have "takeWhile (\<lambda>c. c \<noteq> nl) (enc v @ nl # s) = enc v" by (simp add: takeWhile_append2)
  then show ?thesis by (simp add: readline_def)
qed

lemma first_value: "ok v \<Longrightarrow> dec (readline (enc v @ nl # s)) = Some v"
  by (simp add: read_enc dec_enc)

lemma line_length: "ok v \<Longrightarrow> length (takeWhile (\<lambda>c. c \<noteq> nl) (enc v @ nl # s)) = length (enc v)"
  using enc_line by (subst takeWhile_append2) auto

lemma enc_inject: "ok v \<Longrightarrow> ok w \<Longrightarrow> enc v = enc w \<Longrightarrow> v = w"
  using dec_enc by (metis option.inject)

end

lemma hexdigit_no_nl: "d < 16 \<Longrightarrow> hexdigit d \<noteq> nl"
  using hexdigit_hex(1) [of d] by (auto simp: is_hex_def is_ascii_digit_def)

lemma esc_char_no_nl: "nl \<notin> set (esc_char c)"
proof -
  have "code c div 16 < 16" "code c mod 16 < 16" using code_bound [of c] by auto
  then have "hexdigit (code c div 16) \<noteq> nl" "hexdigit (code c mod 16) \<noteq> nl"
    by (simp_all add: hexdigit_no_nl)
  moreover have "code c = 10 \<longleftrightarrow> c = nl" by (metis code_nl code_inject)
  ultimately show ?thesis by (auto simp: esc_char_def) (simp_all add: nl_def)
qed

lemma dump_str_no_nl: "nl \<notin> set (dump_str s)"
  using esc_char_no_nl by (auto simp: dump_str_def) (auto simp: nl_def)

lemma join_no_nl: "nl \<notin> set sep \<Longrightarrow> (\<forall>w\<in>set ws. nl \<notin> set w) \<Longrightarrow> nl \<notin> set (py_join sep ws)"
  by (induction sep ws rule: py_join.induct) auto

lemma nl_punct: "nl \<notin> set '', ''" "nl \<notin> set '': ''" "nl \<noteq> CHR ''[''" "nl \<noteq> CHR '']''" "nl \<noteq> CHR ''{''"
    "nl \<noteq> CHR ''}''" "nl \<notin> set ''null''" "nl \<notin> set ''true''" "nl \<notin> set ''false''"
  by (simp_all add: nl_def)

lemma dumps_no_nl: "plain_json v \<Longrightarrow> nl \<notin> set (dumps v)"
proof (induction v)
  case (JList vs)
  then have "nl \<notin> set (py_join '', '' (map dumps vs))"
    by (intro join_no_nl nl_punct) auto
  then show ?case using nl_punct by simp
next
  case (JObj kvs)
  have "nl \<notin> set (dump_str k @ '': '' @ dumps v)" if kv: "(k, v) \<in> set kvs" for k v
  proof -
    have "plain_json v" using JObj.prems kv by fastforce
    then have "nl \<notin> set (dumps v)" using JObj.IH [OF kv] by (simp add: snds.simps)
    then show ?thesis using dump_str_no_nl nl_punct(2) by auto
  qed
  then have "nl \<notin> set (py_join '', '' (map (\<lambda>(k, v). dump_str k @ '': '' @ dumps v) kvs))"
    by (intro join_no_nl nl_punct) auto
  then show ?case using nl_punct by simp
next
  case (JInt i)
  have "nl \<notin> set (dec n)" for n using dec_digit_mem [of nl n] by (auto simp: is_ascii_digit_def)
  then show ?case by (simp add: dec_int_def) (simp add: nl_def)
qed (use nl_punct dump_str_no_nl in auto)

interpretation json_line: line_codec dumps loads plain_json
  by unfold_locales (simp_all add: loads_dumps dumps_no_nl)

section \<open>The call\<close>

datatype aexn =
    HTTPExc nat string   \<comment> \<open>\<open>HTTPException(status_code, detail)\<close>\<close>
  | AppExc string        \<comment> \<open>any other exception: answered with status 500\<close>

datatype sock =
    Unreachable          \<comment> \<open>\<open>open_unix_connection\<close> raised \<open>OSError\<close>\<close>
  | Broken               \<comment> \<open>writing or reading raised \<open>OSError\<close>\<close>
  | Overlong             \<comment> \<open>the line exceeds the limit of the reader: \<open>readline\<close> raises \<open>ValueError\<close>\<close>
  | Line string          \<comment> \<open>what \<open>readline\<close> returned, empty at the end of the stream\<close>

type_synonym 'w sender = "string \<Rightarrow> 'w \<Rightarrow> sock \<times> 'w"

definition unavailable :: aexn where
  "unavailable = HTTPExc 502 ''WireGuard helper unavailable''"

definition op_failed :: aexn where
  "op_failed = HTTPExc 502 ''WireGuard operation failed''"

definition read_response :: "string \<Rightarrow> aexn + json" where
  "read_response line =
     (if line = [] then Inl op_failed
      else case loads line of
        None \<Rightarrow> Inl op_failed
      | Some (JObj response) \<Rightarrow>
          if \<not> truthy (jget response ''ok'') then Inl op_failed
          else Inr (if truthy (jget response ''result'') then jget response ''result'' else JObj [])
      | Some _ \<Rightarrow> Inl (AppExc ''AttributeError''))"

definition helper_call :: "'w sender \<Rightarrow> string \<Rightarrow> jdict \<Rightarrow> ('w, aexn, json) op" where
  "helper_call send cmd params w =
     (case send (dumps (JObj ((''cmd'', JStr cmd) # params)) @ [nl]) w of
        (Unreachable, w') \<Rightarrow> (Inl unavailable, w')
      | (Broken, w') \<Rightarrow> (Inl (AppExc ''OSError''), w')
      | (Overlong, w') \<Rightarrow> (Inl (AppExc ''ValueError''), w')
      | (Line line, w') \<Rightarrow> (read_response line, w'))"

section \<open>The functions of the module\<close>

definition opt_int :: "int option \<Rightarrow> json" where
  "opt_int x = (case x of None \<Rightarrow> JNull | Some i \<Rightarrow> JInt i)"

definition client_genkey :: "'w sender \<Rightarrow> ('w, aexn, json) op" where
  "client_genkey send = helper_call send ''genkey'' []"

definition client_create_tunnel :: "'w sender \<Rightarrow> string \<Rightarrow> string \<Rightarrow> int \<Rightarrow> json \<Rightarrow> ('w, aexn, unit) op" where
  "client_create_tunnel send name address listen_port private_key =
     bindm (helper_call send ''create_tunnel'' [(''name'', JStr name), (''address'', JStr address),
       (''listen_port'', JInt listen_port), (''private_key'', private_key)]) (\<lambda>_. ret ())"

definition client_delete_tunnel :: "'w sender \<Rightarrow> string \<Rightarrow> ('w, aexn, unit) op" where
  "client_delete_tunnel send name =
     bindm (helper_call send ''delete_tunnel'' [(''name'', JStr name)]) (\<lambda>_. ret ())"

definition client_add_peer :: "'w sender \<Rightarrow> string \<Rightarrow> json \<Rightarrow> string list \<Rightarrow> json \<Rightarrow> int option \<Rightarrow> ('w, aexn, unit) op" where
  "client_add_peer send tunnel public_key allowed_ips preshared_key keepalive =
     bindm (helper_call send ''add_peer'' [(''tunnel'', JStr tunnel), (''public_key'', public_key),
       (''allowed_ips'', JList (map JStr allowed_ips)), (''preshared_key'', preshared_key),
       (''keepalive'', opt_int keepalive)]) (\<lambda>_. ret ())"

definition client_remove_peer :: "'w sender \<Rightarrow> string \<Rightarrow> json \<Rightarrow> ('w, aexn, unit) op" where
  "client_remove_peer send tunnel public_key =
     bindm (helper_call send ''remove_peer'' [(''tunnel'', JStr tunnel), (''public_key'', public_key)])
       (\<lambda>_. ret ())"

definition client_tunnel_status :: "'w sender \<Rightarrow> string option \<Rightarrow> ('w, aexn, json) op" where
  "client_tunnel_status send name = helper_call send ''tunnel_status'' [(''name'', opt_str name)]"

definition client_set_tunnel_state :: "'w sender \<Rightarrow> string \<Rightarrow> string \<Rightarrow> ('w, aexn, unit) op" where
  "client_set_tunnel_state send name action =
     bindm (helper_call send ''set_tunnel_state'' [(''name'', JStr name), (''action'', JStr action)])
       (\<lambda>_. ret ())"

section \<open>The daemon at the other end\<close>

definition daemon_send :: "'x env \<Rightarrow> int option \<Rightarrow> int \<Rightarrow> 'x host sender" where
  \<comment> \<open>a connection of a process with the user id \<open>uid\<close>; the daemon closes it after one answer, and
      an answer longer than the reader's limit makes \<open>readline\<close> raise\<close>
  "daemon_send env allowed uid line h =
     (case handle_client env \<lparr>cn_allowed_uid = allowed, cn_peer_uid = uid, cn_input = line\<rparr> h of
        (Reply r, h') \<Rightarrow> (if length r \<le> Suc stream_limit then Line r else Overlong, h')
      | (_, h') \<Rightarrow> (Line [], h'))"

lemma jget_Cons: "jget ((k, v) # d) k' = (if k' = k then v else jget d k')"
  by (simp add: jget_def)

lemma read_error_reply: "read_response (error_reply m) = Inl op_failed"
proof -
  have "loads (error_reply m) = Some (JObj [(''ok'', JBool False), (''error'', JStr m)])"
    unfolding error_reply_def by (rule json_line.dec_enc) simp
  then show ?thesis by (simp add: read_response_def error_reply_def jget_Cons)
qed

lemma read_ok_reply: "plain_json (JObj d) \<Longrightarrow> read_response (ok_reply d) = Inr (JObj d)"
proof -
  assume "plain_json (JObj d)"
  then have "loads (ok_reply d) = Some (JObj [(''ok'', JBool True), (''result'', JObj d)])"
    unfolding ok_reply_def by (intro json_line.dec_enc) simp
  then show ?thesis by (simp add: read_response_def ok_reply_def jget_Cons)
qed

lemma handle_client_call:
  assumes "plain_json (JObj ((''cmd'', JStr cmd) # params))"
    and "length (dumps (JObj ((''cmd'', JStr cmd) # params))) \<le> stream_limit"
    and "helper_dispatch cmd = Some handler"
  shows "handle_client env \<lparr>cn_allowed_uid = Some uid, cn_peer_uid = uid,
      cn_input = dumps (JObj ((''cmd'', JStr cmd) # params)) @ [nl]\<rparr> h =
    run_command env handler ((''cmd'', JStr cmd) # params) h"
proof -
  let ?v = "JObj ((''cmd'', JStr cmd) # params)"
  have "handle_client env \<lparr>cn_allowed_uid = Some uid, cn_peer_uid = uid, cn_input = dumps ?v @ [nl]\<rparr> h =
      handle_request env (loads (readline (dumps ?v @ [nl]))) h"
    using assms(2) json_line.line_length [OF assms(1), of "[]"] json_line.read_enc [OF assms(1), of "[]"]
    by (simp add: handle_client_def Let_def del: dumps.simps)
  also have "loads (readline (dumps ?v @ [nl])) = Some ?v"
    using json_line.first_value [OF assms(1), of "[]"] by simp
  finally show ?thesis by (simp add: handle_request_def jget_Cons assms(3))
qed

lemma helper_call_daemon:
  assumes "plain_json (JObj ((''cmd'', JStr cmd) # params))"
    and "length (dumps (JObj ((''cmd'', JStr cmd) # params))) \<le> stream_limit"
    and "helper_dispatch cmd = Some handler"
  shows "helper_call (daemon_send env (Some uid) uid) cmd params h =
    (case run_command env handler ((''cmd'', JStr cmd) # params) h of
       (Reply r, h') \<Rightarrow> (if length r \<le> Suc stream_limit then read_response r else Inl (AppExc ''ValueError''), h')
     | (_, h') \<Rightarrow> (read_response [], h'))"
  unfolding helper_call_def daemon_send_def handle_client_call [OF assms]
  by (auto split: prod.splits reply.splits)

text \<open>C24: the socket is transparent: a call of the application's client, made by the right user with
  a request and an answer that fit into a line of the reader, has exactly the effect of the
  daemon's command on the host, returns its result as it is, and turns every error of the
  command into the one answer 502.\<close>

theorem helper_call_transparent:
  assumes "plain_json (JObj ((''cmd'', JStr cmd) # params))"
    and "length (dumps (JObj ((''cmd'', JStr cmd) # params))) \<le> stream_limit"
    and "helper_dispatch cmd = Some handler"
    and "\<And>d h'. handler env ((''cmd'', JStr cmd) # params) h = (Inr d, h') \<Longrightarrow>
      plain_json (JObj d) \<and> length (ok_reply d) \<le> Suc stream_limit"
    and "\<And>m h'. handler env ((''cmd'', JStr cmd) # params) h = (Inl (HelperError m), h') \<Longrightarrow>
      length (error_reply m) \<le> Suc stream_limit"
  shows "helper_call (daemon_send env (Some uid) uid) cmd params h =
    (case handler env ((''cmd'', JStr cmd) # params) h of
       (Inr d, h') \<Rightarrow> (Inr (JObj d), h') | (Inl _, h') \<Rightarrow> (Inl op_failed, h'))"
proof -
  let ?req = "(''cmd'', JStr cmd) # params"
  obtain r h' where r: "handler env ?req h = (r, h')" by fastforce
  have int: "length (error_reply ''internal error'') \<le> Suc stream_limit" by (simp add: stream_limit_def error_reply_def dump_str_def esc_char_def code_def)
  show ?thesis
    using helper_call_daemon [OF assms(1-3), of env uid h] r assms(4,5) read_ok_reply int
    by (cases r) (auto simp: run_command_def read_error_reply split: exn.splits)
qed

lemma genkey_quiet:
  "cmd_genkey quiet_env req empty_host = (Inr [(''private_key'', JStr []), (''public_key'', JStr [])],
     empty_host\<lparr>h_ran := [([''wg'', ''genkey''], None, []), ([''wg'', ''pubkey''], Some [], [])]\<rparr>)"
  by (simp add: cmd_genkey_def checked_run_def bindm_def run_prog_def quiet_env_def empty_host_def
      assertm_def ret_def Let_def py_strip_def py_lstrip_def py_rstrip_def rstrip_by_def)

theorem helper_call_transparent_witness:
  "helper_call (daemon_send quiet_env (Some 996) 996) ''genkey'' [] empty_host =
    (Inr (JObj [(''private_key'', JStr []), (''public_key'', JStr [])]),
     empty_host\<lparr>h_ran := [([''wg'', ''genkey''], None, []), ([''wg'', ''pubkey''], Some [], [])]\<rparr>)"
  using helper_call_transparent [of "''genkey''" "[]" cmd_genkey quiet_env empty_host 996]
  by (simp add: genkey_quiet helper_dispatch_def stream_limit_def ok_reply_def dump_str_def esc_char_def
      code_def)

end
