(* ===== verification/WgApp.thy ===== *)
theory WgApp
  imports HelperClient
begin

text \<open>
  The WireGuard part of the web application, src/app/wireguard.py: the metadata file, the check
  for overlapping subnets, the allocation of peer addresses, and the request handlers.

  A handler works on \<open>wgapp\<close>: the metadata file and the world behind the helper's socket.  The
  metadata is held in the structure the module itself writes; a missing file, one that cannot be
  read or parsed, one that is no text and one whose JSON is no object are cases of \<open>meta_file\<close>.  What the helper answers is JSON of any shape, so every access
  to it is a function that may fail as the Python access does.  The request bodies are the
  validated models of src/app/models.py.
\<close>

section \<open>State\<close>

record peer_meta =
  pm_id :: string
  pm_description :: string
  pm_tunnel_address :: string
  pm_allowed_ips :: "string list"
  pm_public_key :: json
  pm_created_by :: json

record tun_meta =
  tm_address :: string
  tm_endpoint :: "string option"
  tm_listen_port :: int
  tm_peers :: "peer_meta list"

type_synonym metadata = "(string \<times> tun_meta) list"

datatype meta_file =
    NoMeta
  | BadMeta            \<comment> \<open>cannot be read, or is no JSON\<close>
  | NotText            \<comment> \<open>is no UTF-8: \<open>UnicodeDecodeError\<close>, which is not caught\<close>
  | NotObject          \<comment> \<open>is JSON but no object: \<open>data.setdefault\<close> does not exist\<close>
  | Meta metadata      \<comment> \<open>an object with the tunnels in the structure the module writes\<close>

record 'w wgapp =
  wa_meta :: meta_file
  wa_tick :: nat
  wa_world :: 'w

record iface_addr =
  ia_family :: int
  ia_address :: string
  ia_netmask :: "string option"

type_synonym local_ifaces = "(string \<times> iface_addr list) list"

record 'w wgenv =
  we_send :: "'w sender"
  we_ifaces :: local_ifaces          \<comment> \<open>\<open>psutil.net_if_addrs()\<close>\<close>
  we_save_fails :: "nat \<Rightarrow> bool"
  we_uuid :: "nat \<Rightarrow> string"
  we_sub :: json                     \<comment> \<open>\<open>user.get("sub")\<close>\<close>

type_synonym ('w, 'a) wop = "('w wgapp, aexn, 'a) op"

definition on_world :: "('w, aexn, 'a) op \<Rightarrow> ('w, 'a) wop" where
  "on_world m s = (case m (wa_world s) of (r, w) \<Rightarrow> (r, s\<lparr>wa_world := w\<rparr>))"

section \<open>The metadata file\<close>

definition load_metadata :: "('w, metadata) wop" where
  "load_metadata s = (case wa_meta s of
     NoMeta \<Rightarrow> Inr [] | BadMeta \<Rightarrow> Inr []
   | NotText \<Rightarrow> Inl (AppExc ''UnicodeDecodeError'') | NotObject \<Rightarrow> Inl (AppExc ''AttributeError'')
   | Meta m \<Rightarrow> Inr m, s)"

lemma load_cases:
  obtains e where "load_metadata s = (Inl e, s)" and "wa_meta s \<in> {NotText, NotObject}"
  | m where "load_metadata s = (Inr m, s)" and "wa_meta s = Meta m \<or> m = []"
  by (cases "wa_meta s") (auto simp: load_metadata_def)

lemma load_Inr: "load_metadata s = (Inr m, s') \<Longrightarrow> s' = s \<and> (wa_meta s = Meta m \<or> m = [])"
  by (auto simp: load_metadata_def split: meta_file.splits)

definition save_metadata :: "'w wgenv \<Rightarrow> metadata \<Rightarrow> ('w, unit) wop" where
  "save_metadata env m s =
     (if we_save_fails env (wa_tick s) then (Inl (AppExc ''OSError''), s\<lparr>wa_tick := Suc (wa_tick s)\<rparr>)
      else (Inr (), s\<lparr>wa_meta := Meta m, wa_tick := Suc (wa_tick s)\<rparr>))"

section \<open>Overlapping subnets\<close>

definition conflict_text :: "ipnet \<Rightarrow> string \<Rightarrow> ipnet \<Rightarrow> string" where
  "conflict_text candidate iface_name local_net =
     str_net candidate @ '' overlaps '' @ iface_name @ '' ('' @ str_net local_net @ '')''"

definition local_net :: "iface_addr \<Rightarrow> ipnet option" where
  \<comment> \<open>the subnet of an address, none when it is not an IPv4 address or cannot be parsed\<close>
  "local_net a =
     (if ia_family a \<noteq> 2 then None
      else case ia_netmask a of
        None \<Rightarrow> None
      | Some nm \<Rightarrow> if nm = [] then None
                   else map_option inet (ip_interface (ia_address a @ ''/'' @ nm)))"

definition addr_conflicts :: "ipnet list \<Rightarrow> string \<Rightarrow> iface_addr \<Rightarrow> string list" where
  "addr_conflicts candidates iface_name a = (case local_net a of None \<Rightarrow> []
     | Some l \<Rightarrow> map (\<lambda>c. conflict_text c iface_name l) (filter (\<lambda>c. overlaps c l) candidates))"

definition overlapping_local_subnets :: "local_ifaces \<Rightarrow> ipnet list \<Rightarrow> string list" where
  "overlapping_local_subnets ifaces candidates =
     concat (map (\<lambda>(iface_name, addrs). concat (map (addr_conflicts candidates iface_name) addrs)) ifaces)"

section \<open>Allocation of peer addresses\<close>

fun peer_ips :: "peer_meta list \<Rightarrow> ipaddr list option" where
  "peer_ips [] = Some []"
| "peer_ips (p # ps) = (case ip_interface (pm_tunnel_address p) of None \<Rightarrow> None
     | Some i \<Rightarrow> map_option (\<lambda>as. ip_of_iface i # as) (peer_ips ps))"

definition no_free_address :: aexn where
  "no_free_address = HTTPExc 409 ''No free addresses left in this tunnel's subnet''"

definition allocate_peer_address :: "tun_meta \<Rightarrow> aexn + string" where
  "allocate_peer_address t =
     (case ip_interface (tm_address t) of
        None \<Rightarrow> Inl (AppExc ''ValueError'')
      | Some iface \<Rightarrow>
          (case peer_ips (tm_peers t) of
             None \<Rightarrow> Inl (AppExc ''ValueError'')
           | Some used \<Rightarrow>
               (case find (\<lambda>host. host \<notin> set (ip_of_iface iface # used)) (hosts (inet iface)) of
                  Some host \<Rightarrow> Inr (str_addr host @ ''/32'')
                | None \<Rightarrow> Inl no_free_address)))"

section \<open>Access to the helper's answers\<close>

definition as_obj :: "json \<Rightarrow> aexn + jdict" where
  "as_obj v = (case v of JObj d \<Rightarrow> Inr d | _ \<Rightarrow> Inl (AppExc ''AttributeError''))"

definition jget_or :: "jdict \<Rightarrow> string \<Rightarrow> json \<Rightarrow> json" where
  \<comment> \<open>\<open>d.get(k, default)\<close>\<close>
  "jget_or d k x = (case map_of d k of None \<Rightarrow> x | Some v \<Rightarrow> v)"

definition jindex :: "json \<Rightarrow> string \<Rightarrow> aexn + json" where
  \<comment> \<open>\<open>v[k]\<close> for a string \<open>k\<close>\<close>
  "jindex v k = (case v of
     JObj d \<Rightarrow> (case map_of d k of Some x \<Rightarrow> Inr x | None \<Rightarrow> Inl (AppExc ''KeyError''))
   | _ \<Rightarrow> Inl (AppExc ''TypeError''))"

definition as_iter :: "json \<Rightarrow> aexn + json list" where
  \<comment> \<open>the objects a \<open>for\<close> loop visits: elements, keys or characters\<close>
  "as_iter v = (case v of
     JList vs \<Rightarrow> Inr vs | JObj d \<Rightarrow> Inr (map (\<lambda>(k, _). JStr k) d)
   | JStr s \<Rightarrow> Inr (map (\<lambda>c. JStr [c]) s) | _ \<Rightarrow> Inl (AppExc ''TypeError''))"

definition first_of :: "json \<Rightarrow> aexn + json" where
  \<comment> \<open>\<open>v[0]\<close>\<close>
  "first_of v = (case v of
     JList (x # _) \<Rightarrow> Inr x | JList [] \<Rightarrow> Inl (AppExc ''IndexError'')
   | JStr (c # _) \<Rightarrow> Inr (JStr [c]) | JStr [] \<Rightarrow> Inl (AppExc ''IndexError'')
   | JObj _ \<Rightarrow> Inl (AppExc ''KeyError'') | _ \<Rightarrow> Inl (AppExc ''TypeError''))"

definition status_tunnels :: "json \<Rightarrow> aexn + json" where
  \<comment> \<open>\<open>status_result.get("tunnels", [])\<close>\<close>
  "status_tunnels v = (case as_obj v of Inl e \<Rightarrow> Inl e | Inr d \<Rightarrow> Inr (jget_or d ''tunnels'' (JList [])))"

definition py_str :: "json \<Rightarrow> string" where
  "py_str v = (case v of JStr s \<Rightarrow> s | _ \<Rightarrow> py_repr v)"

section \<open>Request bodies\<close>

record tunnel_create =
  tc_name :: string
  tc_address :: ipiface
  tc_listen_port :: int
  tc_endpoint :: "string option"
  tc_force :: bool

record peer_create =
  pc_description :: string
  pc_allowed_ips :: "ipnet list"
  pc_preshared_key :: bool
  pc_keepalive :: "int option"

record tunnel_state =
  ts_action :: string
  ts_force :: bool

section \<open>Tunnels\<close>

definition unknown_tunnel :: aexn where
  "unknown_tunnel = HTTPExc 404 ''Unknown tunnel''"

definition overlap_error :: "string \<Rightarrow> string list \<Rightarrow> aexn" where
  "overlap_error intro conflicts = HTTPExc 409 (intro @ py_join ''; '' conflicts @
     ''. Confirm you understand the risk to override.'')"

definition own_overlap :: string where
  "own_overlap = ''This tunnel's own address overlaps a network this device is already directly connected to, which can break local network access: ''"

definition activate_overlap :: string where
  "activate_overlap = ''Activating this tunnel would overlap a network this device is already directly connected to, which can break local network access: ''"

definition check_overlap :: "'w wgenv \<Rightarrow> string \<Rightarrow> ipnet list \<Rightarrow> ('w, unit) wop" where
  "check_overlap env intro candidates =
     (let conflicts = overlapping_local_subnets (we_ifaces env) candidates
      in assertm (conflicts = []) (overlap_error intro conflicts))"

definition create_tunnel :: "'w wgenv \<Rightarrow> tunnel_create \<Rightarrow> ('w, json) wop" where
  "create_tunnel env payload =
     bindm (if tc_force payload then ret () else check_overlap env own_overlap [inet (tc_address payload)]) (\<lambda>_.
     bindm (on_world (client_genkey (we_send env))) (\<lambda>keypair.
     bindm (liftr (jindex keypair ''private_key'')) (\<lambda>private_key.
     bindm (on_world (client_create_tunnel (we_send env) (tc_name payload) (str_iface (tc_address payload))
              (tc_listen_port payload) private_key)) (\<lambda>_.
     bindm load_metadata (\<lambda>metadata.
     bindm (save_metadata env (AList.update (tc_name payload)
              \<lparr>tm_address = str_iface (tc_address payload), tm_endpoint = tc_endpoint payload,
               tm_listen_port = tc_listen_port payload, tm_peers = []\<rparr> metadata)) (\<lambda>_.
     bindm (liftr (jindex keypair ''public_key'')) (\<lambda>public_key.
     ret (JObj [(''name'', JStr (tc_name payload)), (''public_key'', public_key)]))))))))"

definition status_ok :: json where
  "status_ok = JObj [(''status'', JStr ''ok'')]"

definition delete_tunnel :: "'w wgenv \<Rightarrow> string \<Rightarrow> ('w, json) wop" where
  "delete_tunnel env name =
     bindm (on_world (client_delete_tunnel (we_send env) name)) (\<lambda>_.
     bindm load_metadata (\<lambda>metadata.
     bindm (save_metadata env (AList.delete name metadata)) (\<lambda>_.
     ret status_ok)))"

fun parse_networks :: "json list \<Rightarrow> ipnet list" where
  \<comment> \<open>the entries that are networks; the others are skipped\<close>
  "parse_networks [] = []"
| "parse_networks (e # es) = (case json_network e of
     None \<Rightarrow> parse_networks es | Some n \<Rightarrow> n # parse_networks es)"

definition activation_candidates :: "jdict \<Rightarrow> aexn + ipnet list" where
  \<comment> \<open>which subnets become routes of this device when the tunnel comes up\<close>
  "activation_candidates info =
     (if jget_or info ''mode'' (JStr ''server'') = JStr ''client''
      then (case as_iter (jget_or info ''configured_allowed_ips'' (JList [])) of
              Inl e \<Rightarrow> Inl e | Inr es \<Rightarrow> Inr (parse_networks es))
      else if truthy (jget info ''configured_address'')
      then (case json_interface (jget info ''configured_address'') of
              None \<Rightarrow> Inl (AppExc ''ValueError'') | Some i \<Rightarrow> Inr [inet i])
      else Inr [])"

definition set_tunnel_state :: "'w wgenv \<Rightarrow> string \<Rightarrow> tunnel_state \<Rightarrow> ('w, json) wop" where
  "set_tunnel_state env name payload =
     bindm (on_world (client_tunnel_status (we_send env) (Some name))) (\<lambda>status_result.
     bindm (liftr (status_tunnels status_result)) (\<lambda>live_tunnels.
     bindm (assertm (truthy live_tunnels) unknown_tunnel) (\<lambda>_.
     bindm (liftr (first_of live_tunnels)) (\<lambda>first.
     bindm (liftr (as_obj first)) (\<lambda>tunnel_info.
     bindm (if ts_action payload = ''activate'' \<and> \<not> ts_force payload
            then bindm (liftr (activation_candidates tunnel_info)) (check_overlap env activate_overlap)
            else ret ()) (\<lambda>_.
     bindm (on_world (client_set_tunnel_state (we_send env) name (ts_action payload))) (\<lambda>_.
     ret status_ok)))))))"

definition list_entry :: "metadata \<Rightarrow> json \<Rightarrow> aexn + json" where
  "list_entry metadata tv =
     (case as_obj tv of Inl e \<Rightarrow> Inl e | Inr t \<Rightarrow>
     (case jindex tv ''name'' of Inl e \<Rightarrow> Inl e | Inr name \<Rightarrow>
     (case name of JList _ \<Rightarrow> Inl (AppExc ''TypeError'') | JObj _ \<Rightarrow> Inl (AppExc ''TypeError'') | _ \<Rightarrow>
     (let mode = jget_or t ''mode'' (JStr ''server'');
          meta = (case name of JStr n \<Rightarrow> map_of metadata n | _ \<Rightarrow> None)
      in case jindex tv ''active'' of Inl e \<Rightarrow> Inl e | Inr active \<Rightarrow>
        (let entry = [(''name'', name), (''mode'', mode), (''active'', active),
                      (''public_key'', jget t ''public_key'')]
         in if mode = JStr ''client''
         then (case (if truthy (jget t ''peers'')
                     then (case first_of (jget t ''peers'') of Inl e \<Rightarrow> Inl e | Inr p \<Rightarrow> as_obj p)
                     else Inr []) of
                 Inl e \<Rightarrow> Inl e
               | Inr live_peer \<Rightarrow> Inr (JObj (entry @
                   [(''remote_endpoint'', jget t ''configured_endpoint''),
                    (''remote_allowed_ips'', jget_or t ''configured_allowed_ips'' (JList [])),
                    (''latest_handshake'', jget live_peer ''latest_handshake''),
                    (''rx_bytes'', jget live_peer ''rx_bytes''),
                    (''tx_bytes'', jget live_peer ''tx_bytes'')])))
         else Inr (JObj (entry @
                   [(''address'', (case meta of Some m \<Rightarrow> if tm_address m \<noteq> [] then JStr (tm_address m)
                                                      else jget t ''configured_address''
                                   | None \<Rightarrow> jget t ''configured_address'')),
                    (''endpoint'', (case meta of Some m \<Rightarrow> opt_str (tm_endpoint m) | None \<Rightarrow> JNull)),
                    (''listen_port'', jget t ''listen_port''),
                    (''peer_count'', JInt (case meta of Some m \<Rightarrow> int (length (tm_peers m)) | None \<Rightarrow> 0))])))))))"

fun map_sum :: "('a \<Rightarrow> 'e + 'b) \<Rightarrow> 'a list \<Rightarrow> 'e + 'b list" where
  \<comment> \<open>a loop that collects results and stops at the first exception\<close>
  "map_sum f [] = Inr []"
| "map_sum f (x # xs) = (case f x of Inl e \<Rightarrow> Inl e
     | Inr y \<Rightarrow> (case map_sum f xs of Inl e \<Rightarrow> Inl e | Inr ys \<Rightarrow> Inr (y # ys)))"

definition list_tunnels :: "'w wgenv \<Rightarrow> ('w, json) wop" where
  "list_tunnels env =
     bindm (on_world (client_tunnel_status (we_send env) None)) (\<lambda>status_result.
     bindm load_metadata (\<lambda>metadata.
     bindm (liftr (status_tunnels status_result)) (\<lambda>ts.
     bindm (liftr (as_iter ts)) (\<lambda>tunnels.
     bindm (liftr (map_sum (list_entry metadata) tunnels)) (\<lambda>entries.
     ret (JList entries))))))"

section \<open>Peers\<close>

definition live_key :: "json \<Rightarrow> aexn + (json \<times> json)" where
  "live_key p = (case jindex p ''public_key'' of
     Inl e \<Rightarrow> Inl e
   | Inr (JList _) \<Rightarrow> Inl (AppExc ''TypeError'') | Inr (JObj _) \<Rightarrow> Inl (AppExc ''TypeError'')
   | Inr k \<Rightarrow> Inr (k, p))"

definition live_keys :: "json \<Rightarrow> aexn + (json \<times> json) list" where
  \<comment> \<open>the peers of one tunnel entry of the status\<close>
  "live_keys tv = (case as_obj tv of Inl e \<Rightarrow> Inl e | Inr t \<Rightarrow>
     (case as_iter (jget_or t ''peers'' (JList [])) of Inl e \<Rightarrow> Inl e
      | Inr ps \<Rightarrow> map_sum live_key ps))"

definition peer_row :: "(json \<times> json) list \<Rightarrow> peer_meta \<Rightarrow> aexn + json" where
  "peer_row live_by_key peer =
     (case (case pm_public_key peer of
              JList _ \<Rightarrow> Inl (AppExc ''TypeError'') | JObj _ \<Rightarrow> Inl (AppExc ''TypeError'')
            | k \<Rightarrow> as_obj (case map_of live_by_key k of None \<Rightarrow> JObj [] | Some p \<Rightarrow> p)) of
        Inl e \<Rightarrow> Inl e
      | Inr live \<Rightarrow> Inr (JObj
          [(''id'', JStr (pm_id peer)), (''description'', JStr (pm_description peer)),
           (''tunnel_address'', JStr (pm_tunnel_address peer)),
           (''allowed_ips'', JList (map JStr (pm_allowed_ips peer))),
           (''latest_handshake'', jget live ''latest_handshake''),
           (''rx_bytes'', jget live ''rx_bytes''), (''tx_bytes'', jget live ''tx_bytes'')]))"

definition list_peers :: "'w wgenv \<Rightarrow> string \<Rightarrow> ('w, json) wop" where
  "list_peers env name =
     bindm load_metadata (\<lambda>metadata.
     bindm (liftr (case map_of metadata name of None \<Rightarrow> Inl unknown_tunnel | Some t \<Rightarrow> Inr t)) (\<lambda>tunnel_meta.
     bindm (on_world (client_tunnel_status (we_send env) (Some name))) (\<lambda>status_result.
     bindm (liftr (status_tunnels status_result)) (\<lambda>ts.
     bindm (liftr (as_iter ts)) (\<lambda>tunnels.
     bindm (liftr (map_sum live_keys tunnels)) (\<lambda>live.
     bindm (liftr (map_sum (peer_row (rev (concat live))) (tm_peers tunnel_meta))) (\<lambda>rows.
     ret (JList rows))))))))"

definition not_active :: aexn where
  \<comment> \<open>the source has an em dash (U+2014) where the text below has a hyphen\<close>
  "not_active = HTTPExc 409 ''Tunnel is not active - start it before adding peers''"

definition server_key_of :: "json \<Rightarrow> aexn + json" where
  "server_key_of live_tunnels =
     (if truthy live_tunnels
      then (case first_of live_tunnels of Inl e \<Rightarrow> Inl e
            | Inr t \<Rightarrow> (case as_obj t of Inl e \<Rightarrow> Inl e | Inr d \<Rightarrow> Inr (jget d ''public_key'')))
      else Inr JNull)"

definition peer_begin :: "'w wgenv \<Rightarrow> string \<Rightarrow> ('w, metadata \<times> tun_meta \<times> json) wop" where
  \<comment> \<open>the metadata is read, then the status is awaited\<close>
  "peer_begin env name =
     bindm load_metadata (\<lambda>metadata.
     bindm (liftr (case map_of metadata name of None \<Rightarrow> Inl unknown_tunnel | Some t \<Rightarrow> Inr t)) (\<lambda>tunnel_meta.
     bindm (on_world (client_tunnel_status (we_send env) (Some name))) (\<lambda>status_result.
     bindm (liftr (status_tunnels status_result)) (\<lambda>live_tunnels.
     bindm (liftr (server_key_of live_tunnels)) (\<lambda>server_public_key.
     bindm (assertm (truthy server_public_key) not_active) (\<lambda>_.
     ret (metadata, tunnel_meta, server_public_key)))))))"

record peer_keys =
  pk_address :: string
  pk_keypair :: json
  pk_psk :: json

definition peer_add :: "'w wgenv \<Rightarrow> string \<Rightarrow> peer_create \<Rightarrow> tun_meta \<Rightarrow> ('w, peer_keys) wop" where
  \<comment> \<open>the address, the keys, and the call that adds the peer to the server\<close>
  "peer_add env name payload tunnel_meta =
     bindm (liftr (allocate_peer_address tunnel_meta)) (\<lambda>peer_address.
     bindm (on_world (client_genkey (we_send env))) (\<lambda>keypair.
     bindm (if pc_preshared_key payload
            then bindm (on_world (client_genkey (we_send env))) (\<lambda>k. liftr (jindex k ''private_key''))
            else ret JNull) (\<lambda>psk.
     bindm (liftr (jindex keypair ''public_key'')) (\<lambda>public_key.
     bindm (on_world (client_add_peer (we_send env) name public_key [peer_address] psk
              (pc_keepalive payload))) (\<lambda>_.
     ret \<lparr>pk_address = peer_address, pk_keypair = keypair, pk_psk = psk\<rparr>)))))"

definition new_peer :: "'w wgenv \<Rightarrow> nat \<Rightarrow> peer_create \<Rightarrow> string \<Rightarrow> json \<Rightarrow> peer_meta" where
  "new_peer env t payload peer_address public_key =
     \<lparr>pm_id = we_uuid env t, pm_description = pc_description payload,
      pm_tunnel_address = peer_address, pm_allowed_ips = map str_net (pc_allowed_ips payload),
      pm_public_key = public_key, pm_created_by = we_sub env\<rparr>"

definition add_meta_peer :: "string \<Rightarrow> tun_meta \<Rightarrow> peer_meta \<Rightarrow> metadata \<Rightarrow> metadata" where
  \<comment> \<open>\<open>tunnel_meta["peers"].append\<close>: the tunnel's entry of the same \<open>metadata\<close> object changes\<close>
  "add_meta_peer name t p metadata = AList.update name (t\<lparr>tm_peers := tm_peers t @ [p]\<rparr>) metadata"

definition peer_store :: "'w wgenv \<Rightarrow> string \<Rightarrow> peer_create \<Rightarrow> metadata \<Rightarrow> tun_meta \<Rightarrow> peer_keys \<Rightarrow> ('w, unit) wop" where
  "peer_store env name payload metadata tunnel_meta ks =
     bindm (liftr (jindex (pk_keypair ks) ''public_key'')) (\<lambda>public_key.
     bindm getm (\<lambda>s.
     save_metadata env (add_meta_peer name tunnel_meta
       (new_peer env (wa_tick s) payload (pk_address ks) public_key) metadata)))"

definition client_lines :: "peer_create \<Rightarrow> tun_meta \<Rightarrow> json \<Rightarrow> string \<Rightarrow> json \<Rightarrow> json \<Rightarrow> string list" where
  "client_lines payload tunnel_meta server_public_key peer_address private_key psk =
     [''[Interface]'', ''PrivateKey = '' @ py_str private_key, ''Address = '' @ peer_address, [],
      ''[Peer]'', ''PublicKey = '' @ py_str server_public_key] @
     (if truthy psk then [''PresharedKey = '' @ py_str psk] else []) @
     [''AllowedIPs = '' @ py_join '', '' (map str_net (pc_allowed_ips payload))] @
     [(case tm_endpoint tunnel_meta of
         Some e \<Rightarrow> if e \<noteq> [] then ''Endpoint = '' @ e @ '':'' @ dec_int (tm_listen_port tunnel_meta)
                   else ''# Endpoint = <this server's reachable address>:'' @ dec_int (tm_listen_port tunnel_meta)
       | None \<Rightarrow> ''# Endpoint = <this server's reachable address>:'' @ dec_int (tm_listen_port tunnel_meta))] @
     (case pc_keepalive payload of
        Some k \<Rightarrow> if k \<noteq> 0 then [''PersistentKeepalive = '' @ dec_int k] else [] | None \<Rightarrow> [])"

definition client_conf :: "peer_create \<Rightarrow> tun_meta \<Rightarrow> json \<Rightarrow> string \<Rightarrow> json \<Rightarrow> json \<Rightarrow> string" where
  "client_conf payload tunnel_meta server_public_key peer_address private_key psk =
     py_join [nl] (client_lines payload tunnel_meta server_public_key peer_address private_key psk) @ [nl]"

definition safe_filename :: "string \<Rightarrow> string" where
  "safe_filename description =
     (let s = map (\<lambda>c. if py_isalnum_char c \<or> c \<in> set ''._-'' then c else CHR ''_'') description
      in if s = [] then ''peer'' else s)"

record peer_response =
  pr_content :: string
  pr_disposition :: string

definition peer_reply :: "peer_create \<Rightarrow> tun_meta \<Rightarrow> json \<Rightarrow> peer_keys \<Rightarrow> ('w, peer_response) wop" where
  "peer_reply payload tunnel_meta server_public_key ks =
     bindm (liftr (jindex (pk_keypair ks) ''private_key'')) (\<lambda>private_key.
     ret \<lparr>pr_content = client_conf payload tunnel_meta server_public_key (pk_address ks) private_key (pk_psk ks),
          pr_disposition = ''attachment; filename='' @ [CHR 0x22] @ safe_filename (pc_description payload) @
            ''.conf'' @ [CHR 0x22]\<rparr>)"

definition create_peer :: "'w wgenv \<Rightarrow> string \<Rightarrow> peer_create \<Rightarrow> ('w, peer_response) wop" where
  "create_peer env name payload =
     bindm (peer_begin env name) (\<lambda>(metadata, tunnel_meta, server_public_key).
     bindm (peer_add env name payload tunnel_meta) (\<lambda>ks.
     bindm (peer_store env name payload metadata tunnel_meta ks) (\<lambda>_.
     peer_reply payload tunnel_meta server_public_key ks)))"

definition delete_peer :: "'w wgenv \<Rightarrow> string \<Rightarrow> string \<Rightarrow> ('w, json) wop" where
  "delete_peer env name peer_id =
     bindm load_metadata (\<lambda>metadata.
     bindm (liftr (case map_of metadata name of None \<Rightarrow> Inl unknown_tunnel | Some t \<Rightarrow> Inr t)) (\<lambda>tunnel_meta.
     bindm (liftr (case find (\<lambda>p. pm_id p = peer_id) (tm_peers tunnel_meta) of
              None \<Rightarrow> Inl (HTTPExc 404 ''Unknown peer'') | Some p \<Rightarrow> Inr p)) (\<lambda>peer.
     bindm (on_world (client_remove_peer (we_send env) name (pm_public_key peer))) (\<lambda>_.
     bindm (save_metadata env (AList.update name
              (tunnel_meta\<lparr>tm_peers := filter (\<lambda>p. pm_id p \<noteq> peer_id) (tm_peers tunnel_meta)\<rparr>) metadata)) (\<lambda>_.
     ret status_ok)))))"

definition status_snapshot :: "'w wgenv \<Rightarrow> ('w, json) wop" where
  "status_snapshot env = on_world (client_tunnel_status (we_send env) None)"

end
