(* ===== verification/Models.thy ===== *)
theory Models
  imports WgApp
begin

text \<open>
  The request bodies of src/app/models.py.  A body that reaches a handler is a record whose
  addresses have been parsed; the predicates \<open>..._ok\<close> are the constraints of its fields
  (\<open>Field(pattern=..., ge=..., min_length=...)\<close>).  Unlike the patterns of the root helper, these
  are matched by pydantic's own engine, whose dollar sign means the end of the text only.
  The bodies for tunnels and peers are declared in \<open>WgApp\<close>, whose handlers use them.
\<close>

section \<open>Patterns\<close>

definition iface_char :: "char \<Rightarrow> bool" where
  "iface_char c \<longleftrightarrow> is_ascii_alnum c \<or> c \<in> set ''_.-''"

definition iface_pattern :: "string \<Rightarrow> bool" where
  "iface_pattern s \<longleftrightarrow> 1 \<le> length s \<and> length s \<le> 15 \<and> list_all iface_char s"

definition tunnel_name_pattern :: "string \<Rightarrow> bool" where
  "tunnel_name_pattern s \<longleftrightarrow> 1 \<le> length s \<and> length s \<le> 15 \<and>
     list_all (\<lambda>c. is_ascii_alnum c \<or> c \<in> set ''_-'') s"

definition peer_description_pattern :: "string \<Rightarrow> bool" where
  "peer_description_pattern s \<longleftrightarrow> 1 \<le> length s \<and> length s \<le> 64 \<and>
     list_all (\<lambda>c. is_ascii_alnum c \<or> c \<in> set '' _.-'') s"

definition endpoint_host_pattern :: "string \<Rightarrow> bool" where
  "endpoint_host_pattern s \<longleftrightarrow> 1 \<le> length s \<and> length s \<le> 255 \<and>
     list_all (\<lambda>c. is_ascii_alnum c \<or> c \<in> set ''.-'') s"

section \<open>Bodies\<close>

definition v4_iface_ok :: "ipiface \<Rightarrow> bool" where
  \<comment> \<open>an \<open>IPv4Interface\<close>\<close>
  "v4_iface_ok i \<longleftrightarrow> wf_iface i \<and> is_v4_iface i"

definition v4_net_ok :: "ipnet \<Rightarrow> bool" where
  \<comment> \<open>an \<open>IPv4Network\<close>\<close>
  "v4_net_ok n \<longleftrightarrow> wf_net n \<and> aver (naddr n) = V4 \<and> ascope (naddr n) = None"

definition v4_addr_ok :: "ipaddr \<Rightarrow> bool" where
  \<comment> \<open>an \<open>IPv4Address\<close>\<close>
  "v4_addr_ok a \<longleftrightarrow> wf_addr a \<and> aver a = V4 \<and> ascope a = None"

definition tunnel_create_ok :: "tunnel_create \<Rightarrow> bool" where
  "tunnel_create_ok p \<longleftrightarrow> tunnel_name_pattern (tc_name p) \<and> v4_iface_ok (tc_address p) \<and>
     1024 \<le> tc_listen_port p \<and> tc_listen_port p \<le> 65535 \<and>
     (\<forall>e. tc_endpoint p = Some e \<longrightarrow> endpoint_host_pattern e)"

definition peer_create_ok :: "peer_create \<Rightarrow> bool" where
  "peer_create_ok p \<longleftrightarrow> peer_description_pattern (pc_description p) \<and>
     pc_allowed_ips p \<noteq> [] \<and> list_all v4_net_ok (pc_allowed_ips p) \<and>
     (\<forall>k. pc_keepalive p = Some k \<longrightarrow> 0 \<le> k \<and> k \<le> 3600)"

definition tunnel_state_ok :: "tunnel_state \<Rightarrow> bool" where
  "tunnel_state_ok p \<longleftrightarrow> ts_action p \<in> {''activate'', ''deactivate'', ''disconnect''}"

datatype iface_method = Dhcp | Static

record net_config =
  nc_interface :: string
  nc_method :: iface_method
  nc_address :: "ipiface option"
  nc_gateway :: "ipaddr option"
  nc_dns :: "ipaddr list option"

definition address_required_for_static :: "iface_method \<Rightarrow> ipiface option \<Rightarrow> bool" where
  \<comment> \<open>false where the validator raises\<close>
  "address_required_for_static m v \<longleftrightarrow> \<not> (m = Static \<and> v = None)"

definition net_config_body :: "string \<Rightarrow> iface_method \<Rightarrow> ipiface option option \<Rightarrow> ipaddr option \<Rightarrow>
    ipaddr list option \<Rightarrow> net_config option" where
  \<comment> \<open>the address is \<open>None\<close> when the field is absent; a validator of a field runs on given values
      only, not on the default\<close>
  "net_config_body interface m address gateway dns =
     (if iface_pattern interface \<and>
         (case address of None \<Rightarrow> True | Some v \<Rightarrow> address_required_for_static m v)
      then Some \<lparr>nc_interface = interface, nc_method = m,
             nc_address = (case address of None \<Rightarrow> None | Some v \<Rightarrow> v),
             nc_gateway = gateway, nc_dns = dns\<rparr>
      else None)"

record wifi_connect_req =
  wc_ssid :: string
  wc_psk :: "string option"
  wc_connection_name :: "string option"

definition wifi_connect_ok :: "wifi_connect_req \<Rightarrow> bool" where
  "wifi_connect_ok p \<longleftrightarrow> 1 \<le> length (wc_ssid p) \<and> length (wc_ssid p) \<le> 32 \<and>
     (\<forall>k. wc_psk p = Some k \<longrightarrow> 8 \<le> length k \<and> length k \<le> 63) \<and>
     (\<forall>n. wc_connection_name p = Some n \<longrightarrow> 1 \<le> length n \<and> length n \<le> 64)"

record route_req =
  rr_destination :: ipnet
  rr_gateway :: "ipaddr option"
  rr_interface :: string
  rr_table :: "int option"

definition route_req_ok :: "route_req \<Rightarrow> bool" where
  "route_req_ok p \<longleftrightarrow> v4_net_ok (rr_destination p) \<and> iface_pattern (rr_interface p) \<and>
     (\<forall>g. rr_gateway p = Some g \<longrightarrow> v4_addr_ok g) \<and>
     (\<forall>t. rr_table p = Some t \<longrightarrow> 1 \<le> t \<and> t \<le> 252)"

record route_delete_req =
  rd_destination :: ipnet
  rd_interface :: string
  rd_table :: "int option"

definition route_delete_req_ok :: "route_delete_req \<Rightarrow> bool" where
  "route_delete_req_ok p \<longleftrightarrow> v4_net_ok (rd_destination p) \<and> iface_pattern (rd_interface p) \<and>
     (\<forall>t. rd_table p = Some t \<longrightarrow> 1 \<le> t \<and> t \<le> 252)"

section \<open>What the root helper makes of them\<close>

lemma tunnel_name_core: "tunnel_name_pattern s = name_core s"
  by (auto simp: tunnel_name_pattern_def name_core_def name_char_def list_all_iff)

lemma tunnel_name_valid: "tunnel_name_pattern s \<Longrightarrow> valid_name s"
  by (auto simp: tunnel_name_core valid_name_def or_nl_def)

lemma v4_net_noscope: "v4_net_ok n \<Longrightarrow> noscope (naddr n)"
  by (simp add: v4_net_ok_def noscope_def)

lemma keepalive_accepted:
  "peer_create_ok p \<Longrightarrow> keepalive_ok (opt_int (pc_keepalive p))"
  by (cases "pc_keepalive p") (auto simp: peer_create_ok_def keepalive_ok_def opt_int_def)

lemma action_accepted: "tunnel_state_ok p \<Longrightarrow> action_of (JStr (ts_action p)) = Inr (ts_action p)"
  by (auto simp: tunnel_state_ok_def action_of_def)

text \<open>The validator of the address does not run when the field is absent.\<close>

lemma static_without_address:
  "iface_pattern i \<Longrightarrow> net_config_body i Static None gw dns =
     Some \<lparr>nc_interface = i, nc_method = Static, nc_address = None, nc_gateway = gw, nc_dns = dns\<rparr>"
  by (simp add: net_config_body_def)

end
