(* ===== verification/WgAppProps.thy ===== *)
theory WgAppProps
  imports WgApp
begin

text \<open>
  Properties of the WireGuard handlers of the web application: the overlap check is exact, peer
  addresses are never handed out twice, the metadata stays consistent, the downloaded
  configuration says what was asked for, activation is guarded, and what an interleaving of two
  requests can lose.
\<close>

section \<open>The overlap check\<close>

definition shares_address :: "ipnet \<Rightarrow> ipnet \<Rightarrow> bool" where
  "shares_address n m \<longleftrightarrow> (\<exists>a. wf_addr a \<and> in_net a n \<and> in_net a m)"

definition local_nets :: "local_ifaces \<Rightarrow> ipnet list" where
  \<comment> \<open>the directly connected IPv4 subnets\<close>
  "local_nets ifaces = List.map_filter local_net (concat (map snd ifaces))"

lemma addr_conflicts_empty:
  "addr_conflicts cands n a = [] \<longleftrightarrow> (\<forall>l. local_net a = Some l \<longrightarrow> (\<forall>c\<in>set cands. \<not> overlaps c l))"
  by (auto simp: addr_conflicts_def filter_empty_conv split: option.splits)

lemma local_nets_mem:
  "l \<in> set (local_nets ifaces) \<longleftrightarrow> (\<exists>n addrs a. (n, addrs) \<in> set ifaces \<and> a \<in> set addrs \<and> local_net a = Some l)"
  by (force simp: local_nets_def List.map_filter_def)

lemma overlapping_empty:
  "overlapping_local_subnets ifaces cands = [] \<longleftrightarrow>
   (\<forall>l\<in>set (local_nets ifaces). \<forall>c\<in>set cands. \<not> overlaps c l)"
proof -
  have "overlapping_local_subnets ifaces cands = [] \<longleftrightarrow>
      (\<forall>n addrs a. (n, addrs) \<in> set ifaces \<longrightarrow> a \<in> set addrs \<longrightarrow> addr_conflicts cands n a = [])"
    by (fastforce simp: overlapping_local_subnets_def)
  also have "\<dots> \<longleftrightarrow> (\<forall>l\<in>set (local_nets ifaces). \<forall>c\<in>set cands. \<not> overlaps c l)"
    unfolding addr_conflicts_empty Ball_def local_nets_mem by blast
  finally show ?thesis .
qed

lemma local_net_wf: "local_net a = Some l \<Longrightarrow> wf_net l"
  by (auto simp: local_net_def split: if_splits option.splits dest: ip_interface_wf wf_iface_net)

lemma overlaps_shares:
  assumes "wf_net n" and "wf_net m"
  shows "overlaps n m \<longleftrightarrow> shares_address n m"
proof
  assume "overlaps n m"
  then obtain x where x: "aver (naddr n) = aver (naddr m)" "x \<in> net_range n" "x \<in> net_range m"
    using overlaps_iff_common [OF assms] by blast
  let ?a = "addr_of_int (aver (naddr n)) x"
  have "wf_addr ?a"
    using x(2) wf_net_le_ones [OF assms(1)] assms(1)
    by (auto simp: net_range_broadcast wf_addr_def wf_net_def addr_of_int_def)
  moreover have "in_net ?a n" "in_net ?a m"
    using x in_net_iff [OF assms(1) calculation] in_net_iff [OF assms(2) calculation]
    by (simp_all add: addr_of_int_def)
  ultimately show "shares_address n m" unfolding shares_address_def by blast
next
  assume "shares_address n m"
  then obtain a where a: "wf_addr a" "in_net a n" "in_net a m" by (auto simp: shares_address_def)
  then have "aver (naddr n) = aver (naddr m)" "aint a \<in> net_range n" "aint a \<in> net_range m"
    using in_net_iff [OF assms(1) a(1)] in_net_iff [OF assms(2) a(1)] by auto
  then show "overlaps n m" using overlaps_iff_common [OF assms] by blast
qed

lemma overlap_exact:
  assumes "list_all wf_net candidates"
  shows "overlapping_local_subnets ifaces candidates = [] \<longleftrightarrow>
    (\<forall>l\<in>set (local_nets ifaces). \<forall>c\<in>set candidates. \<not> shares_address c l)"
proof -
  have "wf_net l" if "l \<in> set (local_nets ifaces)" for l
    using that local_net_wf unfolding local_nets_mem by blast
  then show ?thesis
    using assms overlaps_shares unfolding overlapping_empty list_all_iff by blast
qed

text \<open>C11: the overlap check is exact: it reports nothing if and only if no candidate subnet has an
  address in common with a directly connected IPv4 subnet of this device.\<close>

theorem overlap_check_exact:
  assumes "list_all wf_net candidates"
  shows "overlapping_local_subnets ifaces candidates = [] \<longleftrightarrow>
    (\<forall>l\<in>set (local_nets ifaces). \<forall>c\<in>set candidates. \<not> shares_address c l)"
  using assms by (rule overlap_exact)

definition lan :: local_ifaces where
  "lan = [(''eth0'', [\<lparr>ia_family = 2, ia_address = ''192.168.1.10'', ia_netmask = Some ''255.255.255.0''\<rparr>])]"

definition lan_net :: ipnet where
  "lan_net = mk_net (addr_of_int V4 3232235776) 24"

lemma wf_lan_net: "wf_net lan_net"
  unfolding lan_net_def by (rule wf_mk_net) (simp_all add: wf_addr_def addr_of_int_def all_ones_def)

theorem overlap_check_exact_witness:
  "overlapping_local_subnets lan [lan_net] \<noteq> [] \<and>
   (\<exists>l\<in>set (local_nets lan). shares_address lan_net l)"
proof -
  have "overlapping_local_subnets lan [lan_net] \<noteq> []" by code_simp
  then show ?thesis using overlap_check_exact [of "[lan_net]" lan] wf_lan_net by simp
qed

section \<open>Peer addresses\<close>

definition peer_ip :: "peer_meta \<Rightarrow> ipaddr option" where
  "peer_ip p = map_option ip_of_iface (ip_interface (pm_tunnel_address p))"

lemma peer_ips_map: "peer_ips ps = Some as \<longleftrightarrow> map peer_ip ps = map Some as"
  by (induction ps arbitrary: as) (auto simp: peer_ip_def Cons_eq_map_conv split: option.splits)

lemma sorted_hosts: "sorted_wrt (\<lambda>a b. aint a < aint b) (hosts n)"
proof -
  have lt: "(\<lambda>x y. aint (addr_of_int v x) < aint (addr_of_int v y)) = (<)" for v
    by (simp add: addr_of_int_def fun_eq_iff)
  have up: "sorted_wrt (\<lambda>a b. aint a < aint b) (map (addr_of_int v) [i..j])" for v i j
    unfolding sorted_wrt_map lt by (rule sorted_wrt_upto)
  show ?thesis
    unfolding hosts_def Let_def using up by (cases "aver (naddr n)") auto
qed

lemma find_least:
  assumes "find P xs = Some x" and "sorted_wrt (\<lambda>a b. f a < (f b :: int)) xs"
    and "y \<in> set xs" and "f y < f x"
  shows "\<not> P y"
proof -
  from find_Some_least [OF assms(1)] obtain ys zs where
    xs: "xs = ys @ x # zs" "\<forall>y\<in>set ys. \<not> P y" by blast
  then have "y \<notin> set zs" using assms(2,4) by (auto simp: sorted_wrt_append)
  with xs assms(3,4) show ?thesis by auto
qed

definition taken :: "ipiface \<Rightarrow> peer_meta list \<Rightarrow> ipaddr \<Rightarrow> bool" where
  \<comment> \<open>the address of the tunnel itself or of one of its peers\<close>
  "taken iface ps a \<longleftrightarrow> a = ip_of_iface iface \<or> (\<exists>p\<in>set ps. peer_ip p = Some a)"

lemma used_taken:
  assumes "peer_ips ps = Some used"
  shows "a \<in> set (ip_of_iface iface # used) \<longleftrightarrow> taken iface ps a"
proof -
  have "map peer_ip ps = map Some used" using assms by (simp add: peer_ips_map)
  then have "set (map peer_ip ps) = set (map Some used)" by simp
  then have "Some a \<in> Some ` set used \<longleftrightarrow> Some a \<in> peer_ip ` set ps" by simp
  then have "a \<in> set used \<longleftrightarrow> (\<exists>p\<in>set ps. peer_ip p = Some a)"
    by (simp add: image_iff) (metis (no_types))
  then show ?thesis by (auto simp: taken_def)
qed

lemma allocate_cases:
  "allocate_peer_address t = r \<longleftrightarrow>
     (case (ip_interface (tm_address t), peer_ips (tm_peers t)) of
        (Some iface, Some _) \<Rightarrow>
          r = (case find (\<lambda>h. \<not> taken iface (tm_peers t) h) (hosts (inet iface)) of
                 Some h \<Rightarrow> Inr (str_addr h @ ''/32'') | None \<Rightarrow> Inl no_free_address)
      | _ \<Rightarrow> r = Inl (AppExc ''ValueError''))"
proof (cases "ip_interface (tm_address t)")
  case None
  then show ?thesis by (auto simp: allocate_peer_address_def)
next
  case iface: (Some iface)
  show ?thesis
  proof (cases "peer_ips (tm_peers t)")
    case None
    with iface show ?thesis by (auto simp: allocate_peer_address_def)
  next
    case (Some used)
    with iface show ?thesis
      unfolding allocate_peer_address_def by (auto simp: used_taken [OF Some] simp del: set_simps)
  qed
qed

lemma allocate_free:
  assumes "allocate_peer_address t = Inr s"
  shows "\<exists>iface h. ip_interface (tm_address t) = Some iface \<and> s = str_addr h @ ''/32'' \<and>
    h \<in> set (hosts (inet iface)) \<and> \<not> taken iface (tm_peers t) h \<and>
    (\<forall>a\<in>set (hosts (inet iface)). aint a < aint h \<longrightarrow> taken iface (tm_peers t) a)"
proof -
  from assms obtain iface h where i: "ip_interface (tm_address t) = Some iface"
      and h: "find (\<lambda>h. \<not> taken iface (tm_peers t) h) (hosts (inet iface)) = Some h"
      and s: "s = str_addr h @ ''/32''"
    by (auto simp: allocate_cases split: option.splits)
  have "\<forall>a\<in>set (hosts (inet iface)). aint a < aint h \<longrightarrow> taken iface (tm_peers t) a"
    using find_least [OF h sorted_hosts] by blast
  with i s find_Some_least [OF h] show ?thesis by blast
qed

text \<open>C23: an allocated peer address is an address of the tunnel's subnet that is neither the tunnel's
  own nor any peer's, and it is the smallest such address; the text handed out is that address
  with prefix length 32.\<close>

theorem allocated_address_free:
  assumes "allocate_peer_address t = Inr s"
  shows "\<exists>iface h. ip_interface (tm_address t) = Some iface \<and> s = str_addr h @ ''/32'' \<and>
    h \<in> set (hosts (inet iface)) \<and> \<not> taken iface (tm_peers t) h \<and>
    (\<forall>a\<in>set (hosts (inet iface)). aint a < aint h \<longrightarrow> taken iface (tm_peers t) a)"
  using assms by (rule allocate_free)

definition tun_meta_a :: tun_meta where
  "tun_meta_a = \<lparr>tm_address = ''10.0.0.1/30'', tm_endpoint = Some ''vpn.example'', tm_listen_port = 51820,
     tm_peers = []\<rparr>"

lemma allocate_a: "allocate_peer_address tun_meta_a = Inr ''10.0.0.2/32''"
  by code_simp

theorem allocated_address_free_witness:
  "\<exists>iface h. ip_interface ''10.0.0.1/30'' = Some iface \<and> ''10.0.0.2/32'' = str_addr h @ ''/32'' \<and>
    h \<in> set (hosts (inet iface)) \<and> \<not> taken iface [] h"
  using allocated_address_free [OF allocate_a] by (auto simp: tun_meta_a_def)

text \<open>C36: the refusal is honest: the answer 409 is given if and only if the stored addresses can be
  read and every host address of the subnet is taken.\<close>

theorem allocation_refused_iff_full:
  "allocate_peer_address t = Inl no_free_address \<longleftrightarrow>
     (\<exists>iface. ip_interface (tm_address t) = Some iface \<and>
       (\<forall>p\<in>set (tm_peers t). peer_ip p \<noteq> None) \<and>
       (\<forall>h\<in>set (hosts (inet iface)). taken iface (tm_peers t) h))"
proof -
  have "(\<exists>used. peer_ips ps = Some used) \<longleftrightarrow> (\<forall>p\<in>set ps. peer_ip p \<noteq> None)" for ps
    by (induction ps) (auto simp: peer_ip_def split: option.splits)
  then have "(\<exists>used. peer_ips (tm_peers t) = Some used) \<longleftrightarrow> (\<forall>p\<in>set (tm_peers t). peer_ip p \<noteq> None)" .
  moreover have "find (\<lambda>h. \<not> taken i (tm_peers t) h) (hosts (inet i)) = None \<longleftrightarrow>
      (\<forall>h\<in>set (hosts (inet i)). taken i (tm_peers t) h)" for i
    by (auto simp: find_None_iff)
  moreover have "allocate_peer_address t = Inl no_free_address \<longleftrightarrow>
      (\<exists>iface used. ip_interface (tm_address t) = Some iface \<and> peer_ips (tm_peers t) = Some used \<and>
        find (\<lambda>h. \<not> taken iface (tm_peers t) h) (hosts (inet iface)) = None)"
    unfolding allocate_cases by (auto simp: no_free_address_def split: option.splits)
  ultimately show ?thesis by auto
qed

definition full_meta :: tun_meta where
  "full_meta = tun_meta_a\<lparr>tm_peers := [\<lparr>pm_id = ''1'', pm_description = ''phone'',
     pm_tunnel_address = ''10.0.0.2/32'', pm_allowed_ips = [], pm_public_key = JNull, pm_created_by = JNull\<rparr>]\<rparr>"

lemma allocate_full: "allocate_peer_address full_meta = Inl no_free_address"
  by code_simp

theorem allocation_refused_iff_full_witness:
  "\<exists>iface. ip_interface (tm_address full_meta) = Some iface \<and>
    list_all (taken iface (tm_peers full_meta)) (hosts (inet iface))"
  using allocation_refused_iff_full [THEN iffD1, OF allocate_full] by (auto simp: list_all_iff)

section \<open>Consistent metadata\<close>

definition tun_ok :: "tun_meta \<Rightarrow> bool" where
  "tun_ok t \<longleftrightarrow> (\<exists>iface as. ip_interface (tm_address t) = Some iface \<and> is_v4_iface iface \<and>
     map peer_ip (tm_peers t) = map Some as \<and> distinct (ip_of_iface iface # as) \<and>
     list_all (\<lambda>a. in_net a (inet iface)) as)"

definition meta_ok :: "metadata \<Rightarrow> bool" where
  "meta_ok m \<longleftrightarrow> (\<forall>n t. (n, t) \<in> set m \<longrightarrow> tun_ok t)"

definition meta_sound :: "'w wgapp \<Rightarrow> bool" where
  "meta_sound s \<longleftrightarrow> (case wa_meta s of Meta m \<Rightarrow> meta_ok m | _ \<Rightarrow> True)"

definition keeps_sound :: "'w wgapp \<Rightarrow> 'w wgapp \<Rightarrow> bool" where
  "keeps_sound s s' \<longleftrightarrow> (meta_sound s \<longrightarrow> meta_sound s')"

interpretation sound_meta: frame_rel keeps_sound
  by unfold_locales (auto simp: keeps_sound_def)

lemma keeps_on_world: "keeps keeps_sound (on_world m)"
  by (auto simp: keeps_def keeps_sound_def on_world_def meta_sound_def split: prod.splits)

lemma keeps_save: "meta_ok m \<Longrightarrow> keeps keeps_sound (save_metadata env m)"
  by (auto simp: keeps_def keeps_sound_def save_metadata_def meta_sound_def)

lemma keeps_load_bind:
  assumes "\<And>m. meta_ok m \<Longrightarrow> keeps keeps_sound (f m)"
  shows "keeps keeps_sound (bindm load_metadata f)"
  unfolding keeps_def keeps_sound_def
proof (intro allI impI)
  fix s :: "'a wgapp"
  assume s: "meta_sound s"
  show "meta_sound (snd (bindm load_metadata f s))"
  proof (cases rule: load_cases [of s])
    case (1 e)
    with s show ?thesis by (simp add: bindm_def)
  next
    case (2 m)
    then have "meta_ok m" using s by (auto simp: meta_sound_def meta_ok_def)
    then show ?thesis using assms [of m] s 2(1) by (simp add: bindm_def keeps_def keeps_sound_def)
  qed
qed

lemma update_mem: "(k, x) \<in> set (AList.update n v m) \<Longrightarrow> (k, x) \<in> set m \<or> x = v"
  by (induction m) (auto split: if_splits)

lemma meta_ok_update: "meta_ok m \<Longrightarrow> tun_ok t \<Longrightarrow> meta_ok (AList.update n t m)"
  unfolding meta_ok_def by (metis update_mem)

lemma meta_ok_delete: "meta_ok m \<Longrightarrow> meta_ok (AList.delete n m)"
  by (auto simp: meta_ok_def AList.delete_eq)

lemma meta_ok_lookup: "meta_ok m \<Longrightarrow> map_of m n = Some t \<Longrightarrow> tun_ok t"
  unfolding meta_ok_def by (metis map_of_SomeD)

lemma ip_of_v4: "is_v4_iface i \<Longrightarrow> ip_of_iface i = iaddr i"
  by (simp add: ip_of_iface_def is_v4_iface_def addr_of_int_def)

lemma hosts_v4:
  assumes "is_v4_iface iface" and "wf_iface iface" and "h \<in> set (hosts (inet iface))"
  shows "aver h = V4" "ascope h = None" "wf_addr h" "in_net h (inet iface)"
proof -
  have w: "wf_net (inet iface)" using assms(2) by (rule wf_iface_net)
  have net: "naddr (inet iface) = naddr (mk_net (iaddr iface) (nplen (inet iface)))"
    using assms(2) by (simp add: wf_iface_def)
  then have sc: "ascope (naddr (inet iface)) = None"
    using assms(1) by (simp add: mk_net_def is_v4_iface_def Let_def)
  show a: "aver h = V4" using set_hosts [OF w assms(3)] aver_inet [OF assms(2)] assms(1)
    by (simp add: is_v4_iface_def)
  show "ascope h = None" using hosts_noscope [OF sc assms(3)] .
  show wf: "wf_addr h" using hosts_wf [OF w assms(3)] .
  show "in_net h (inet iface)"
    using in_net_iff [OF w wf] set_hosts [OF w assms(3)] by simp
qed

lemma tun_ok_add:
  assumes "tun_ok t" and "allocate_peer_address t = Inr s" and "pm_tunnel_address p = s"
  shows "tun_ok (t\<lparr>tm_peers := tm_peers t @ [p]\<rparr>)"
proof -
  from assms(1) obtain iface as where i: "ip_interface (tm_address t) = Some iface"
      and v4: "is_v4_iface iface" and as: "map peer_ip (tm_peers t) = map Some as"
      and d: "distinct (ip_of_iface iface # as)" and n: "list_all (\<lambda>a. in_net a (inet iface)) as"
    by (auto simp: tun_ok_def)
  from allocate_free [OF assms(2)] i obtain h where h: "s = str_addr h @ ''/32''"
      "h \<in> set (hosts (inet iface))" "\<not> taken iface (tm_peers t) h"
    by auto
  have w: "wf_iface iface" using ip_interface_wf [OF i] .
  note hv = hosts_v4 [OF v4 w h(2)]
  have ph: "peer_ip p = Some h"
    using ip_network_host32 [OF hv(1,2,3)] hv assms(3) h(1)
    by (simp add: peer_ip_def ip_of_v4 is_v4_iface_def)
  have "peer_ips (tm_peers t) = Some as" using as by (simp add: peer_ips_map)
  from used_taken [OF this, of h iface] h(3) have "h \<notin> set (ip_of_iface iface # as)" by simp
  with i v4 as d n ph hv(4) show ?thesis
    unfolding tun_ok_def by (intro exI [of _ iface] exI [of _ "as @ [h]"]) auto
qed

lemma tun_ok_filter:
  assumes "tun_ok t"
  shows "tun_ok (t\<lparr>tm_peers := filter Q (tm_peers t)\<rparr>)"
proof -
  from assms obtain iface as where i: "ip_interface (tm_address t) = Some iface"
      "is_v4_iface iface" and as: "map peer_ip (tm_peers t) = map Some as"
      and d: "distinct (ip_of_iface iface # as)" "list_all (\<lambda>a. in_net a (inet iface)) as"
    by (auto simp: tun_ok_def)
  have "\<exists>bs. map peer_ip (filter Q ps) = map Some bs \<and>
      set bs \<subseteq> set as \<and> (distinct as \<longrightarrow> distinct bs)" if "map peer_ip ps = map Some as" for ps as
    using that
  proof (induction ps arbitrary: as)
    case Nil
    then show ?case by auto
  next
    case (Cons p ps)
    then obtain a as' where a: "as = a # as'" "peer_ip p = Some a" "map peer_ip ps = map Some as'"
      by (auto simp: Cons_eq_map_conv)
    from Cons.IH [OF a(3)] obtain bs where "map peer_ip (filter Q ps) = map Some bs"
        "set bs \<subseteq> set as'" "distinct as' \<longrightarrow> distinct bs" by blast
    with a show ?case
      by (intro exI [of _ "if Q p then a # bs else bs"]) auto
  qed
  from this [OF as] obtain bs where bs: "map peer_ip (filter Q (tm_peers t)) = map Some bs"
      "set bs \<subseteq> set as" "distinct as \<longrightarrow> distinct bs" by blast
  with i bs d show ?thesis
    unfolding tun_ok_def by (intro exI [of _ iface] exI [of _ bs]) (auto simp: list_all_iff)
qed

lemma keeps_check_overlap: "keeps keeps_sound (check_overlap env msg cands)"
  by (simp add: check_overlap_def Let_def sound_meta.keeps_assert)

lemmas sound_rules = sound_meta.keeps_basic sound_meta.keeps_bind sound_meta.keeps_lift_bind
  keeps_on_world keeps_check_overlap keeps_load_bind keeps_save

definition clean_payload :: "tunnel_create \<Rightarrow> bool" where
  \<comment> \<open>what the request model guarantees of the address: an IPv4 interface\<close>
  "clean_payload p \<longleftrightarrow> wf_iface (tc_address p) \<and> is_v4_iface (tc_address p)"

lemma keeps_create_tunnel: "clean_payload p \<Longrightarrow> keeps keeps_sound (create_tunnel env p)"
proof -
  assume "clean_payload p"
  then have "tun_ok \<lparr>tm_address = str_iface (tc_address p), tm_endpoint = tc_endpoint p,
      tm_listen_port = tc_listen_port p, tm_peers = []\<rparr>"
    by (simp add: tun_ok_def clean_payload_def ip_interface_str_iface)
  then show ?thesis
    unfolding create_tunnel_def
    by (intro sound_rules meta_ok_update) (simp_all add: sound_rules)
qed

lemma keeps_delete_tunnel: "keeps keeps_sound (delete_tunnel env name)"
  unfolding delete_tunnel_def by (intro sound_rules meta_ok_delete)

lemma keeps_create_peer: "keeps keeps_sound (create_peer env name payload)"
proof -
  have store: "keeps keeps_sound (peer_store env name payload m t ks)"
    if "meta_ok m" "map_of m name = Some t" "allocate_peer_address t = Inr (pk_address ks)" for m t ks
  proof -
    have "meta_ok (add_meta_peer name t (new_peer env n payload (pk_address ks) k) m)" for n k
      unfolding add_meta_peer_def using meta_ok_lookup [OF that(1,2)] that
      by (intro meta_ok_update tun_ok_add [where s = "pk_address ks"]) (simp_all add: new_peer_def)
    then show ?thesis
      unfolding peer_store_def
      by (intro sound_rules sound_meta.keeps_get) (simp_all add: keeps_save)
  qed
  have reply: "keeps keeps_sound (peer_reply payload t k ks)" for t k ks
    unfolding peer_reply_def by (intro sound_rules)
  have add: "keeps keeps_sound (bindm (peer_add env name payload t) (\<lambda>ks.
      bindm (peer_store env name payload m t ks) (\<lambda>_. peer_reply payload t k ks)))"
    if "meta_ok m" "map_of m name = Some t" for m t k
    unfolding peer_add_def bindm_assoc bindm_ret using that
    by (intro sound_rules store reply) (auto intro!: sound_rules)
  show ?thesis
    unfolding create_peer_def peer_begin_def bindm_assoc bindm_ret
    by (intro keeps_load_bind sound_meta.keeps_lift_bind sound_meta.keeps_bind keeps_on_world
        sound_meta.keeps_assert) (auto intro!: add split: option.splits)
qed

lemma keeps_delete_peer: "keeps keeps_sound (delete_peer env name peer_id)"
  unfolding delete_peer_def
  by (intro keeps_load_bind sound_meta.keeps_lift_bind sound_meta.keeps_bind keeps_on_world keeps_save
      meta_ok_update tun_ok_filter sound_meta.keeps_ret)
    (auto dest: meta_ok_lookup split: option.splits)

text \<open>The metadata stays consistent: every handler that changes it, whatever the helper answers and
  whether saving works, takes a file in which each tunnel has a readable IPv4 address and peers
  with readable, pairwise different addresses inside its subnet and different from its own, to a
  file of the same kind.\<close>

lemma handlers_keep_metadata:
  assumes "clean_payload p"
  shows "keeps keeps_sound (create_tunnel env p) \<and> keeps keeps_sound (delete_tunnel env name) \<and>
    keeps keeps_sound (create_peer env name payload) \<and> keeps keeps_sound (delete_peer env name peer_id)"
  using keeps_create_tunnel [OF assms] keeps_delete_tunnel keeps_create_peer keeps_delete_peer by blast

definition payload_a :: tunnel_create where
  "payload_a = \<lparr>tc_name = ''wg0'', tc_address = addr_a, tc_listen_port = 51820,
     tc_endpoint = Some ''vpn.example'', tc_force = False\<rparr>"

lemma clean_payload_a: "clean_payload payload_a"
proof -
  have "wf_addr (addr_of_int V4 167772161)" by (simp add: wf_addr_def addr_of_int_def all_ones_def)
  then show ?thesis
    by (simp add: clean_payload_def payload_a_def addr_a_def wf_iface_def is_v4_iface_def)
      (simp add: addr_of_int_def)
qed

definition dead_env :: "unit wgenv" where
  \<comment> \<open>an application whose helper cannot be reached\<close>
  "dead_env = \<lparr>we_send = (\<lambda>_ w. (Unreachable, w)), we_ifaces = lan, we_save_fails = (\<lambda>_. False),
     we_uuid = dec, we_sub = JStr ''admin''\<rparr>"

lemma handlers_keep_metadata_witness:
  "keeps keeps_sound (create_tunnel dead_env payload_a) \<and>
   keeps keeps_sound (delete_peer dead_env ''wg0'' ''1'')"
  using handlers_keep_metadata [OF clean_payload_a, of dead_env "''wg0''" undefined "''1''"] by blast

section \<open>What a new peer leaves behind\<close>

lemma on_world_meta: "on_world m s = (r, s') \<Longrightarrow> wa_meta s' = wa_meta s"
  by (auto simp: on_world_def split: prod.splits)

lemma peer_begin_result:
  assumes "peer_begin env name s = (Inr (m, t, k), s')"
  shows "load_metadata s = (Inr m, s) \<and> map_of m name = Some t \<and> truthy k \<and> wa_meta s' = wa_meta s"
  using assms
  by (auto simp: peer_begin_def bindm_def liftr_def assertm_def ret_def
      dest!: on_world_meta load_Inr split: prod.splits sum.splits option.splits if_splits)

lemma peer_add_steps:
  assumes "peer_add env name payload t s = (Inr ks, s')"
  obtains pub s1 s2 where "allocate_peer_address t = Inr (pk_address ks)"
    and "on_world (client_genkey (we_send env)) s = (Inr (pk_keypair ks), s1)"
    and "if pc_preshared_key payload
      then \<exists>k. on_world (client_genkey (we_send env)) s1 = (Inr k, s2) \<and>
        jindex k ''private_key'' = Inr (pk_psk ks)
      else s2 = s1 \<and> pk_psk ks = JNull"
    and "jindex (pk_keypair ks) ''public_key'' = Inr pub"
    and "on_world (client_add_peer (we_send env) name pub [pk_address ks] (pk_psk ks)
      (pc_keepalive payload)) s2 = (Inr (), s')"
proof -
  from assms obtain addr where a: "allocate_peer_address t = Inr addr"
      and r: "bindm (on_world (client_genkey (we_send env))) (\<lambda>keypair.
        bindm (if pc_preshared_key payload
            then bindm (on_world (client_genkey (we_send env))) (\<lambda>k. liftr (jindex k ''private_key''))
            else ret JNull) (\<lambda>psk.
        bindm (liftr (jindex keypair ''public_key'')) (\<lambda>public_key.
        bindm (on_world (client_add_peer (we_send env) name public_key [addr] psk
              (pc_keepalive payload))) (\<lambda>_.
        ret \<lparr>pk_address = addr, pk_keypair = keypair, pk_psk = psk\<rparr>)))) s = (Inr ks, s')"
    by (auto simp: peer_add_def liftr_bind split: sum.splits)
  from r obtain kp s1 where 1: "on_world (client_genkey (we_send env)) s = (Inr kp, s1)"
    and r: "bindm (if pc_preshared_key payload
            then bindm (on_world (client_genkey (we_send env))) (\<lambda>k. liftr (jindex k ''private_key''))
            else ret JNull) (\<lambda>psk.
        bindm (liftr (jindex kp ''public_key'')) (\<lambda>public_key.
        bindm (on_world (client_add_peer (we_send env) name public_key [addr] psk
              (pc_keepalive payload))) (\<lambda>_.
        ret \<lparr>pk_address = addr, pk_keypair = kp, pk_psk = psk\<rparr>))) s1 = (Inr ks, s')"
    by (rule bindm_InrE)
  from r obtain psk s2 where 2: "(if pc_preshared_key payload
            then bindm (on_world (client_genkey (we_send env))) (\<lambda>k. liftr (jindex k ''private_key''))
            else ret JNull) s1 = (Inr psk, s2)"
    and r: "bindm (liftr (jindex kp ''public_key'')) (\<lambda>public_key.
        bindm (on_world (client_add_peer (we_send env) name public_key [addr] psk
              (pc_keepalive payload))) (\<lambda>_.
        ret \<lparr>pk_address = addr, pk_keypair = kp, pk_psk = psk\<rparr>)) s2 = (Inr ks, s')"
    by (rule bindm_InrE)
  have 3: "if pc_preshared_key payload
      then \<exists>k. on_world (client_genkey (we_send env)) s1 = (Inr k, s2) \<and> jindex k ''private_key'' = Inr psk
      else s2 = s1 \<and> psk = JNull"
    using 2 by (auto simp: bindm_def liftr_def ret_def split: if_splits prod.splits sum.splits)
  from r obtain pub where p: "jindex kp ''public_key'' = Inr pub"
    and r: "bindm (on_world (client_add_peer (we_send env) name pub [addr] psk (pc_keepalive payload))) (\<lambda>_.
        ret \<lparr>pk_address = addr, pk_keypair = kp, pk_psk = psk\<rparr>) s2 = (Inr ks, s')"
    by (auto simp: liftr_bind split: sum.splits)
  from r have ks: "ks = \<lparr>pk_address = addr, pk_keypair = kp, pk_psk = psk\<rparr>"
      and 4: "on_world (client_add_peer (we_send env) name pub [addr] psk (pc_keepalive payload)) s2 = (Inr (), s')"
    by (auto simp: bindm_def ret_def split: prod.splits sum.splits)
  show ?thesis by (rule that [of s1 s2 pub]) (use a 1 3 p 4 ks in simp_all)
qed

lemma peer_add_result:
  assumes "peer_add env name payload t s = (Inr ks, s')"
  shows "allocate_peer_address t = Inr (pk_address ks) \<and> wa_meta s' = wa_meta s \<and>
    (\<exists>pub. jindex (pk_keypair ks) ''public_key'' = Inr pub)"
  using assms
proof (rule peer_add_steps)
  fix pub s1 s2
  assume a: "allocate_peer_address t = Inr (pk_address ks)"
    "on_world (client_genkey (we_send env)) s = (Inr (pk_keypair ks), s1)"
    "if pc_preshared_key payload
      then \<exists>k. on_world (client_genkey (we_send env)) s1 = (Inr k, s2) \<and>
        jindex k ''private_key'' = Inr (pk_psk ks)
      else s2 = s1 \<and> pk_psk ks = JNull"
    "jindex (pk_keypair ks) ''public_key'' = Inr pub"
    "on_world (client_add_peer (we_send env) name pub [pk_address ks] (pk_psk ks)
      (pc_keepalive payload)) s2 = (Inr (), s')"
  have "wa_meta s2 = wa_meta s1" using a(3) by (auto split: if_splits dest: on_world_meta)
  then show ?thesis using a(1,4) on_world_meta [OF a(2)] on_world_meta [OF a(5)] by simp
qed

lemma peer_store_result:
  assumes "peer_store env name payload m t ks s = (Inr u, s')"
  shows "\<exists>pub. jindex (pk_keypair ks) ''public_key'' = Inr pub \<and>
    wa_meta s' = Meta (add_meta_peer name t (new_peer env (wa_tick s) payload (pk_address ks) pub) m)"
  using assms
  by (auto simp: peer_store_def liftr_bind getm_bind save_metadata_def split: sum.splits if_splits)

lemma create_peer_parts:
  assumes "create_peer env name payload s = (Inr resp, s')"
  obtains m t k s1 ks s2 u s3 where "peer_begin env name s = (Inr (m, t, k), s1)"
    and "peer_add env name payload t s1 = (Inr ks, s2)" and "peer_store env name payload m t ks s2 = (Inr u, s3)"
    and "peer_reply payload t k ks s3 = (Inr resp, s')"
proof -
  from assms obtain x s1 where x: "peer_begin env name s = (Inr x, s1)"
      and r: "(case x of (m, t, k) \<Rightarrow> bindm (peer_add env name payload t) (\<lambda>ks.
        bindm (peer_store env name payload m t ks) (\<lambda>_. peer_reply payload t k ks))) s1 = (Inr resp, s')"
    unfolding create_peer_def by (rule bindm_InrE)
  obtain m t k where mtk: "x = (m, t, k)" by (cases x)
  note b = x [unfolded mtk] and r = r [unfolded mtk prod.case]
  from r obtain ks s2 where a: "peer_add env name payload t s1 = (Inr ks, s2)"
      and r: "bindm (peer_store env name payload m t ks) (\<lambda>_. peer_reply payload t k ks) s2 = (Inr resp, s')"
    by (rule bindm_InrE)
  from r obtain u s3 where "peer_store env name payload m t ks s2 = (Inr u, s3)"
      and "peer_reply payload t k ks s3 = (Inr resp, s')"
    by (rule bindm_InrE)
  with b a that show ?thesis by blast
qed

lemma peer_reply_result:
  assumes "peer_reply payload t k ks s = (Inr resp, s')"
  obtains priv where "jindex (pk_keypair ks) ''private_key'' = Inr priv" and "s' = s"
    and "pr_content resp = client_conf payload t k (pk_address ks) priv (pk_psk ks)"
  using assms by (auto simp: peer_reply_def liftr_bind ret_def split: sum.splits)

lemma create_peer_result:
  assumes "create_peer env name payload s = (Inr resp, s')"
  shows "\<exists>m t k addr keypair psk priv pub n.
    load_metadata s = (Inr m, s) \<and> map_of m name = Some t \<and> allocate_peer_address t = Inr addr \<and>
    jindex keypair ''private_key'' = Inr priv \<and> jindex keypair ''public_key'' = Inr pub \<and>
    wa_meta s' = Meta (AList.update name (t\<lparr>tm_peers := tm_peers t @
      [\<lparr>pm_id = we_uuid env n, pm_description = pc_description payload, pm_tunnel_address = addr,
        pm_allowed_ips = map str_net (pc_allowed_ips payload), pm_public_key = pub,
        pm_created_by = we_sub env\<rparr>]\<rparr>) m) \<and>
    pr_content resp = client_conf payload t k addr priv psk"
proof -
  from assms obtain m t k s1 ks s2 u s3 where b: "peer_begin env name s = (Inr (m, t, k), s1)"
      and a: "peer_add env name payload t s1 = (Inr ks, s2)"
      and st: "peer_store env name payload m t ks s2 = (Inr u, s3)"
      and rp: "peer_reply payload t k ks s3 = (Inr resp, s')"
    by (rule create_peer_parts)
  from rp obtain priv where p: "jindex (pk_keypair ks) ''private_key'' = Inr priv" "s' = s3"
      "pr_content resp = client_conf payload t k (pk_address ks) priv (pk_psk ks)"
    by (rule peer_reply_result)
  from peer_store_result [OF st] obtain pub where q: "jindex (pk_keypair ks) ''public_key'' = Inr pub"
      "wa_meta s3 = Meta (add_meta_peer name t (new_peer env (wa_tick s2) payload (pk_address ks) pub) m)"
    by blast
  from peer_begin_result [OF b] peer_add_result [OF a] p q show ?thesis
    unfolding add_meta_peer_def new_peer_def by blast
qed

lemma on_world_Inr: "on_world m s = (Inr x, s') \<Longrightarrow> m (wa_world s) = (Inr x, wa_world s')"
  by (auto simp: on_world_def split: prod.splits)

lemma peer_begin_status:
  assumes "peer_begin env name s = (Inr (m, t, k), s')"
  shows "\<exists>v ts. client_tunnel_status (we_send env) (Some name) (wa_world s) = (Inr v, wa_world s') \<and>
    status_tunnels v = Inr ts \<and> server_key_of ts = Inr k"
  using assms
  by (auto simp: peer_begin_def bindm_def liftr_def assertm_def ret_def dest!: load_Inr on_world_Inr
      split: prod.splits sum.splits option.splits if_splits)

lemma peer_add_calls:
  assumes "peer_add env name payload t s = (Inr ks, s')"
  shows "\<exists>w1 w2 pub. client_genkey (we_send env) (wa_world s) = (Inr (pk_keypair ks), w1) \<and>
    (if pc_preshared_key payload
     then \<exists>kp. client_genkey (we_send env) w1 = (Inr kp, w2) \<and> jindex kp ''private_key'' = Inr (pk_psk ks)
     else w2 = w1 \<and> pk_psk ks = JNull) \<and>
    jindex (pk_keypair ks) ''public_key'' = Inr pub \<and>
    client_add_peer (we_send env) name pub [pk_address ks] (pk_psk ks) (pc_keepalive payload) w2 =
      (Inr (), wa_world s')"
  using assms
proof (rule peer_add_steps)
  fix pub s1 s2
  assume a: "on_world (client_genkey (we_send env)) s = (Inr (pk_keypair ks), s1)"
    "if pc_preshared_key payload
      then \<exists>k. on_world (client_genkey (we_send env)) s1 = (Inr k, s2) \<and>
        jindex k ''private_key'' = Inr (pk_psk ks)
      else s2 = s1 \<and> pk_psk ks = JNull"
    "jindex (pk_keypair ks) ''public_key'' = Inr pub"
    "on_world (client_add_peer (we_send env) name pub [pk_address ks] (pk_psk ks)
      (pc_keepalive payload)) s2 = (Inr (), s')"
  then show ?thesis
    by (intro exI [of _ "wa_world s1"] exI [of _ "wa_world s2"] exI [of _ pub])
      (auto dest: on_world_Inr split: if_splits)
qed

lemma peer_store_world: "peer_store env name payload m t ks s = (Inr u, s') \<Longrightarrow> wa_world s' = wa_world s"
  by (auto simp: peer_store_def liftr_bind getm_bind save_metadata_def split: sum.splits if_splits)

text \<open>C22: a peer that was created is exactly recorded.  On success the helper was asked for the status,
  for a key pair, for a second one if a pre-shared key is wanted, and to add a peer with the public
  key of the first pair, the allocated address and the private key of the second; the metadata file
  is the one that was read with one peer appended to this tunnel, whose key is that same public
  key and whose other fields are the description, the address, the requested subnets and the user,
  so that of the pairs the public key alone is recorded; and the answer is the client configuration with the
  private key of the first pair and the server's key of the status.\<close>

theorem create_peer_records_one_peer:
  assumes "create_peer env name payload s = (Inr resp, s')"
  shows "\<exists>m t status ts k addr keypair priv pub psk n w w1 w2.
    load_metadata s = (Inr m, s) \<and> map_of m name = Some t \<and> allocate_peer_address t = Inr addr \<and>
    client_tunnel_status (we_send env) (Some name) (wa_world s) = (Inr status, w) \<and>
    status_tunnels status = Inr ts \<and> server_key_of ts = Inr k \<and>
    client_genkey (we_send env) w = (Inr keypair, w1) \<and>
    jindex keypair ''private_key'' = Inr priv \<and> jindex keypair ''public_key'' = Inr pub \<and>
    (if pc_preshared_key payload
     then \<exists>kp. client_genkey (we_send env) w1 = (Inr kp, w2) \<and> jindex kp ''private_key'' = Inr psk
     else w2 = w1 \<and> psk = JNull) \<and>
    client_add_peer (we_send env) name pub [addr] psk (pc_keepalive payload) w2 = (Inr (), wa_world s') \<and>
    wa_meta s' = Meta (AList.update name (t\<lparr>tm_peers := tm_peers t @
      [\<lparr>pm_id = we_uuid env n, pm_description = pc_description payload, pm_tunnel_address = addr,
        pm_allowed_ips = map str_net (pc_allowed_ips payload), pm_public_key = pub,
        pm_created_by = we_sub env\<rparr>]\<rparr>) m) \<and>
    pr_content resp = client_conf payload t k addr priv psk"
proof -
  from assms obtain m t k s1 ks s2 u s3 where b: "peer_begin env name s = (Inr (m, t, k), s1)"
      and a: "peer_add env name payload t s1 = (Inr ks, s2)"
      and st: "peer_store env name payload m t ks s2 = (Inr u, s3)"
      and rp: "peer_reply payload t k ks s3 = (Inr resp, s')"
    by (rule create_peer_parts)
  from rp obtain priv where p: "jindex (pk_keypair ks) ''private_key'' = Inr priv" "s' = s3"
      "pr_content resp = client_conf payload t k (pk_address ks) priv (pk_psk ks)"
    by (rule peer_reply_result)
  from peer_store_result [OF st] obtain pub where q: "jindex (pk_keypair ks) ''public_key'' = Inr pub"
      "wa_meta s3 = Meta (add_meta_peer name t (new_peer env (wa_tick s2) payload (pk_address ks) pub) m)"
    by blast
  from peer_begin_status [OF b] obtain v ts where v:
      "client_tunnel_status (we_send env) (Some name) (wa_world s) = (Inr v, wa_world s1)"
      "status_tunnels v = Inr ts" "server_key_of ts = Inr k" by blast
  from peer_add_calls [OF a] q(1) obtain w1 w2 where w:
      "client_genkey (we_send env) (wa_world s1) = (Inr (pk_keypair ks), w1)"
      "if pc_preshared_key payload
       then \<exists>kp. client_genkey (we_send env) w1 = (Inr kp, w2) \<and> jindex kp ''private_key'' = Inr (pk_psk ks)
       else w2 = w1 \<and> pk_psk ks = JNull"
      "client_add_peer (we_send env) name pub [pk_address ks] (pk_psk ks) (pc_keepalive payload) w2 =
        (Inr (), wa_world s')"
    using peer_store_world [OF st] p(2) by auto
  have mt: "load_metadata s = (Inr m, s)" "map_of m name = Some t" "allocate_peer_address t = Inr (pk_address ks)"
    using peer_begin_result [OF b] peer_add_result [OF a] by blast+
  have rec: "wa_meta s' = Meta (AList.update name (t\<lparr>tm_peers := tm_peers t @
      [\<lparr>pm_id = we_uuid env (wa_tick s2), pm_description = pc_description payload, pm_tunnel_address = pk_address ks,
        pm_allowed_ips = map str_net (pc_allowed_ips payload), pm_public_key = pub,
        pm_created_by = we_sub env\<rparr>]\<rparr>) m)"
    using q(2) p(2) by (simp add: add_meta_peer_def new_peer_def)
  show ?thesis
    by (intro exI conjI) (rule mt v w p q(1) rec)+
qed

definition peer_rest :: "'w wgenv \<Rightarrow> string \<Rightarrow> peer_create \<Rightarrow> metadata \<times> tun_meta \<times> json \<Rightarrow> ('w, peer_response) wop" where
  \<comment> \<open>what \<open>create_peer\<close> still does once its first awaited answer, the status, has arrived\<close>
  "peer_rest env name payload = (\<lambda>(metadata, tunnel_meta, server_public_key).
     bindm (peer_add env name payload tunnel_meta) (\<lambda>ks.
     bindm (peer_store env name payload metadata tunnel_meta ks) (\<lambda>_.
     peer_reply payload tunnel_meta server_public_key ks)))"

lemma create_peer_split: "create_peer env name payload = bindm (peer_begin env name) (peer_rest env name payload)"
  unfolding create_peer_def peer_rest_def by simp

lemma peer_rest_result:
  assumes "peer_rest env name payload (m, t, k) s = (Inr resp, s')"
  shows "\<exists>addr pub n. allocate_peer_address t = Inr addr \<and>
    wa_meta s' = Meta (add_meta_peer name t (new_peer env n payload addr pub) m)"
proof -
  from assms obtain ks s2 where a: "peer_add env name payload t s = (Inr ks, s2)"
      and r: "bindm (peer_store env name payload m t ks) (\<lambda>_. peer_reply payload t k ks) s2 = (Inr resp, s')"
    unfolding peer_rest_def prod.case by (rule bindm_InrE)
  from r obtain u s3 where st: "peer_store env name payload m t ks s2 = (Inr u, s3)"
      and rp: "peer_reply payload t k ks s3 = (Inr resp, s')"
    by (rule bindm_InrE)
  from rp have "s' = s3" by (auto simp: peer_reply_def liftr_bind ret_def split: sum.splits)
  with peer_store_result [OF st] peer_add_result [OF a] show ?thesis by blast
qed

definition scripted :: "jdict list sender" where
  \<comment> \<open>a helper that answers with given results, one after the other\<close>
  "scripted line w = (Line (ok_reply (hd w)), tl w)"

lemma scripted_call:
  "plain_json (JObj (hd w)) \<Longrightarrow> helper_call scripted cmd params w = (Inr (JObj (hd w)), tl w)"
  by (simp add: helper_call_def scripted_def read_ok_reply)

definition script_env :: "jdict list wgenv" where
  "script_env = \<lparr>we_send = scripted, we_ifaces = lan, we_save_fails = (\<lambda>_. False),
     we_uuid = dec, we_sub = JStr ''admin''\<rparr>"

definition status_result_a :: jdict where
  "status_result_a = [(''tunnels'', JList [JObj [(''name'', JStr ''wg0''), (''public_key'', JStr key_a)]])]"

definition keys_result_b :: jdict where
  "keys_result_b = [(''private_key'', JStr key_a), (''public_key'', JStr key_b)]"

definition app_state_a :: "jdict list wgapp" where
  "app_state_a = \<lparr>wa_meta = Meta [(''wg0'', tun_meta_a)], wa_tick = 0,
     wa_world = [status_result_a, keys_result_b, []]\<rparr>"

definition peer_payload_a :: peer_create where
  "peer_payload_a = \<lparr>pc_description = ''phone'', pc_allowed_ips = [lan_net],
     pc_preshared_key = False, pc_keepalive = Some 25\<rparr>"

lemma peer_begin_run:
  assumes "map_of m ''wg0'' = Some t"
  shows "peer_begin script_env ''wg0'' \<lparr>wa_meta = Meta m, wa_tick = n, wa_world = status_result_a # ws\<rparr> =
    (Inr (m, t, JStr key_a), \<lparr>wa_meta = Meta m, wa_tick = n, wa_world = ws\<rparr>)"
  using assms
  by (simp add: peer_begin_def bindm_def load_metadata_def liftr_def on_world_def client_tunnel_status_def
      script_env_def scripted_call status_result_a_def status_tunnels_def as_obj_def jget_or_def
      server_key_of_def first_of_def jget_def assertm_def ret_def key_a_def)

lemma peer_rest_run:
  assumes "allocate_peer_address t = Inr addr"
  shows "peer_rest script_env ''wg0'' peer_payload_a (m, t, JStr key_a)
      \<lparr>wa_meta = f, wa_tick = n, wa_world = keys_result_b # [] # ws\<rparr> =
    (Inr \<lparr>pr_content = client_conf peer_payload_a t (JStr key_a) addr (JStr key_a) JNull,
          pr_disposition = ''attachment; filename='' @ [CHR 0x22] @ safe_filename ''phone'' @ ''.conf'' @ [CHR 0x22]\<rparr>,
     \<lparr>wa_meta = Meta (add_meta_peer ''wg0'' t (new_peer script_env n peer_payload_a addr (JStr key_b)) m),
      wa_tick = Suc n, wa_world = ws\<rparr>)"
  using assms
  by (simp add: peer_rest_def peer_add_def peer_store_def peer_reply_def bindm_def liftr_def on_world_def
      script_env_def scripted_call keys_result_b_def ret_def client_genkey_def peer_payload_a_def
      jindex_def client_add_peer_def getm_def save_metadata_def new_peer_def)

lemma create_peer_run:
  assumes "map_of m ''wg0'' = Some t" and "allocate_peer_address t = Inr addr"
  shows "create_peer script_env ''wg0'' peer_payload_a
      \<lparr>wa_meta = Meta m, wa_tick = n, wa_world = status_result_a # keys_result_b # [] # ws\<rparr> =
    (Inr \<lparr>pr_content = client_conf peer_payload_a t (JStr key_a) addr (JStr key_a) JNull,
          pr_disposition = ''attachment; filename='' @ [CHR 0x22] @ safe_filename ''phone'' @ ''.conf'' @ [CHR 0x22]\<rparr>,
     \<lparr>wa_meta = Meta (add_meta_peer ''wg0'' t (new_peer script_env n peer_payload_a addr (JStr key_b)) m),
      wa_tick = Suc n, wa_world = ws\<rparr>)"
  unfolding create_peer_split bindm_def peer_begin_run [OF assms(1)]
  by (simp add: peer_rest_run [OF assms(2)])

lemma meta_a: "map_of [(''wg0'', tun_meta_a)] ''wg0'' = Some tun_meta_a"
  by simp

lemmas create_peer_a = create_peer_run [OF meta_a allocate_a, of 0 "[]", folded app_state_a_def]

theorem create_peer_records_one_peer_witness:
  "\<exists>m t addr pub n. load_metadata app_state_a = (Inr m, app_state_a) \<and> map_of m ''wg0'' = Some t \<and>
    allocate_peer_address t = Inr addr \<and>
    wa_meta (snd (create_peer script_env ''wg0'' peer_payload_a app_state_a)) =
      Meta (AList.update ''wg0'' (t\<lparr>tm_peers := tm_peers t @
      [\<lparr>pm_id = we_uuid script_env n, pm_description = pc_description peer_payload_a,
        pm_tunnel_address = addr, pm_allowed_ips = map str_net (pc_allowed_ips peer_payload_a),
        pm_public_key = pub, pm_created_by = we_sub script_env\<rparr>]\<rparr>) m)"
  using create_peer_records_one_peer [OF create_peer_a] unfolding create_peer_a snd_conv by blast

section \<open>The downloaded configuration\<close>

definition host_char :: "char \<Rightarrow> bool" where
  "host_char c \<longleftrightarrow> is_ascii_alnum c \<or> c = CHR ''.'' \<or> c = CHR ''-''"

definition client_values :: "peer_create \<Rightarrow> tun_meta \<Rightarrow> string \<Rightarrow> string \<Rightarrow> string \<Rightarrow> string option \<Rightarrow> bool" where
  \<comment> \<open>keys are keys, addresses are addresses, and the endpoint is a host name\<close>
  "client_values payload t server_key addr priv psk \<longleftrightarrow> key_core server_key \<and> key_core priv \<and>
     (\<forall>k. psk = Some k \<longrightarrow> key_core k) \<and> addr \<noteq> [] \<and> list_all ip_char addr \<and>
     pc_allowed_ips payload \<noteq> [] \<and> list_all (\<lambda>n. noscope (naddr n)) (pc_allowed_ips payload) \<and>
     (\<forall>e. tm_endpoint t = Some e \<longrightarrow> e \<noteq> [] \<and> list_all host_char e) \<and> 0 \<le> tm_listen_port t \<and>
     (\<forall>k. pc_keepalive payload = Some k \<longrightarrow> 0 \<le> k)"

definition client_header :: "string \<Rightarrow> string \<Rightarrow> string list" where
  "client_header addr priv = [''[Interface]'', ''PrivateKey = '' @ priv, ''Address = '' @ addr]"

definition endpoint_text :: "tun_meta \<Rightarrow> string \<Rightarrow> string" where
  "endpoint_text t e = e @ '':'' @ dec_int (tm_listen_port t)"

definition client_block :: "peer_create \<Rightarrow> tun_meta \<Rightarrow> string \<Rightarrow> string option \<Rightarrow> string list" where
  "client_block payload t server_key psk =
     [''[Peer]'', ''PublicKey = '' @ server_key] @
     (case psk of Some k \<Rightarrow> [''PresharedKey = '' @ k] | None \<Rightarrow> []) @
     [''AllowedIPs = '' @ nets_text (pc_allowed_ips payload)] @
     [(case tm_endpoint t of Some e \<Rightarrow> ''Endpoint = '' @ endpoint_text t e
       | None \<Rightarrow> ''# Endpoint = <this server's reachable address>:'' @ dec_int (tm_listen_port t))] @
     (case pc_keepalive payload of
        Some k \<Rightarrow> if k \<noteq> 0 then [''PersistentKeepalive = '' @ dec_int k] else [] | None \<Rightarrow> [])"

lemma join_lines: "ls \<noteq> [] \<Longrightarrow> py_join [nl] ls @ [nl] = lines_text ls"
  by (induction "[nl]" ls rule: py_join.induct) (auto simp: lines_text_def)

lemma key_core_not_Nil: "key_core k \<Longrightarrow> k \<noteq> []"
  by (auto simp: key_core_def)

lemma client_conf_text:
  assumes "client_values payload t server_key addr priv psk"
  shows "client_conf payload t (JStr server_key) addr (JStr priv) (opt_str psk) =
    lines_text (client_header addr priv) @ nl # lines_text (client_block payload t server_key psk)"
proof -
  have "client_lines payload t (JStr server_key) addr (JStr priv) (opt_str psk) =
      client_header addr priv @ [] # client_block payload t server_key psk"
    using assms key_core_not_Nil
    by (cases psk; cases "tm_endpoint t")
      (auto simp: client_lines_def client_header_def client_block_def py_str_def opt_str_def
        client_values_def nets_text_def endpoint_text_def)
  then have "client_conf payload t (JStr server_key) addr (JStr priv) (opt_str psk) =
      lines_text (client_header addr priv @ [] # client_block payload t server_key psk)"
    unfolding client_conf_def by (simp only: join_lines list.distinct append_is_Nil_conv simp_thms)
  then show ?thesis by (simp add: lines_text_def)
qed

definition line_char :: "char \<Rightarrow> bool" where
  "line_char c \<longleftrightarrow> text_char c \<or> host_char c"

lemma line_char_facts: "\<not> line_char nl" "\<not> line_char (CHR ''['')"
  using not_text_char
  by (auto simp: line_char_def host_char_def nl_def is_ascii_alnum_def is_ascii_digit_def
      is_lower_az_def is_upper_az_def code_def)

lemma line_chars_absent: "list_all line_char s \<Longrightarrow> nl \<notin> set s \<and> CHR ''['' \<notin> set s"
  using line_char_facts by (auto simp: list_all_iff)

lemma text_line: "list_all text_char s \<Longrightarrow> list_all line_char s"
  by (auto simp: list_all_iff line_char_def)

lemma client_value_chars:
  assumes "client_values payload t server_key addr priv psk"
  shows "list_all line_char server_key" "list_all line_char priv" "psk = Some k \<Longrightarrow> list_all line_char k"
    "list_all line_char addr" "list_all line_char (nets_text (pc_allowed_ips payload))"
    "tm_endpoint t = Some e \<Longrightarrow> list_all line_char (endpoint_text t e)"
    "list_all line_char (dec_int (tm_listen_port t))"
    "pc_keepalive payload = Some i \<Longrightarrow> list_all line_char (dec_int i)"
proof -
  note v = assms [unfolded client_values_def]
  show "list_all line_char server_key" "list_all line_char priv" "psk = Some k \<Longrightarrow> list_all line_char k"
    using v by (blast intro: text_line key_core_text)+
  show "list_all line_char addr" using v by (blast intro: text_line ip_chars_text)
  show "list_all line_char (nets_text (pc_allowed_ips payload))"
    using v by (blast intro: text_line nets_text_text)
  have port: "list_all line_char (dec_int i)" if "0 \<le> i" for i
    using that by (blast intro: text_line ip_chars_text dec_int_ip)
  then show "list_all line_char (dec_int (tm_listen_port t))"
    "pc_keepalive payload = Some i \<Longrightarrow> list_all line_char (dec_int i)"
    using v by blast+
  have "line_char (CHR '':'')" by (simp add: line_char_def text_char_def ip_char_def)
  moreover have "list_all line_char e" if "tm_endpoint t = Some e" for e
    using v that by (auto simp: list_all_iff line_char_def)
  ultimately show "tm_endpoint t = Some e \<Longrightarrow> list_all line_char (endpoint_text t e)"
    using v port by (simp add: endpoint_text_def)
qed

lemmas client_absent = client_value_chars [THEN line_chars_absent]

lemma client_split:
  assumes "client_values payload t server_key addr priv psk"
  shows "split_conf (client_conf payload t (JStr server_key) addr (JStr priv) (opt_str psk)) =
    (lines_text (client_header addr priv), [lines_text (client_block payload t server_key psk)])"
proof -
  note a = client_absent [OF assms]
  have h: "bracket_head (lines_text (client_header addr priv))"
    using a bracket_nl by (simp add: bracket_head_def client_header_def lines_text_def)
  have b: "bracket_head (lines_text (client_block payload t server_key psk))"
    using a bracket_nl
    by (cases psk; cases "tm_endpoint t"; cases "pc_keepalive payload")
      (simp_all add: bracket_head_def client_block_def lines_text_def)
  have "prefix ''[Peer]'' (lines_text (client_block payload t server_key psk))"
    by (simp add: client_block_def lines_text_def)
  then have "list_all blk_ok [lines_text (client_block payload t server_key psk)]"
    using bracket_head_no_mark [OF b] by (simp add: blk_ok_def)
  from split_peer_blocks [OF bracket_head_no_mark [OF h] this] show ?thesis
    unfolding client_conf_text [OF assms] split_conf_eq by simp
qed

lemma host_not_space: "host_char c \<Longrightarrow> \<not> py_isspace c"
  by (auto simp: host_char_def dest: alnum_not_space) (simp_all add: py_isspace_def code_def)

lemma endpoint_trimmed:
  assumes "client_values payload t server_key addr priv psk" and "tm_endpoint t = Some e"
  shows "trimmed (endpoint_text t e)"
proof (rule trimmedI)
  have v: "e \<noteq> []" "list_all host_char e" "0 \<le> tm_listen_port t"
    using assms by (auto simp: client_values_def)
  then show "endpoint_text t e \<noteq> []" by (simp add: endpoint_text_def)
  fix c assume "c \<in> set (endpoint_text t e)"
  then consider "c \<in> set e" | "c = CHR '':''" | "c \<in> set (dec_int (tm_listen_port t))"
    by (auto simp: endpoint_text_def)
  then show "\<not> py_isspace c"
  proof cases
    case 1
    then show ?thesis using v(2) host_not_space by (auto simp: list_all_iff)
  next
    case 2
    then show ?thesis by (simp add: py_isspace_def code_def)
  next
    case 3
    then show ?thesis using dec_int_ip [OF v(3)] ip_char_facts(1) by (auto simp: list_all_iff)
  qed
qed

lemma hash_not_space: "\<not> py_isspace (CHR ''#'')" "\<not> py_isspace (CHR ''E'')"
  by (simp_all add: py_isspace_def code_def)

lemma nl_lits2: "nl \<notin> set ''Endpoint = ''" "nl \<notin> set ''# Endpoint = <this server's reachable address>:''"
  by (simp_all add: nl_def)

lemma client_lines_nl:
  assumes "client_values payload t server_key addr priv psk"
  shows "nl \<notin> set (''PrivateKey = '' @ priv)" "nl \<notin> set (''PublicKey = '' @ server_key)"
    "psk = Some k \<Longrightarrow> nl \<notin> set (''PresharedKey = '' @ k)"
    "nl \<notin> set (''AllowedIPs = '' @ nets_text (pc_allowed_ips payload))"
    "tm_endpoint t = Some e \<Longrightarrow> nl \<notin> set (''Endpoint = '' @ endpoint_text t e)"
    "nl \<notin> set (''# Endpoint = <this server's reachable address>:'' @ dec_int (tm_listen_port t))"
    "pc_keepalive payload = Some i \<Longrightarrow> nl \<notin> set (''PersistentKeepalive = '' @ dec_int i)"
    "nl \<notin> set (''Address = '' @ addr)"
  using client_absent [OF assms] nl_lits nl_lits2 by (simp_all only: set_append Un_iff simp_thms)

lemma client_plain_address:
  assumes "client_values payload t server_key addr priv psk"
  shows "list_all (plain_line ''Address'') (client_header addr priv)"
    and "List.map_filter (line_val ''Address'') (client_header addr priv) = [addr]"
proof -
  have "trimmed addr" using assms by (simp add: client_values_def ip_chars_trimmed)
  note v = plain_line_key [OF plain_keys(1) this]
  show "list_all (plain_line ''Address'') (client_header addr priv)"
    using v(1) client_lines_nl(1) [OF assms] nl_lits(2) space_lits
    by (simp add: client_header_def plain_line_other)
  show "List.map_filter (line_val ''Address'') (client_header addr priv) = [addr]"
    using v(2) by (simp add: client_header_def List.map_filter_simps line_val_def)
qed

lemma list_all_Nil: "list_all P []"
  by simp

lemma other_lines:
  assumes "client_values payload t server_key addr priv psk" and "key = ''Endpoint'' \<or> key = ''AllowedIPs''"
  shows "plain_line key ''[Peer]''" "plain_line key (''PublicKey = '' @ server_key)"
    "list_all (plain_line key) (case psk of Some k \<Rightarrow> [''PresharedKey = '' @ k] | None \<Rightarrow> [])"
    "list_all (plain_line key) (case pc_keepalive payload of
        Some k \<Rightarrow> if k \<noteq> 0 then [''PersistentKeepalive = '' @ dec_int k] else [] | None \<Rightarrow> [])"
    "plain_line key (''# Endpoint = <this server's reachable address>:'' @ dec_int (tm_listen_port t))"
proof -
  note n = client_lines_nl [OF assms(1)] and k = assms(2)
  show "plain_line key ''[Peer]''"
    by (rule plain_line_other) (use k nl_lits(1) space_lits in auto)
  show "plain_line key (''PublicKey = '' @ server_key)"
    by (rule plain_line_other [OF _ _ n(2)]) (use k space_lits in auto)
  have "plain_line key (''PresharedKey = '' @ q)" if "psk = Some q" for q
    by (rule plain_line_other [OF _ _ n(3) [OF that]]) (use k space_lits in auto)
  then show "list_all (plain_line key) (case psk of Some k \<Rightarrow> [''PresharedKey = '' @ k] | None \<Rightarrow> [])"
    by (cases psk) (simp_all only: option.case list.pred_inject simp_thms)
  have "plain_line key (''PersistentKeepalive = '' @ dec_int q)" if "pc_keepalive payload = Some q" for q
    by (rule plain_line_other [OF _ _ n(7) [OF that]]) (use k space_lits in auto)
  then show "list_all (plain_line key) (case pc_keepalive payload of
        Some k \<Rightarrow> if k \<noteq> 0 then [''PersistentKeepalive = '' @ dec_int k] else [] | None \<Rightarrow> [])"
    by (cases "pc_keepalive payload") (simp_all only: option.case list.pred_inject simp_thms split: if_split)
  show "plain_line key (''# Endpoint = <this server's reachable address>:'' @ dec_int (tm_listen_port t))"
    by (rule plain_line_other [OF _ _ n(6)]) (use k hash_not_space in auto)
qed

lemma other_vals:
  assumes "key = ''Endpoint'' \<or> key = ''AllowedIPs''"
  shows "line_val key ''[Peer]'' = None" "line_val key (''PublicKey = '' @ x) = None"
    "line_val key (''PresharedKey = '' @ x) = None" "line_val key (''PersistentKeepalive = '' @ x) = None"
    "line_val key (''# Endpoint = <this server's reachable address>:'' @ x) = None"
  using assms by (auto simp: line_val_def)

lemma map_filter_append: "List.map_filter f (xs @ ys) = List.map_filter f xs @ List.map_filter f ys"
  by (simp add: List.map_filter_def)

lemma other_vals_lists:
  assumes "key = ''Endpoint'' \<or> key = ''AllowedIPs''"
  shows "List.map_filter (line_val key) (case psk of Some k \<Rightarrow> [''PresharedKey = '' @ k] | None \<Rightarrow> []) = []"
    "List.map_filter (line_val key) (case ka of
        Some k \<Rightarrow> if k \<noteq> 0 then [''PersistentKeepalive = '' @ dec_int k] else [] | None \<Rightarrow> []) = []"
proof -
  note w = other_vals [OF assms]
  show "List.map_filter (line_val key) (case psk of Some k \<Rightarrow> [''PresharedKey = '' @ k] | None \<Rightarrow> []) = []"
    by (cases psk) (simp_all only: option.case List.map_filter_simps w)
  show "List.map_filter (line_val key) (case ka of
        Some k \<Rightarrow> if k \<noteq> 0 then [''PersistentKeepalive = '' @ dec_int k] else [] | None \<Rightarrow> []) = []"
  proof (cases ka)
    case (Some k)
    then show ?thesis by (cases "k = 0") (simp_all only: option.case List.map_filter_simps w if_True if_False simp_thms)
  qed (simp only: option.case List.map_filter_simps)
qed

lemma client_plain_endpoint:
  assumes "client_values payload t server_key addr priv psk"
  shows "list_all (plain_line ''Endpoint'') (client_block payload t server_key psk)"
    and "List.map_filter (line_val ''Endpoint'') (client_block payload t server_key psk) =
      (case tm_endpoint t of None \<Rightarrow> [] | Some e \<Rightarrow> [endpoint_text t e])"
proof -
  note o = other_lines [OF assms disjI1 [OF refl]]
  note w = other_vals [of "''Endpoint''", OF disjI1 [OF refl]]
    other_vals_lists [of "''Endpoint''", OF disjI1 [OF refl]]
  have v: "plain_line ''Endpoint'' (''Endpoint = '' @ endpoint_text t e)"
      "line_val ''Endpoint'' (''Endpoint = '' @ endpoint_text t e) = Some (endpoint_text t e)"
    if "tm_endpoint t = Some e" for e
    using plain_line_key [OF plain_keys(2) endpoint_trimmed [OF assms that]] by simp_all
  have ips: "plain_line ''Endpoint'' (''AllowedIPs = '' @ nets_text (pc_allowed_ips payload))"
    by (rule plain_line_other [OF _ _ client_lines_nl(4) [OF assms]]) (use space_lits in auto)
  have ipv: "line_val ''Endpoint'' (''AllowedIPs = '' @ x) = None" for x by (simp add: line_val_def)
  show "list_all (plain_line ''Endpoint'') (client_block payload t server_key psk)"
    unfolding client_block_def list_all_append list.pred_inject
    using o v(1) ips by (cases "tm_endpoint t") (simp_all only: option.case simp_thms list_all_Nil)
  show "List.map_filter (line_val ''Endpoint'') (client_block payload t server_key psk) =
      (case tm_endpoint t of None \<Rightarrow> [] | Some e \<Rightarrow> [endpoint_text t e])"
    unfolding client_block_def map_filter_append List.map_filter_simps w ipv
    using v(2) by (cases "tm_endpoint t")
      (simp_all only: option.case append_Nil append_Nil2 List.map_filter_simps w)
qed

lemma client_plain_ips:
  assumes "client_values payload t server_key addr priv psk"
  shows "list_all (plain_line ''AllowedIPs'') (client_block payload t server_key psk)"
    and "List.map_filter (line_val ''AllowedIPs'') (client_block payload t server_key psk) =
      [nets_text (pc_allowed_ips payload)]"
proof -
  note o = other_lines [OF assms disjI2 [OF refl]]
  note w = other_vals [of "''AllowedIPs''", OF disjI2 [OF refl]]
    other_vals_lists [of "''AllowedIPs''", OF disjI2 [OF refl]]
  have "trimmed (nets_text (pc_allowed_ips payload))"
    using assms by (intro nets_text_trimmed) (simp_all add: client_values_def)
  note v = plain_line_key [OF plain_keys(3) this]
  have v1: "plain_line ''AllowedIPs'' (''AllowedIPs = '' @ nets_text (pc_allowed_ips payload))"
      "line_val ''AllowedIPs'' (''AllowedIPs = '' @ nets_text (pc_allowed_ips payload)) =
        Some (nets_text (pc_allowed_ips payload))"
    using v by simp_all
  have ep: "plain_line ''AllowedIPs'' (''Endpoint = '' @ endpoint_text t e)" if "tm_endpoint t = Some e" for e
    by (rule plain_line_other [OF _ _ client_lines_nl(5) [OF assms that]]) (use hash_not_space in auto)
  have epv: "line_val ''AllowedIPs'' (''Endpoint = '' @ x) = None" for x by (simp add: line_val_def)
  show "list_all (plain_line ''AllowedIPs'') (client_block payload t server_key psk)"
    unfolding client_block_def list_all_append list.pred_inject
    using o v1(1) ep by (cases "tm_endpoint t") (simp_all only: option.case simp_thms list_all_Nil)
  show "List.map_filter (line_val ''AllowedIPs'') (client_block payload t server_key psk) =
      [nets_text (pc_allowed_ips payload)]"
    unfolding client_block_def map_filter_append List.map_filter_simps w v1(2)
    by (cases "tm_endpoint t")
      (simp_all only: option.case append_Nil append_Nil2 List.map_filter_simps w epv
        append_Cons [where x = "nets_text (pc_allowed_ips payload)"])
qed

text \<open>C26: the downloaded configuration says what was asked for: read with the project's own reader, it is
  a client configuration exactly when the tunnel has an endpoint, and then it names that endpoint
  with the tunnel's port; its address is the allocated one and its allowed networks are the
  requested subnets, in order (not the server's view of the peer).\<close>

theorem client_conf_reads_back:
  assumes "client_values payload t server_key addr priv psk"
  shows "parse_conf_info (client_conf payload t (JStr server_key) addr (JStr priv) (opt_str psk)) =
    \<lparr>ci_mode = (if tm_endpoint t = None then ''server'' else ''client''), ci_address = Some addr,
     ci_endpoint = map_option (\<lambda>e. e @ '':'' @ dec_int (tm_listen_port t)) (tm_endpoint t),
     ci_allowed_ips = map str_net (pc_allowed_ips payload)\<rparr>"
proof -
  have a: "re_search_group address_line (lines_text (client_header addr priv)) = Some addr"
    unfolding address_line_def search_lines [OF plain_keys(1) client_plain_address(1) [OF assms]]
    by (simp add: client_plain_address(2) [OF assms])
  have e: "re_search_group endpoint_line (lines_text (client_block payload t server_key psk)) =
      map_option (endpoint_text t) (tm_endpoint t)"
    unfolding endpoint_line_def search_lines [OF plain_keys(2) client_plain_endpoint(1) [OF assms]]
    by (simp add: client_plain_endpoint(2) [OF assms] split: option.splits)
  have f: "re_finditer allowed_ips_line (lines_text (client_block payload t server_key psk)) =
      [Some (nets_text (pc_allowed_ips payload))]"
    unfolding allowed_ips_line_def finditer_lines [OF plain_keys(3) client_plain_ips(1) [OF assms]]
    by (simp add: client_plain_ips(2) [OF assms])
  have i: "ips_of_match (Some (nets_text (pc_allowed_ips payload))) = map str_net (pc_allowed_ips payload)"
    using assms by (intro ips_of_nets) (simp_all add: client_values_def)
  have ne: "endpoint_text t x \<noteq> []" for x by (simp add: endpoint_text_def)
  show ?thesis
    unfolding parse_conf_info_def client_split [OF assms]
    using a e f i ne by (cases "tm_endpoint t") (simp_all add: endpoint_text_def)
qed

lemma client_values_a:
  "client_values peer_payload_a tun_meta_a key_a ''10.0.0.2/32'' key_b None"
proof -
  have "noscope (naddr lan_net)" by (simp add: lan_net_def mk_net_def noscope_def addr_of_int_def Let_def)
  moreover have "list_all ip_char ''10.0.0.2/32''" "list_all host_char ''vpn.example''"
    by (code_simp, code_simp)
  ultimately show ?thesis
    using key_core_ab by (simp add: client_values_def peer_payload_a_def tun_meta_a_def)
qed

theorem client_conf_reads_back_witness:
  "ci_mode (parse_conf_info (client_conf peer_payload_a tun_meta_a (JStr key_a) ''10.0.0.2/32''
     (JStr key_b) (opt_str None))) = ''client''"
  using client_conf_reads_back [OF client_values_a] by (simp add: tun_meta_a_def)

section \<open>Activation\<close>

lemma parse_networks_wf: "list_all wf_net (parse_networks es)"
  by (induction es) (auto split: option.splits dest: json_network_wf)

definition clear_to_activate :: "'w wgenv \<Rightarrow> aexn + json \<Rightarrow> bool" where
  \<comment> \<open>the helper's answer shows the tunnel, its subnets can be read, and none of them has an address in
      common with a directly connected IPv4 subnet\<close>
  "clear_to_activate env q \<longleftrightarrow> (\<exists>v info ts cs. q = Inr v \<and> status_tunnels v = Inr (JList (JObj info # ts)) \<and>
     activation_candidates info = Inr cs \<and>
     (\<forall>l\<in>set (local_nets (we_ifaces env)). \<forall>c\<in>set cs. \<not> shares_address c l))"

lemma candidates_wf: "activation_candidates info = Inr cs \<Longrightarrow> list_all wf_net cs"
  using json_network_wf json_interface_wf wf_iface_net
  by (auto simp: activation_candidates_def parse_networks_wf split: if_splits sum.splits option.splits)

lemma activation_run:
  assumes "client_tunnel_status (we_send env) (Some name) (wa_world s) = (Inr v, w)"
    and "status_tunnels v = Inr (JList (JObj info # ts))" and "activation_candidates info = Inr cs"
    and "ts_action payload = ''activate''" and "\<not> ts_force payload"
  shows "set_tunnel_state env name payload s =
    (if overlapping_local_subnets (we_ifaces env) cs = []
     then (case client_set_tunnel_state (we_send env) name ''activate'' w of
        (Inl e, w') \<Rightarrow> (Inl e, s\<lparr>wa_world := w'\<rparr>) | (Inr _, w') \<Rightarrow> (Inr status_ok, s\<lparr>wa_world := w'\<rparr>))
     else (Inl (overlap_error activate_overlap (overlapping_local_subnets (we_ifaces env) cs)), s\<lparr>wa_world := w\<rparr>))"
  using assms
  by (simp add: set_tunnel_state_def bindm_def on_world_def liftr_def assertm_def first_of_def as_obj_def
      check_overlap_def Let_def ret_def split: prod.split sum.split)

lemma activation_stops:
  assumes "client_tunnel_status (we_send env) (Some name) (wa_world s) = (q, w)" and "\<not> clear_to_activate env q"
    and "ts_action payload = ''activate''" and "\<not> ts_force payload"
  shows "\<exists>e. set_tunnel_state env name payload s = (Inl e, s\<lparr>wa_world := w\<rparr>)"
proof (cases "\<exists>v info ts cs. q = Inr v \<and> status_tunnels v = Inr (JList (JObj info # ts)) \<and>
    activation_candidates info = Inr cs")
  case True
  then obtain v info ts cs where q: "q = Inr v" "status_tunnels v = Inr (JList (JObj info # ts))"
    "activation_candidates info = Inr cs" by blast
  then have "overlapping_local_subnets (we_ifaces env) cs \<noteq> []"
    using assms(2) overlap_exact [OF candidates_wf [OF q(3)]] by (auto simp: clear_to_activate_def)
  then show ?thesis using activation_run [OF assms(1) [unfolded q(1)] q(2,3) assms(3,4)] by simp
next
  case False
  then show ?thesis
    using assms(1,3,4)
    by (auto simp: set_tunnel_state_def bindm_def on_world_def liftr_def assertm_def first_of_def as_obj_def
        split: sum.splits json.splits list.splits)
qed

text \<open>C21: activation is guarded: an unforced activation asks the helper for the tunnel's status first.  If
  the tunnel is there, its address (or for a client its allowed networks) can be read and none of
  these subnets has an address in common with a directly connected IPv4 subnet, then the
  activation is sent and the answer is its outcome; in any other case the request fails with nothing sent but the status
  query, and an overlap is answered with the conflicts and status 409.\<close>

theorem activation_guarded:
  assumes "ts_action payload = ''activate''" and "\<not> ts_force payload"
    and "client_tunnel_status (we_send env) (Some name) (wa_world s) = (q, w)"
  shows "(clear_to_activate env q \<longrightarrow> set_tunnel_state env name payload s =
      (case client_set_tunnel_state (we_send env) name ''activate'' w of
        (Inl e, w') \<Rightarrow> (Inl e, s\<lparr>wa_world := w'\<rparr>) | (Inr _, w') \<Rightarrow> (Inr status_ok, s\<lparr>wa_world := w'\<rparr>))) \<and>
    (\<not> clear_to_activate env q \<longrightarrow> (\<exists>e. set_tunnel_state env name payload s = (Inl e, s\<lparr>wa_world := w\<rparr>))) \<and>
    (\<forall>v info ts cs. q = Inr v \<longrightarrow> status_tunnels v = Inr (JList (JObj info # ts)) \<longrightarrow>
      activation_candidates info = Inr cs \<longrightarrow>
      (\<exists>l\<in>set (local_nets (we_ifaces env)). \<exists>c\<in>set cs. shares_address c l) \<longrightarrow>
      fst (set_tunnel_state env name payload s) =
        Inl (HTTPExc 409 (activate_overlap @ py_join ''; '' (overlapping_local_subnets (we_ifaces env) cs) @
          ''. Confirm you understand the risk to override.'')))"
proof (intro conjI impI allI)
  assume "clear_to_activate env q"
  then obtain v info ts cs where c: "q = Inr v" "status_tunnels v = Inr (JList (JObj info # ts))"
      "activation_candidates info = Inr cs"
      "\<forall>l\<in>set (local_nets (we_ifaces env)). \<forall>c\<in>set cs. \<not> shares_address c l"
    by (auto simp: clear_to_activate_def)
  then show "set_tunnel_state env name payload s =
      (case client_set_tunnel_state (we_send env) name ''activate'' w of
        (Inl e, w') \<Rightarrow> (Inl e, s\<lparr>wa_world := w'\<rparr>) | (Inr _, w') \<Rightarrow> (Inr status_ok, s\<lparr>wa_world := w'\<rparr>))"
    using activation_run [OF assms(3) [unfolded c(1)] c(2,3) assms(1,2)] overlap_exact [OF candidates_wf [OF c(3)]]
    by simp
next
  fix v info ts cs
  assume c: "q = Inr v" "status_tunnels v = Inr (JList (JObj info # ts))" "activation_candidates info = Inr cs"
    "\<exists>l\<in>set (local_nets (we_ifaces env)). \<exists>c\<in>set cs. shares_address c l"
  then show "fst (set_tunnel_state env name payload s) =
      Inl (HTTPExc 409 (activate_overlap @ py_join ''; '' (overlapping_local_subnets (we_ifaces env) cs) @
        ''. Confirm you understand the risk to override.''))"
    using activation_run [OF assms(3) [unfolded c(1)] c(2,3) assms(1,2)] overlap_exact [OF candidates_wf [OF c(3)]]
    by (auto simp: overlap_error_def)
qed (rule activation_stops [OF assms(3) _ assms(1,2)])

definition client_status_a :: jdict where
  \<comment> \<open>a client tunnel whose allowed network is far from the LAN\<close>
  "client_status_a = [(''tunnels'', JList [JObj [(''name'', JStr ''wg1''), (''mode'', JStr ''client''),
     (''configured_allowed_ips'', JList [JStr ''10.9.0.0/24''])]])]"

lemma candidates_a:
  "activation_candidates [(''name'', JStr ''wg1''), (''mode'', JStr ''client''),
     (''configured_allowed_ips'', JList [JStr ''10.9.0.0/24''])] = Inr [mk_net (addr_of_int V4 168361984) 24]"
  by code_simp

lemma no_overlap_a: "overlapping_local_subnets lan [mk_net (addr_of_int V4 168361984) 24] = []"
  by code_simp

definition lan_status_a :: jdict where
  \<comment> \<open>a client tunnel that would route half of the LAN\<close>
  "lan_status_a = [(''tunnels'', JList [JObj [(''name'', JStr ''wg1''), (''mode'', JStr ''client''),
     (''configured_allowed_ips'', JList [JStr ''192.168.1.0/25''])]])]"

lemma status_a: "plain_json (JObj d) \<Longrightarrow>
    client_tunnel_status (we_send script_env) (Some n) (d # ws) = (Inr (JObj d), ws)"
  by (simp add: client_tunnel_status_def script_env_def scripted_call)

theorem activation_guarded_witness:
  "set_tunnel_state script_env ''wg1'' \<lparr>ts_action = ''activate'', ts_force = False\<rparr>
     \<lparr>wa_meta = NoMeta, wa_tick = 0, wa_world = [client_status_a, []]\<rparr> =
    (Inr status_ok, \<lparr>wa_meta = NoMeta, wa_tick = 0, wa_world = []\<rparr>) \<and>
   (\<exists>e. set_tunnel_state script_env ''wg1'' \<lparr>ts_action = ''activate'', ts_force = False\<rparr>
     \<lparr>wa_meta = NoMeta, wa_tick = 0, wa_world = [lan_status_a, []]\<rparr> =
    (Inl e, \<lparr>wa_meta = NoMeta, wa_tick = 0, wa_world = [[]]\<rparr>))"
proof
  let ?p = "\<lparr>ts_action = ''activate'', ts_force = False\<rparr>"
  let ?s = "\<lambda>ws. \<lparr>wa_meta = NoMeta, wa_tick = 0, wa_world = ws\<rparr>"
  have p: "ts_action ?p = ''activate''" "\<not> ts_force ?p" by simp_all
  have q: "client_tunnel_status (we_send script_env) (Some ''wg1'') (wa_world (?s [client_status_a, []])) =
      (Inr (JObj client_status_a), [[]])"
    "client_tunnel_status (we_send script_env) (Some ''wg1'') (wa_world (?s [lan_status_a, []])) =
      (Inr (JObj lan_status_a), [[]])"
    by (simp_all add: status_a client_status_a_def lan_status_a_def)
  note g = activation_guarded [OF p q(1)] activation_guarded [OF p q(2)]
  have "overlapping_local_subnets lan [mk_net (addr_of_int V4 168361984) 24] = [] \<longleftrightarrow>
      (\<forall>l\<in>set (local_nets lan). \<not> shares_address (mk_net (addr_of_int V4 168361984) 24) l)"
    using overlap_exact [OF candidates_wf [OF candidates_a], of lan] by simp
  then have "clear_to_activate script_env (Inr (JObj client_status_a))"
    using candidates_a no_overlap_a
    by (auto simp: clear_to_activate_def client_status_a_def status_tunnels_def as_obj_def jget_or_def script_env_def)
  moreover have "client_set_tunnel_state (we_send script_env) ''wg1'' ''activate'' [[]] = (Inr (), [])"
    by (simp add: client_set_tunnel_state_def script_env_def scripted_call bindm_def ret_def)
  ultimately show "set_tunnel_state script_env ''wg1'' ?p (?s [client_status_a, []]) = (Inr status_ok, ?s [])"
    using g(1) by simp
  have c: "activation_candidates [(''name'', JStr ''wg1''), (''mode'', JStr ''client''),
     (''configured_allowed_ips'', JList [JStr ''192.168.1.0/25''])] = Inr [mk_net (addr_of_int V4 3232235776) 25]"
    by code_simp
  have "overlapping_local_subnets lan [mk_net (addr_of_int V4 3232235776) 25] \<noteq> []" by code_simp
  then have "\<not> clear_to_activate script_env (Inr (JObj lan_status_a))"
    using c overlap_exact [OF candidates_wf [OF c], of lan]
    by (auto simp: clear_to_activate_def lan_status_a_def status_tunnels_def as_obj_def jget_or_def script_env_def)
  then show "\<exists>e. set_tunnel_state script_env ''wg1'' ?p (?s [lan_status_a, []]) = (Inl e, ?s [[]])"
    using g(2) by simp
qed

section \<open>Two requests at once\<close>

text \<open>Requests served one after the other do not disturb each other: after two successful requests
  for new peers of a tunnel the file holds both peers, in order, after those it held before, and
  if it was consistent the two addresses differ.\<close>

lemma serial_peers_distinct:
  assumes "create_peer env name p1 s = (Inr r1, s1)" and "create_peer env name p2 s1 = (Inr r2, s2)"
    and "wa_meta s = Meta m" and "map_of m name = Some t" and "meta_ok m"
  shows "\<exists>m' a b ia ib. wa_meta s2 = Meta m' \<and>
    map_of m' name = Some (t\<lparr>tm_peers := tm_peers t @ [a, b]\<rparr>) \<and>
    pm_description a = pc_description p1 \<and> pm_description b = pc_description p2 \<and>
    peer_ip a = Some ia \<and> peer_ip b = Some ib \<and> ia \<noteq> ib"
proof -
  from create_peer_result [OF assms(1)] assms(3,4) obtain a where
    1: "wa_meta s1 = Meta (AList.update name (t\<lparr>tm_peers := tm_peers t @ [a]\<rparr>) m)"
      "pm_description a = pc_description p1"
    by (fastforce simp: load_metadata_def)
  let ?t = "t\<lparr>tm_peers := tm_peers t @ [a]\<rparr>"
  let ?m = "AList.update name ?t m"
  from create_peer_result [OF assms(2)] 1(1) obtain b where
    2: "wa_meta s2 = Meta (AList.update name (?t\<lparr>tm_peers := tm_peers ?t @ [b]\<rparr>) ?m)"
      "pm_description b = pc_description p2"
    by (fastforce simp: load_metadata_def update_Some_unfold)
  let ?u = "t\<lparr>tm_peers := tm_peers t @ [a, b]\<rparr>"
  have "meta_sound s" using assms(3,5) by (simp add: meta_sound_def)
  then have "meta_sound s2"
    using keeps_create_peer [of env name p1] keeps_create_peer [of env name p2] assms(1,2)
    unfolding keeps_def keeps_sound_def by (metis snd_conv)
  moreover have "map_of (AList.update name ?u ?m) name = Some ?u" by (simp add: update_conv)
  ultimately have "tun_ok ?u" using 2(1) by (auto simp: meta_sound_def intro: meta_ok_lookup)
  then obtain as where "map peer_ip (tm_peers t @ [a, b]) = map Some as" "distinct as"
    by (auto simp: tun_ok_def)
  then obtain xs ia ib where "as = xs @ [ia, ib]" "peer_ip a = Some ia" "peer_ip b = Some ib"
    by (auto simp: append_eq_map_conv)
  with \<open>distinct as\<close> 1(2) 2 show ?thesis by (auto simp: update_conv)
qed

definition tun_meta_b :: tun_meta where
  "tun_meta_b = \<lparr>tm_address = ''10.0.0.1/29'', tm_endpoint = None, tm_listen_port = 51820, tm_peers = []\<rparr>"

definition peer_b1 :: peer_meta where
  "peer_b1 = new_peer script_env 0 peer_payload_a ''10.0.0.2/32'' (JStr key_b)"

lemma allocate_b: "allocate_peer_address tun_meta_b = Inr ''10.0.0.2/32''"
  "allocate_peer_address (tun_meta_b\<lparr>tm_peers := tm_peers tun_meta_b @ [peer_b1]\<rparr>) = Inr ''10.0.0.3/32''"
  by (code_simp, code_simp)

lemma meta_b: "map_of [(''wg0'', tun_meta_b)] ''wg0'' = Some tun_meta_b"
  "map_of (add_meta_peer ''wg0'' tun_meta_b peer_b1 [(''wg0'', tun_meta_b)]) ''wg0'' =
    Some (tun_meta_b\<lparr>tm_peers := tm_peers tun_meta_b @ [peer_b1]\<rparr>)"
  by (simp_all add: add_meta_peer_def)

definition app_state_b :: "jdict list wgapp" where
  "app_state_b = \<lparr>wa_meta = Meta [(''wg0'', tun_meta_b)], wa_tick = 0,
     wa_world = [status_result_a, keys_result_b, [], status_result_a, keys_result_b, []]\<rparr>"

lemma meta_ok_b: "meta_ok [(''wg0'', tun_meta_b)]"
proof -
  have "map_option is_v4_iface (ip_interface ''10.0.0.1/29'') = Some True" by code_simp
  then show ?thesis by (auto simp: meta_ok_def tun_ok_def tun_meta_b_def)
qed

lemmas serial_b1 = create_peer_run [OF meta_b(1) allocate_b(1), of 0 "[status_result_a, keys_result_b, []]",
  folded app_state_b_def peer_b1_def]
lemmas serial_b2 = create_peer_run [OF meta_b(2) allocate_b(2), of "Suc 0" "[]"]

lemma serial_peers_distinct_witness:
  "\<exists>m' a b. wa_meta (snd (create_peer script_env ''wg0'' peer_payload_a
      (snd (create_peer script_env ''wg0'' peer_payload_a app_state_b)))) = Meta m' \<and>
    map_of m' ''wg0'' = Some (tun_meta_b\<lparr>tm_peers := [a, b]\<rparr>) \<and> peer_ip a \<noteq> peer_ip b"
proof -
  have "wa_meta app_state_b = Meta [(''wg0'', tun_meta_b)]" by (simp add: app_state_b_def)
  from serial_peers_distinct [OF serial_b1 serial_b2 this meta_b(1) meta_ok_b]
  show ?thesis
    unfolding serial_b1 snd_conv serial_b2 by (auto simp: tun_meta_b_def)
qed

text \<open>C32: requests that overlap in time can lose a peer: when a second request for the same tunnel is
  served completely while the first awaits the status, both are given the same address, both
  succeed, and the file ends up without the peer of the second.\<close>

theorem interleaved_peers_lost:
  assumes "peer_begin env name s = (Inr (m, t, k), s1)"
    and "create_peer env name p2 s1 = (Inr r2, s2)"
    and "peer_rest env name p1 (m, t, k) s2 = (Inr r1, s3)"
  shows "\<exists>addr pub pub' n n'. allocate_peer_address t = Inr addr \<and>
    wa_meta s2 = Meta (add_meta_peer name t (new_peer env n' p2 addr pub') m) \<and>
    wa_meta s3 = Meta (add_meta_peer name t (new_peer env n p1 addr pub) m)"
proof -
  from peer_begin_result [OF assms(1)] have b: "load_metadata s = (Inr m, s)" "map_of m name = Some t"
      "wa_meta s1 = wa_meta s" by simp_all
  from peer_rest_result [OF assms(3)] obtain addr pub n where
    1: "allocate_peer_address t = Inr addr" "wa_meta s3 = Meta (add_meta_peer name t (new_peer env n p1 addr pub) m)"
    by blast
  have "load_metadata s1 = (Inr m, s1)" using b by (simp add: load_metadata_def split: meta_file.splits)
  with create_peer_result [OF assms(2)] b(2) 1(1) obtain pub' n' where
    "wa_meta s2 = Meta (add_meta_peer name t (new_peer env n' p2 addr pub') m)"
    by (auto simp: add_meta_peer_def new_peer_def)
  with 1 show ?thesis by blast
qed

definition app_state_c :: "jdict list wgapp" where
  "app_state_c = \<lparr>wa_meta = Meta [(''wg0'', tun_meta_b)], wa_tick = 0,
     wa_world = [status_result_a, status_result_a, keys_result_b, [], keys_result_b, []]\<rparr>"

theorem interleaved_peers_lost_witness:
  "\<exists>s2 s3 p1 p2.
    s2 = snd (bindm (peer_begin script_env ''wg0'') (\<lambda>_. create_peer script_env ''wg0'' peer_payload_a) app_state_c) \<and>
    s3 = snd (peer_rest script_env ''wg0'' peer_payload_a ([(''wg0'', tun_meta_b)], tun_meta_b, JStr key_a) s2) \<and>
    wa_meta s2 = Meta (add_meta_peer ''wg0'' tun_meta_b p2 [(''wg0'', tun_meta_b)]) \<and>
    wa_meta s3 = Meta (add_meta_peer ''wg0'' tun_meta_b p1 [(''wg0'', tun_meta_b)]) \<and>
    pm_tunnel_address p1 = pm_tunnel_address p2"
proof -
  note b = peer_begin_run [OF meta_b(1), of 0 "[status_result_a, keys_result_b, [], keys_result_b, []]",
      folded app_state_c_def]
  note c = create_peer_run [OF meta_b(1) allocate_b(1), of 0 "[keys_result_b, []]"]
  note r = peer_rest_run [OF allocate_b(1), where m = "[(''wg0'', tun_meta_b)]" and n = "Suc 0" and ws = "[]"]
  note x = interleaved_peers_lost [OF b c r]
  from x obtain addr pub pub' n n' where
    y: "wa_meta (snd (create_peer script_env ''wg0'' peer_payload_a
           \<lparr>wa_meta = Meta [(''wg0'', tun_meta_b)], wa_tick = 0, wa_world = [status_result_a, keys_result_b, [], keys_result_b, []]\<rparr>)) =
         Meta (add_meta_peer ''wg0'' tun_meta_b (new_peer script_env n' peer_payload_a addr pub') [(''wg0'', tun_meta_b)])"
      "wa_meta (snd (peer_rest script_env ''wg0'' peer_payload_a ([(''wg0'', tun_meta_b)], tun_meta_b, JStr key_a)
         (snd (create_peer script_env ''wg0'' peer_payload_a
           \<lparr>wa_meta = Meta [(''wg0'', tun_meta_b)], wa_tick = 0, wa_world = [status_result_a, keys_result_b, [], keys_result_b, []]\<rparr>)))) =
         Meta (add_meta_peer ''wg0'' tun_meta_b (new_peer script_env n peer_payload_a addr pub) [(''wg0'', tun_meta_b)])"
    unfolding c r snd_conv by blast
  show ?thesis
    unfolding bindm_Inr [where m = "peer_begin script_env ''wg0''", OF b]
    by (intro exI conjI, rule refl, rule refl, rule y(1), rule y(2)) (simp add: new_peer_def)
qed

end
