(* ===== verification/EndToEnd.thy ===== *)
theory EndToEnd
  imports Models WgAppProps
begin

text \<open>
  The application and the root helper together: a request handler of the application whose
  calls go over the socket to the modelled daemon.  Validated request bodies lead to clean
  requests of the daemon, so the refinement of the daemon carries over: what the handler
  records in its metadata is what the daemon has written.
\<close>

section \<open>The size of a request line\<close>

lemma dump_str_length: "length (dump_str s) \<le> 6 * length s + 2"
proof -
  have "length (esc_char c) \<le> 6" for c by (simp add: esc_char_def)
  then have "length (concat (map esc_char s)) \<le> 6 * length s"
    by (induction s) (auto intro: add_mono)
  then show ?thesis by (simp add: dump_str_def)
qed

lemma length_dec: "n < 10 ^ Suc k \<Longrightarrow> length (dec n) \<le> Suc k"
proof (induction k arbitrary: n)
  case (0 n)
  then show ?case by (simp add: dec.simps [of n])
next
  case (Suc k n)
  then have "length (dec (n div 10)) \<le> Suc k" by (intro Suc.IH) (simp add: less_mult_imp_div_less)
  then show ?case by (simp add: dec.simps [of n])
qed

lemma octet_length: "length (dec (nat (i mod 256))) \<le> 3"
proof (rule length_dec_le3)
  have "i mod 256 < 256" by simp
  then show "nat (i mod 256) < 1000" by linarith
qed

lemma str_v4_length: "length (str_v4 i) \<le> 15"
proof -
  have "str_v4 i = dec (nat (i div 2 ^ 24 mod 256)) @ ''.'' @ dec (nat (i div 2 ^ 16 mod 256)) @ ''.'' @
      dec (nat (i div 2 ^ 8 mod 256)) @ ''.'' @ dec (nat (i div 2 ^ 0 mod 256))"
    by (simp only: str_v4_def list.map py_join.simps)
  then show ?thesis
    using octet_length [of "i div 2 ^ 24"] octet_length [of "i div 2 ^ 16"]
      octet_length [of "i div 2 ^ 8"] octet_length [of "i div 2 ^ 0"]
    by (simp only: length_append list.size)
qed

lemma v4_iface_length:
  assumes "v4_iface_ok i"
  shows "length (str_iface i) \<le> 19"
proof -
  have "nplen (inet i) \<le> 32"
    using assms by (auto simp: v4_iface_ok_def wf_iface_def is_v4_iface_def)
  then have "length (dec (nplen (inet i))) \<le> 3" by (intro length_dec_le3) simp
  then show ?thesis
    using assms str_v4_length [of "aint (iaddr i)"]
    by (simp add: v4_iface_ok_def str_iface_def is_v4_iface_def str_addr_def)
qed

lemma valid_name_length: "valid_name n \<Longrightarrow> length n \<le> 16"
  by (auto simp: valid_name_def or_nl_def name_core_def)

lemma key_core_length: "key_core k \<Longrightarrow> length k = 44"
  by (simp add: key_core_def)

section \<open>Calls that reach the daemon\<close>

lemma call_ok:
  assumes "plain_json (JObj ((''cmd'', JStr cmd) # params))"
    and "length (dumps (JObj ((''cmd'', JStr cmd) # params))) \<le> stream_limit"
    and "helper_dispatch cmd = Some handler"
    and "helper_call (daemon_send env (Some uid) uid) cmd params h = (Inr v, h')"
  shows "\<exists>d. handler env ((''cmd'', JStr cmd) # params) h = (Inr d, h')"
proof -
  obtain r h2 where r: "handler env ((''cmd'', JStr cmd) # params) h = (r, h2)" by fastforce
  have nil: "read_response [] = Inl op_failed" by (simp add: read_response_def)
  show ?thesis
    using assms(4) r read_error_reply nil
    unfolding helper_call_def daemon_send_def handle_client_call [OF assms(1-3)] run_command_def
    by (cases r) (auto split: exn.splits if_splits)
qed

lemma daemon_call_keeps:
  assumes "plain_json (JObj ((''cmd'', JStr c) # params))" and d: "helper_dispatch c = Some handler"
    and "P (snd (handler env ((''cmd'', JStr c) # params) h))" and "P h"
  shows "P (snd (helper_call (daemon_send env (Some uid) uid) c params h))"
proof -
  let ?v = "JObj ((''cmd'', JStr c) # params)"
  let ?cn = "\<lparr>cn_allowed_uid = Some uid, cn_peer_uid = uid, cn_input = dumps ?v @ [nl]\<rparr>"
  have "P (snd (handle_client env ?cn h))"
  proof (cases "length (dumps ?v) \<le> stream_limit")
    case True
    then show ?thesis
      unfolding handle_client_call [OF assms(1) True d] run_command_def using assms(3)
      by (auto split: prod.splits sum.splits exn.splits)
  next
    case False
    then have "handle_client env ?cn h = (Escaped (PyError ''ValueError''), h)"
      using json_line.line_length [OF assms(1), of "[]"] by (simp add: handle_client_def)
    then show ?thesis using assms(4) by simp
  qed
  then show ?thesis
    unfolding helper_call_def daemon_send_def by (auto split: prod.splits reply.splits sock.splits)
qed

lemma daemon_quiet:
  assumes "plain_json (JObj ((''cmd'', JStr c) # params))"
    and "c \<in> {''genkey'', ''tunnel_status'', ''set_tunnel_state''}" and "represents T h"
  shows "represents T (snd (helper_call (daemon_send env (Some uid) uid) c params h))"
proof -
  obtain handler :: "'a env \<Rightarrow> jdict \<Rightarrow> ('a, jdict) hop" where d: "helper_dispatch c = Some handler"
    using assms(2) by (auto simp: helper_dispatch_def)
  have "touches (\<lambda>_. False) (argv_ok env) h (snd (handler env ((''cmd'', JStr c) # params) h))"
    using other_quiet [OF assms(2) d] by (simp add: keeps_def)
  then have "represents T (snd (handler env ((''cmd'', JStr c) # params) h))"
    by (rule represents_quiet [OF assms(3)])
  then show ?thesis
    using assms(3) by (rule daemon_call_keeps [where P = "represents T", OF assms(1) d])
qed

section \<open>Creating a tunnel\<close>

definition create_params :: "string \<Rightarrow> string \<Rightarrow> int \<Rightarrow> string \<Rightarrow> jdict" where
  "create_params name address port k =
     [(''name'', JStr name), (''address'', JStr address), (''listen_port'', JInt port),
      (''private_key'', JStr k)]"

definition new_tunnel :: "tunnel_create \<Rightarrow> string \<Rightarrow> tunnel" where
  "new_tunnel p k = \<lparr>tn_key = k, tn_addr = tc_address p, tn_port = tc_listen_port p, tn_peers = []\<rparr>"

lemma create_call_clean:
  assumes "tunnel_create_ok p" and "key_core k"
  shows "clean_create ((''cmd'', JStr ''create_tunnel'') #
      create_params (tc_name p) (str_iface (tc_address p)) (tc_listen_port p) k) (tc_name p) (new_tunnel p k)"
  using assms ip_interface_str_iface [of "tc_address p"] tunnel_name_valid
  by (simp add: clean_create_def create_params_def new_tunnel_def jget_def address_field_def
      tunnel_create_ok_def v4_iface_ok_def json_interface_def noscope_def is_v4_iface_def)

lemma create_call_fits:
  assumes "tunnel_create_ok p" and "key_core k"
  shows "length (dumps (JObj ((''cmd'', JStr ''create_tunnel'') #
      create_params (tc_name p) (str_iface (tc_address p)) (tc_listen_port p) k))) \<le> stream_limit"
proof -
  note p = assms(1) [unfolded tunnel_create_ok_def]
  have "length (tc_name p) \<le> 16" using p by (blast intro: tunnel_name_valid valid_name_length)
  moreover have "length (str_iface (tc_address p)) \<le> 19" using p by (blast intro: v4_iface_length)
  moreover have "length (dec_int (tc_listen_port p)) \<le> 5"
  proof -
    have "nat (tc_listen_port p) \<le> 65535" using p by linarith
    then have "nat (tc_listen_port p) < 10 ^ Suc 4" by simp
    from length_dec [OF this] show ?thesis using p by (simp add: dec_int_def)
  qed
  ultimately show ?thesis
    using key_core_length [OF assms(2)] dump_str_length [of "tc_name p"]
      dump_str_length [of "str_iface (tc_address p)"] dump_str_length [of k]
    by (simp add: create_params_def stream_limit_def dump_str_def [of "''cmd''"]
        dump_str_def [of "''create_tunnel''"] dump_str_def [of "''name''"] dump_str_def [of "''address''"]
        dump_str_def [of "''listen_port''"] dump_str_def [of "''private_key''"] esc_char_def code_def)
qed

lemma create_call:
  assumes "tunnel_create_ok p" and "key_core k" and "never_fails env" and "represents T h"
    and "T (tc_name p) = None"
  shows "\<exists>h'. helper_call (daemon_send env (Some uid) uid) ''create_tunnel''
      (create_params (tc_name p) (str_iface (tc_address p)) (tc_listen_port p) k) h = (Inr (JObj []), h') \<and>
    represents (T(tc_name p \<mapsto> new_tunnel p k)) h'"
proof -
  let ?ps = "create_params (tc_name p) (str_iface (tc_address p)) (tc_listen_port p) k"
  have plain: "plain_json (JObj ((''cmd'', JStr ''create_tunnel'') # ?ps))"
    by (simp add: create_params_def)
  have d: "helper_dispatch ''create_tunnel'' = Some (cmd_create_tunnel :: 'a env \<Rightarrow> jdict \<Rightarrow> ('a, jdict) hop)"
    by (simp add: helper_dispatch_def)
  from create_result [OF assms(3,4) create_call_clean [OF assms(1,2)]] assms(5)
  obtain h' where h: "cmd_create_tunnel env ((''cmd'', JStr ''create_tunnel'') # ?ps) h = (Inr [], h')"
      "represents (T(tc_name p \<mapsto> new_tunnel p k)) h'"
    by (metis prod.collapse)
  have "length (ok_reply []) \<le> Suc stream_limit"
    by (simp add: ok_reply_def stream_limit_def dump_str_def esc_char_def code_def)
  then have "helper_call (daemon_send env (Some uid) uid) ''create_tunnel'' ?ps h = (Inr (JObj []), h')"
    unfolding helper_call_def daemon_send_def handle_client_call [OF plain create_call_fits [OF assms(1,2)] d]
      run_command_def h(1)
    using read_ok_reply [of "[]"] by simp
  with h(2) show ?thesis by blast
qed

text \<open>C20: from the browser to the disk: when a validated request for a tunnel with a free name passes
  the overlap check or overrides it, the helper's programs deliver a key pair, the metadata file can
  be loaded, and no system call fails, the handler succeeds; the daemon's files then hold the old tunnels and the new one
  as requested, with the fresh private key, and the metadata gains the matching entry.\<close>

theorem tunnel_created_end_to_end:
  assumes "tunnel_create_ok p" and "never_fails henv" and "represents T (wa_world s)"
    and "T (tc_name p) = None" and "we_send env = daemon_send henv (Some uid) uid"
    and "\<not> tc_force p \<Longrightarrow> overlapping_local_subnets (we_ifaces env) [inet (tc_address p)] = []"
    and "\<And>i. \<not> we_save_fails env i"
    and "client_genkey (we_send env) (wa_world s) = (Inr (JObj keys), h1)"
    and "map_of keys ''private_key'' = Some (JStr k)" and "key_core k"
    and "map_of keys ''public_key'' = Some pub" and "load_metadata s = (Inr m, s)"
  shows "\<exists>s'. create_tunnel env p s = (Inr (JObj [(''name'', JStr (tc_name p)), (''public_key'', pub)]), s') \<and>
    represents (T(tc_name p \<mapsto> new_tunnel p k)) (wa_world s') \<and>
    wa_meta s' = Meta (AList.update (tc_name p) \<lparr>tm_address = str_iface (tc_address p),
      tm_endpoint = tc_endpoint p, tm_listen_port = tc_listen_port p, tm_peers = []\<rparr> m)"
proof -
  have "represents T (snd (helper_call (daemon_send henv (Some uid) uid) ''genkey'' [] (wa_world s)))"
    by (rule daemon_quiet) (use assms(3) in simp_all)
  then have r1: "represents T h1" using assms(5,8) by (simp add: client_genkey_def)
  from create_call [OF assms(1,10,2) r1 assms(4), of uid] obtain h2 where
    h2: "helper_call (we_send env) ''create_tunnel'' (create_params (tc_name p)
        (str_iface (tc_address p)) (tc_listen_port p) k) h1 = (Inr (JObj []), h2)"
      "represents (T(tc_name p \<mapsto> new_tunnel p k)) h2"
    using assms(5) by auto
  have c: "client_create_tunnel (we_send env) (tc_name p) (str_iface (tc_address p)) (tc_listen_port p)
      (JStr k) h1 = (Inr (), h2)"
    using h2(1) by (simp add: client_create_tunnel_def create_params_def bindm_def ret_def)
  have m1: "load_metadata (s\<lparr>wa_world := w\<rparr>) = (Inr m, s\<lparr>wa_world := w\<rparr>)" for w
    using assms(12) by (simp add: load_metadata_def)
  show ?thesis
    using assms(6,7,8,9,11,12) c m1 h2(2)
    by (cases "tc_force p")
      (simp_all add: create_tunnel_def bindm_def on_world_def liftr_def jindex_def check_overlap_def
        assertm_def ret_def save_metadata_def)
qed

section \<open>Helpers with working programs\<close>

definition key_programs :: "string list \<Rightarrow> string" where
  \<comment> \<open>what the programs print\<close>
  "key_programs argv = (if argv = [''wg'', ''genkey''] then key_a @ [nl]
     else if argv = [''wg'', ''pubkey''] then key_b @ [nl]
     else if argv = [''wg'', ''show'', ''all'', ''dump'']
     then py_join [CHR 0x09] [''wg0'', key_b, key_a, ''51820'', ''off''] @ [nl] else [])"

definition key_env :: "unit env" where
  \<comment> \<open>no failures, and \<open>wg\<close> prints keys\<close>
  "key_env = quiet_env\<lparr>e_run := (\<lambda>argv _ _ x. (Some (0, key_programs argv, []), x)),
     e_if_up := (\<lambda>_ _. False)\<rparr>"

lemma key_never_fails: "never_fails key_env"
  by (simp add: never_fails_def key_env_def quiet_env_def)

lemma strip_keys: "py_strip (key_a @ [nl]) = key_a" "py_strip (key_b @ [nl]) = key_b"
  by (code_simp, code_simp)

definition keys_ab :: jdict where
  "keys_ab = [(''private_key'', JStr key_a), (''public_key'', JStr key_b)]"

definition keys_host :: "unit host \<Rightarrow> unit host" where
  "keys_host h = h\<lparr>h_ran := h_ran h @ [([''wg'', ''genkey''], None, h_fs h),
     ([''wg'', ''pubkey''], Some (key_a @ [nl]), h_fs h)]\<rparr>"

lemma genkey_keys: "cmd_genkey key_env req h = (Inr keys_ab, keys_host h)"
  by (simp add: cmd_genkey_def checked_run_def bindm_def run_prog_def key_env_def quiet_env_def
      key_programs_def assertm_def ret_def Let_def strip_keys keys_ab_def keys_host_def)

lemma call_genkey_keys:
  "client_genkey (daemon_send key_env (Some uid) uid) h = (Inr (JObj keys_ab), keys_host h)"
proof -
  have p: "plain_json (JObj ((''cmd'', JStr ''genkey'') # []))" by simp
  have l: "length (dumps (JObj ((''cmd'', JStr ''genkey'') # []))) \<le> stream_limit"
    by (simp add: stream_limit_def dump_str_def esc_char_def code_def)
  have d: "helper_dispatch ''genkey'' = Some (cmd_genkey :: unit env \<Rightarrow> jdict \<Rightarrow> (unit, jdict) hop)"
    by (simp add: helper_dispatch_def)
  have k: "length key_a = 44" "length key_b = 44" by (simp_all add: key_a_def key_b_def)
  have "length (ok_reply keys_ab) \<le> Suc stream_limit"
    using dump_str_length [of key_a] dump_str_length [of key_b] k
    by (simp add: ok_reply_def keys_ab_def stream_limit_def dump_str_def [of "''private_key''"]
        dump_str_def [of "''public_key''"] dump_str_def [of "''ok''"] dump_str_def [of "''result''"]
        esc_char_def code_def)
  then show ?thesis
    unfolding client_genkey_def helper_call_def daemon_send_def handle_client_call [OF p l d]
      run_command_def genkey_keys
    by (simp add: read_ok_reply keys_ab_def)
qed

definition web_env :: "unit host wgenv" where
  "web_env = \<lparr>we_send = daemon_send key_env (Some 996) 996, we_ifaces = lan, we_save_fails = (\<lambda>_. False),
     we_uuid = dec, we_sub = JStr ''admin''\<rparr>"

definition web_start :: "unit host wgapp" where
  "web_start = \<lparr>wa_meta = NoMeta, wa_tick = 0, wa_world = empty_host\<rparr>"

lemma payload_a_ok: "tunnel_create_ok payload_a"
  using clean_payload_a
  by (simp add: tunnel_create_ok_def v4_iface_ok_def clean_payload_def)
    (simp add: payload_a_def tunnel_name_pattern_def endpoint_host_pattern_def is_ascii_alnum_def
      is_ascii_digit_def is_lower_az_def is_upper_az_def code_def)

lemma no_overlap_payload: "overlapping_local_subnets lan [inet (tc_address payload_a)] = []"
  by code_simp

theorem tunnel_created_end_to_end_witness:
  "\<exists>s'. fst (create_tunnel web_env payload_a web_start) =
      Inr (JObj [(''name'', JStr ''wg0''), (''public_key'', JStr key_b)]) \<and>
    s' = snd (create_tunnel web_env payload_a web_start) \<and>
    represents ((\<lambda>_. None)(''wg0'' \<mapsto> new_tunnel payload_a key_a)) (wa_world s')"
proof -
  have "\<exists>s'. create_tunnel web_env payload_a web_start =
      (Inr (JObj [(''name'', JStr (tc_name payload_a)), (''public_key'', JStr key_b)]), s') \<and>
    represents ((\<lambda>_. None)(tc_name payload_a \<mapsto> new_tunnel payload_a key_a)) (wa_world s') \<and>
    wa_meta s' = Meta (AList.update (tc_name payload_a) \<lparr>tm_address = str_iface (tc_address payload_a),
      tm_endpoint = tc_endpoint payload_a, tm_listen_port = tc_listen_port payload_a, tm_peers = []\<rparr> [])"
  proof (rule tunnel_created_end_to_end [OF payload_a_ok key_never_fails, where uid = 996 and k = key_a and
        keys = keys_ab and ?h1.0 = "keys_host empty_host"])
    show "represents (\<lambda>_. None) (wa_world web_start)" by (simp add: web_start_def represents_empty)
    show "client_genkey (we_send web_env) (wa_world web_start) = (Inr (JObj keys_ab), keys_host empty_host)"
      by (simp add: web_env_def web_start_def call_genkey_keys)
    show "overlapping_local_subnets (we_ifaces web_env) [inet (tc_address payload_a)] = []"
      using no_overlap_payload by (simp add: web_env_def)
    show "load_metadata web_start = (Inr [], web_start)" by (simp add: load_metadata_def web_start_def)
  qed (use key_core_ab in \<open>simp_all add: web_env_def keys_ab_def\<close>)
  moreover have "tc_name payload_a = ''wg0''" by (simp add: payload_a_def)
  ultimately show ?thesis by (metis fst_conv snd_conv)
qed

section \<open>Adding a peer\<close>

definition keep_value :: "int option \<Rightarrow> int" where
  "keep_value k = (case k of None \<Rightarrow> 0 | Some i \<Rightarrow> i)"

definition server_peer :: "ipaddr \<Rightarrow> string \<Rightarrow> string option \<Rightarrow> int option \<Rightarrow> tun_peer" where
  \<comment> \<open>the server's view of a peer: its only allowed network is its own address\<close>
  "server_peer h pub psk keep = \<lparr>tp_key = pub, tp_psk = psk, tp_nets = [\<lparr>naddr = h, nplen = 32\<rparr>],
     tp_keep = keep_value keep\<rparr>"

definition add_params :: "string \<Rightarrow> string \<Rightarrow> string \<Rightarrow> string option \<Rightarrow> int option \<Rightarrow> jdict" where
  "add_params name pub address psk keep =
     [(''tunnel'', JStr name), (''public_key'', JStr pub), (''allowed_ips'', JList [JStr address]),
      (''preshared_key'', opt_str psk), (''keepalive'', opt_int keep)]"

lemma add_call_clean:
  assumes "valid_name name" and "key_core pub" and "\<forall>k. psk = Some k \<longrightarrow> key_core k"
    and "\<forall>k. keep = Some k \<longrightarrow> 0 \<le> k \<and> k \<le> 3600"
    and "aver h = V4" and "ascope h = None" and "wf_addr h"
  shows "clean_add ((''cmd'', JStr ''add_peer'') # add_params name pub (str_addr h @ ''/32'') psk keep)
    name (server_peer h pub psk keep)"
proof -
  have "json_network (JStr (str_addr h @ ''/32'')) = Some \<lparr>naddr = h, nplen = 32\<rparr>"
    using ip_network_host32 [OF assms(5-7)] by (simp add: json_network_def json_interface_def)
  then have "map json_network [JStr (str_addr h @ ''/32'')] = map Some (tp_nets (server_peer h pub psk keep))"
    by (simp add: server_peer_def)
  moreover have "wf_peer (server_peer h pub psk keep)"
    using assms by (cases keep) (simp_all add: wf_peer_def server_peer_def keep_value_def noscope_def)
  ultimately show ?thesis
    using assms(1,4) unfolding clean_add_def
    by (cases keep) (simp_all add: add_params_def jget_def server_peer_def keep_value_def opt_int_def)
qed

lemma add_call_fits:
  assumes "valid_name name" and "key_core pub" and "\<forall>k. psk = Some k \<longrightarrow> key_core k"
    and "\<forall>k. keep = Some k \<longrightarrow> 0 \<le> k \<and> k \<le> 3600" and "aver h = V4" and "ascope h = None"
  shows "length (dumps (JObj ((''cmd'', JStr ''add_peer'') #
      add_params name pub (str_addr h @ ''/32'') psk keep))) \<le> stream_limit"
proof -
  have "length (str_addr h @ ''/32'') \<le> 18"
    using assms(5,6) str_v4_length [of "aint h"] by (simp add: str_addr_def)
  then have a: "length (dump_str (str_addr h @ ''/32'')) \<le> 200"
    using dump_str_length [of "str_addr h @ ''/32''"] by linarith
  have n: "length (dump_str name) \<le> 200"
    using dump_str_length [of name] valid_name_length [OF assms(1)] by linarith
  have key: "length (dump_str k) \<le> 300" if "key_core k" for k
    using dump_str_length [of k] key_core_length [OF that] by linarith
  have p: "length (dumps (opt_str psk)) \<le> 300"
    using assms(3) key by (cases psk) (simp_all add: opt_str_def)
  have i: "length (dumps (opt_int keep)) \<le> 5"
  proof (cases keep)
    case (Some i)
    then have "nat i < 10 ^ Suc 3" and "0 \<le> i" using assms(4) by auto
    from length_dec [OF this(1)] this(2) Some show ?thesis by (simp add: opt_int_def dec_int_def)
  qed (simp add: opt_int_def)
  show ?thesis
    using a n p i key [OF assms(2)]
    by (simp add: add_params_def stream_limit_def dump_str_def [of "''cmd''"]
        dump_str_def [of "''add_peer''"] dump_str_def [of "''tunnel''"] dump_str_def [of "''public_key''"]
        dump_str_def [of "''allowed_ips''"] dump_str_def [of "''preshared_key''"]
        dump_str_def [of "''keepalive''"] esc_char_def code_def)
qed

lemma add_call:
  assumes "helper_call (daemon_send env (Some uid) uid) ''add_peer''
      (add_params name pub (str_addr h @ ''/32'') psk keep) hst = (Inr v, hst')"
    and "valid_name name" and "key_core pub" and "\<forall>k. psk = Some k \<longrightarrow> key_core k"
    and "\<forall>k. keep = Some k \<longrightarrow> 0 \<le> k \<and> k \<le> 3600"
    and "aver h = V4" and "ascope h = None" and "wf_addr h"
    and "never_fails env" and "represents T hst"
  shows "\<exists>t. T name = Some t \<and> pub \<notin> tp_key ` set (tn_peers t) \<and>
    represents (T(name \<mapsto> t\<lparr>tn_peers := tn_peers t @ [server_peer h pub psk keep]\<rparr>)) hst'"
proof -
  let ?ps = "add_params name pub (str_addr h @ ''/32'') psk keep"
  have plain: "plain_json (JObj ((''cmd'', JStr ''add_peer'') # ?ps))"
    by (simp add: add_params_def opt_str_def opt_int_def split: option.splits)
  have d: "helper_dispatch ''add_peer'' = Some (cmd_add_peer :: 'a env \<Rightarrow> jdict \<Rightarrow> ('a, jdict) hop)"
    by (simp add: helper_dispatch_def)
  from call_ok [OF plain add_call_fits [OF assms(2-7)] d assms(1)] obtain r where
    r: "cmd_add_peer env ((''cmd'', JStr ''add_peer'') # ?ps) hst = (Inr r, hst')" by blast
  from add_refines [OF assms(9,10) add_call_clean [OF assms(2-8)]]
  show ?thesis
    unfolding refines_def r
    by (auto simp: server_peer_def split: option.splits if_splits)
qed

definition gives_keys :: "'w sender \<Rightarrow> bool" where
  \<comment> \<open>every answer to \<open>genkey\<close> is a pair of keys, as \<open>wg genkey\<close> and \<open>wg pubkey\<close> print them\<close>
  "gives_keys send \<longleftrightarrow> (\<forall>h v h'. client_genkey send h = (Inr v, h') \<longrightarrow>
     (\<exists>d k pub. v = JObj d \<and> map_of d ''private_key'' = Some (JStr k) \<and> key_core k \<and>
        map_of d ''public_key'' = Some (JStr pub) \<and> key_core pub))"

lemma on_worldE:
  assumes "on_world m s = (Inr v, s')"
  obtains "m (wa_world s) = (Inr v, wa_world s')"
  using assms by (auto simp: on_world_def split: prod.splits)

lemma gives_keysD:
  assumes "gives_keys send" and "on_world (client_genkey send) s = (Inr v, s')"
  obtains k pub where "jindex v ''private_key'' = Inr (JStr k)" and "key_core k"
    and "jindex v ''public_key'' = Inr (JStr pub)" and "key_core pub"
proof -
  obtain d k pub where "v = JObj d" "map_of d ''private_key'' = Some (JStr k)" "key_core k"
      "map_of d ''public_key'' = Some (JStr pub)" "key_core pub"
    using assms(1) on_worldE [OF assms(2)] unfolding gives_keys_def by metis
  then show ?thesis by (intro that [of k pub]) (simp_all add: jindex_def)
qed

lemma genkey_quiet_world:
  assumes "represents T (wa_world s)"
    and "on_world (client_genkey (daemon_send env (Some uid) uid)) s = (Inr v, s')"
  shows "represents T (wa_world s')"
proof -
  have "client_genkey (daemon_send env (Some uid) uid) (wa_world s) = (Inr v, wa_world s')"
    using assms(2) by (rule on_worldE)
  moreover have "represents T (snd (helper_call (daemon_send env (Some uid) uid) ''genkey'' [] (wa_world s)))"
    by (rule daemon_quiet) (use assms(1) in simp_all)
  ultimately show ?thesis by (simp add: client_genkey_def)
qed

lemma peer_begin_quiet_world:
  assumes "represents T (wa_world s)" and "we_send env = daemon_send henv (Some uid) uid"
    and "peer_begin env name s = (Inr (m, t, k), s')"
  shows "represents T (wa_world s')"
proof -
  let ?call = "helper_call (daemon_send henv (Some uid) uid) ''tunnel_status'' [(''name'', opt_str (Some name))]"
  have "wa_world s' = snd (?call (wa_world s))"
    using assms(2,3)
    by (auto simp: peer_begin_def bindm_def liftr_def assertm_def ret_def on_world_def
        client_tunnel_status_def dest!: load_Inr split: prod.splits sum.splits option.splits if_splits)
  moreover have "represents T (snd (?call (wa_world s)))"
    by (rule daemon_quiet) (use assms(1) in \<open>simp_all add: opt_str_def\<close>)
  ultimately show ?thesis by simp
qed

lemma peer_add_end_to_end:
  assumes "peer_add env name payload t s = (Inr ks, s')" and "peer_create_ok payload"
    and "tun_ok t" and "never_fails henv" and "represents T (wa_world s)" and "valid_name name"
    and "we_send env = daemon_send henv (Some uid) uid" and "gives_keys (we_send env)"
  shows "\<exists>u h pub psk. T name = Some u \<and> allocate_peer_address t = Inr (str_addr h @ ''/32'') \<and>
    pk_address ks = str_addr h @ ''/32'' \<and> jindex (pk_keypair ks) ''public_key'' = Inr (JStr pub) \<and>
    pub \<notin> tp_key ` set (tn_peers u) \<and> pk_psk ks = opt_str psk \<and>
    represents (T(name \<mapsto> u\<lparr>tn_peers := tn_peers u @ [server_peer h pub psk (pc_keepalive payload)]\<rparr>))
      (wa_world s')"
  using assms(1)
proof (rule peer_add_steps)
  fix pubj s1 s2
  assume a: "allocate_peer_address t = Inr (pk_address ks)"
    and g: "on_world (client_genkey (we_send env)) s = (Inr (pk_keypair ks), s1)"
    and p: "if pc_preshared_key payload
      then \<exists>k. on_world (client_genkey (we_send env)) s1 = (Inr k, s2) \<and>
        jindex k ''private_key'' = Inr (pk_psk ks)
      else s2 = s1 \<and> pk_psk ks = JNull"
    and j: "jindex (pk_keypair ks) ''public_key'' = Inr pubj"
    and add: "on_world (client_add_peer (we_send env) name pubj [pk_address ks] (pk_psk ks)
      (pc_keepalive payload)) s2 = (Inr (), s')"
  from gives_keysD [OF assms(8) g] j obtain pub where pub: "pubj = JStr pub" "key_core pub" by auto
  have r1: "represents T (wa_world s1)"
    using genkey_quiet_world assms(5) g unfolding assms(7) by blast
  have "\<exists>psk. pk_psk ks = opt_str psk \<and> (\<forall>k. psk = Some k \<longrightarrow> key_core k) \<and> represents T (wa_world s2)"
  proof (cases "pc_preshared_key payload")
    case True
    then obtain kv where kv: "on_world (client_genkey (we_send env)) s1 = (Inr kv, s2)"
        "jindex kv ''private_key'' = Inr (pk_psk ks)" using p by auto
    from gives_keysD [OF assms(8) kv(1)] kv(2) obtain k where "pk_psk ks = JStr k" "key_core k" by auto
    moreover have "represents T (wa_world s2)"
      using genkey_quiet_world r1 kv(1) unfolding assms(7) by blast
    ultimately show ?thesis by (intro exI [of _ "Some k"]) (simp add: opt_str_def)
  next
    case False
    with p r1 show ?thesis by (intro exI [of _ None]) (simp add: opt_str_def)
  qed
  then obtain psk where psk: "pk_psk ks = opt_str psk" "\<forall>k. psk = Some k \<longrightarrow> key_core k"
      "represents T (wa_world s2)" by blast
  from allocate_free [OF a] obtain iface h where h: "ip_interface (tm_address t) = Some iface"
      "pk_address ks = str_addr h @ ''/32''" "h \<in> set (hosts (inet iface))" by blast
  have v4: "is_v4_iface iface" using assms(3) h(1) by (auto simp: tun_ok_def)
  note hv = hosts_v4 [OF v4 ip_interface_wf [OF h(1)] h(3)]
  have "client_add_peer (we_send env) name pubj [pk_address ks] (pk_psk ks) (pc_keepalive payload) (wa_world s2) =
      (Inr (), wa_world s')" using add by (rule on_worldE)
  then obtain v where "helper_call (daemon_send henv (Some uid) uid) ''add_peer''
      (add_params name pub (str_addr h @ ''/32'') psk (pc_keepalive payload)) (wa_world s2) = (Inr v, wa_world s')"
    by (auto simp: client_add_peer_def add_params_def assms(7) h(2) pub(1) psk(1) bindm_def ret_def
        split: prod.splits sum.splits)
  from add_call [OF this assms(6) pub(2) psk(2) _ hv(1-3) assms(4) psk(3)]
  obtain u where "T name = Some u" "pub \<notin> tp_key ` set (tn_peers u)"
      "represents (T(name \<mapsto> u\<lparr>tn_peers := tn_peers u @ [server_peer h pub psk (pc_keepalive payload)]\<rparr>)) (wa_world s')"
    using assms(2) by (auto simp: peer_create_ok_def)
  with a h(2) j pub(1) psk(1) show ?thesis
    by (intro exI [of _ u] exI [of _ h] exI [of _ pub] exI [of _ psk]) simp
qed

text \<open>C5: a new peer is the same peer on both sides: when a validated request for a peer succeeds, the
  daemon's tunnel has gained exactly one peer, whose key is new, and whose only allowed network
  is the single free address of the tunnel's subnet that the metadata and the downloaded
  configuration name; the subnets asked for go to the client's configuration only.\<close>

theorem peer_created_end_to_end:
  assumes "create_peer env name payload s = (Inr resp, s')" and "peer_create_ok payload"
    and "wa_meta s = Meta m" and "meta_ok m" and "never_fails henv" and "represents T (wa_world s)"
    and "valid_name name" and "we_send env = daemon_send henv (Some uid) uid"
    and "gives_keys (we_send env)"
  shows "\<exists>t u h pub psk k priv n. map_of m name = Some t \<and> T name = Some u \<and>
    allocate_peer_address t = Inr (str_addr h @ ''/32'') \<and> pub \<notin> tp_key ` set (tn_peers u) \<and>
    represents (T(name \<mapsto> u\<lparr>tn_peers := tn_peers u @ [server_peer h pub psk (pc_keepalive payload)]\<rparr>))
      (wa_world s') \<and>
    wa_meta s' = Meta (add_meta_peer name t
      (new_peer env n payload (str_addr h @ ''/32'') (JStr pub)) m) \<and>
    pr_content resp = client_conf payload t k (str_addr h @ ''/32'') priv (opt_str psk)"
proof -
  from assms(1) obtain x s1 where x: "peer_begin env name s = (Inr x, s1)"
      and r: "peer_rest env name payload x s1 = (Inr resp, s')"
    unfolding create_peer_split by (rule bindm_InrE)
  obtain m' t k where mtk: "x = (m', t, k)" by (cases x)
  note b = peer_begin_result [OF x [unfolded mtk]]
  have m: "m' = m" "map_of m name = Some t" using b assms(3) by (simp_all add: load_metadata_def)
  have t: "tun_ok t" using meta_ok_lookup [OF assms(4) m(2)] .
  have r1: "represents T (wa_world s1)" by (rule peer_begin_quiet_world [OF assms(6,8) x [unfolded mtk]])
  from r obtain ks s2 where a: "peer_add env name payload t s1 = (Inr ks, s2)"
      and r: "bindm (peer_store env name payload m' t ks) (\<lambda>_. peer_reply payload t k ks) s2 = (Inr resp, s')"
    unfolding peer_rest_def mtk prod.case by (rule bindm_InrE)
  from r obtain u s3 where st: "peer_store env name payload m' t ks s2 = (Inr u, s3)"
      and rp: "peer_reply payload t k ks s3 = (Inr resp, s')"
    by (rule bindm_InrE)
  from rp obtain priv where p: "s' = s3"
      "pr_content resp = client_conf payload t k (pk_address ks) priv (pk_psk ks)"
    by (auto simp: peer_reply_def liftr_bind ret_def split: sum.splits)
  have w: "wa_world s3 = wa_world s2"
    using st by (auto simp: peer_store_def liftr_bind getm_bind save_metadata_def split: sum.splits if_splits)
  from peer_add_end_to_end [OF a assms(2) t assms(5) r1 assms(7,8,9)] obtain u h pub psk where
    1: "T name = Some u" "allocate_peer_address t = Inr (str_addr h @ ''/32'')"
      "pk_address ks = str_addr h @ ''/32''" "jindex (pk_keypair ks) ''public_key'' = Inr (JStr pub)"
      "pub \<notin> tp_key ` set (tn_peers u)" "pk_psk ks = opt_str psk"
      "represents (T(name \<mapsto> u\<lparr>tn_peers := tn_peers u @ [server_peer h pub psk (pc_keepalive payload)]\<rparr>)) (wa_world s2)"
    by blast
  from peer_store_result [OF st] 1(3,4) m(1) have "wa_meta s3 = Meta (add_meta_peer name t
      (new_peer env (wa_tick s2) payload (str_addr h @ ''/32'') (JStr pub)) m)" by auto
  with 1 m p w show ?thesis
    by (intro exI [of _ t] exI [of _ u] exI [of _ h] exI [of _ pub] exI [of _ psk] exI [of _ k]
        exI [of _ priv] exI [of _ "wa_tick s2"]) simp
qed

lemma add_succeeds:
  assumes "never_fails env" and "represents T hst" and "clean_add req n p" and "T n = Some t"
    and "tp_key p \<notin> tp_key ` set (tn_peers t)" and "has_dir wg_dir hst" and "\<And>x. \<not> e_if_up env n x"
  shows "\<exists>hst'. cmd_add_peer env req hst = (Inr [], hst')"
proof -
  let ?c = "rebuild_conf (header_text t) (map peer_text (tn_peers t @ [p]))"
  obtain h' where w: "write_conf env n ?c hst = (Inr (), h')"
    using write_conf_never_fails [OF assms(1), of hst n ?c] assms(6) by blast
  have "bindm (write_conf env n ?c) (\<lambda>_. bindm (is_interface_up env n) (\<lambda>up.
      bindm (m up) (\<lambda>_. ret ([] :: jdict)))) hst = (Inr [], h')" if "m False = ret ()" for m
    unfolding bindm_Inr [where m = "write_conf env n ?c", OF w]
    using assms(7) that by (simp add: bindm_def is_interface_up_def getm_def ret_def)
  then show ?thesis unfolding add_eq [OF assms(2,3)] using assms(4,5) by simp
qed

definition wg0_tunnel :: tunnel where
  "wg0_tunnel = \<lparr>tn_key = key_b, tn_addr = \<lparr>iaddr = addr_of_int V4 167772161,
     inet = mk_net (addr_of_int V4 167772161) 30\<rparr>, tn_port = 51820, tn_peers = []\<rparr>"

definition tunnel_host :: "unit host" where
  "tunnel_host = \<lparr>h_fs = [((wg_dir, ''wg0.conf''), tunnel_file wg0_tunnel)],
     h_dirs = [(wg_dir, 448)], h_tick = 0, h_ran = [], h_ext = ()\<rparr>"

lemma wf_wg0_tunnel: "wf_tunnel wg0_tunnel"
  using key_core_ab by (simp add: wf_tunnel_def wg0_tunnel_def noscope_def addr_of_int_def)

lemma represents_tunnel_host: "represents [''wg0'' \<mapsto> wg0_tunnel] tunnel_host"
proof -
  have "n @ ''.conf'' = ''wg0.conf'' \<longleftrightarrow> n = ''wg0''" for n
    using append_same_eq [of n "''.conf''" "''wg0''"] by simp
  moreover have "n @ ''.conf.tmp'' \<noteq> ''wg0.conf''" for n
  proof
    assume "n @ ''.conf.tmp'' = ''wg0.conf''"
    then have "last (n @ ''.conf.tmp'') = last ''wg0.conf''" by simp
    then show False by simp
  qed
  ultimately show ?thesis
    using wf_wg0_tunnel by (simp add: represents_def tunnel_host_def file_at_def conf_path_def tmp_path_def)
qed

definition live_wg0 :: live_entry where
  "live_wg0 = \<lparr>le_public_key = Some key_a, le_listen_port = Some ''51820'', le_peers = []\<rparr>"

definition status_wg0 :: jdict where
  "status_wg0 = [(''tunnels'', JList [status_entry ''wg0'' False (Some live_wg0) (tunnel_info wg0_tunnel)])]"

lemma live_wg0_lines:
  "live_lines [] (py_splitlines (key_programs [''wg'', ''show'', ''all'', ''dump''])) = Inr [(''wg0'', live_wg0)]"
  by code_simp

lemma conf_stems_tunnel_host: "conf_stems (tunnel_host\<lparr>h_ran := r\<rparr>) = [''wg0'']"
  by (simp add: conf_stems_def tunnel_host_def has_dir_def stem_def suffix_def)

lemma conf_view_wg0: "conf_view ''wg0'' (tunnel_host\<lparr>h_ran := r\<rparr>) = tunnel_info wg0_tunnel"
proof -
  have "file_at (conf_path ''wg0'') (tunnel_host\<lparr>h_ran := r\<rparr>) = Some (tunnel_file wg0_tunnel)"
    by (simp add: tunnel_host_def file_at_def conf_path_def)
  then show ?thesis
    using universal_nl_id [OF render_no_cr [OF wf_wg0_tunnel]] parse_render [OF wf_wg0_tunnel]
    by (simp add: conf_view_def tunnel_file_def)
qed

lemma status_run:
  assumes "jget req ''name'' = JStr ''wg0''"
  shows "\<exists>r. cmd_tunnel_status key_env req tunnel_host = (Inr status_wg0, tunnel_host\<lparr>h_ran := r\<rparr>)"
proof -
  have run: "run_prog key_env argv inp (tunnel_host\<lparr>h_ran := r\<rparr>) =
      (Inr (0, key_programs argv, []), tunnel_host\<lparr>h_ran := r @ [(argv, inp, h_fs tunnel_host)]\<rparr>)" for argv inp r
    by (simp add: run_prog_def key_env_def quiet_env_def tunnel_host_def)
  have e: "\<exists>r'. tunnel_entries key_env [(''wg0'', live_wg0)] [''wg0''] (tunnel_host\<lparr>h_ran := r\<rparr>) =
      (Inr [status_entry ''wg0'' False (Some live_wg0) (tunnel_info wg0_tunnel)], tunnel_host\<lparr>h_ran := r'\<rparr>)" for r
  proof -
    have "key_programs [''systemctl'', ''is-active'', unit_name ''wg0''] = []" by (simp add: key_programs_def)
    moreover have "py_strip [] \<noteq> ''active''" by (simp add: py_strip_def py_lstrip_def py_rstrip_def rstrip_by_def)
    ultimately show ?thesis
      unfolding tunnel_entries.simps
      by (simp add: bindm_def [of "run_prog _ _ _"] run bindm_def [of "catchm _ _"] read_info conf_view_wg0)
        (simp add: bindm_def ret_def, rule exI, rule refl)
  qed
  have t: "tunnel_host = tunnel_host\<lparr>h_ran := []\<rparr>" by (simp add: tunnel_host_def)
  have n: "optional_name (jget req ''name'') = Inr (Some ''wg0'')"
    using assms validate_name_ok [OF valid_wg0] by (simp add: optional_name_def)
  obtain r' where "tunnel_entries key_env [(''wg0'', live_wg0)] [''wg0'']
      (tunnel_host\<lparr>h_ran := [([''wg'', ''show'', ''all'', ''dump''], None, h_fs tunnel_host)]\<rparr>) =
      (Inr [status_entry ''wg0'' False (Some live_wg0) (tunnel_info wg0_tunnel)], tunnel_host\<lparr>h_ran := r'\<rparr>)"
    using e by blast
  then have "cmd_tunnel_status key_env req (tunnel_host\<lparr>h_ran := []\<rparr>) =
      (Inr status_wg0, tunnel_host\<lparr>h_ran := r'\<rparr>)"
    unfolding cmd_tunnel_status_def n
    by (simp add: liftr_bind getm_bind bindm_def [of "run_prog _ _ _"] run live_wg0_lines
        conf_stems_tunnel_host del: tunnel_entries.simps)
      (simp add: bindm_def ret_def status_wg0_def del: tunnel_entries.simps)
  then show ?thesis using t by metis
qed

lemma call_status:
  "\<exists>r. client_tunnel_status (daemon_send key_env (Some 996) 996) (Some ''wg0'') tunnel_host =
    (Inr (JObj status_wg0), tunnel_host\<lparr>h_ran := r\<rparr>)"
proof -
  let ?ps = "[(''name'', JStr ''wg0'')]"
  have p: "plain_json (JObj ((''cmd'', JStr ''tunnel_status'') # ?ps))" by simp
  have l: "length (dumps (JObj ((''cmd'', JStr ''tunnel_status'') # ?ps))) \<le> stream_limit"
    by (simp add: stream_limit_def dump_str_def esc_char_def code_def)
  have d: "helper_dispatch ''tunnel_status'' = Some (cmd_tunnel_status :: unit env \<Rightarrow> jdict \<Rightarrow> (unit, jdict) hop)"
    by (simp add: helper_dispatch_def)
  have "jget ((''cmd'', JStr ''tunnel_status'') # ?ps) ''name'' = JStr ''wg0''" by (simp add: jget_def)
  from status_run [OF this] obtain r where
    r: "cmd_tunnel_status key_env ((''cmd'', JStr ''tunnel_status'') # ?ps) tunnel_host =
      (Inr status_wg0, tunnel_host\<lparr>h_ran := r\<rparr>)" by blast
  have plain: "plain_json (JObj status_wg0)"
    by (simp add: status_wg0_def status_entry_def live_wg0_def tunnel_info_def wg0_tunnel_def opt_str_def)
  have a: "str_iface (tn_addr wg0_tunnel) = ''10.0.0.1/30''" by code_simp
  have b: "length (dump_str (str_iface (tn_addr wg0_tunnel))) \<le> 300"
    unfolding a using dump_str_length [of "''10.0.0.1/30''"] by simp
  have "length (dump_str key_a) \<le> 300" using dump_str_length [of key_a] by (simp add: key_a_def)
  with b have "length (ok_reply status_wg0) \<le> Suc stream_limit"
    by (simp add: ok_reply_def status_wg0_def status_entry_def live_wg0_def tunnel_info_def opt_str_def
        stream_limit_def wg0_tunnel_def dump_str_def [of "_ # _"] esc_char_def code_def del: dump_str_def)
  then show ?thesis
    unfolding client_tunnel_status_def helper_call_def daemon_send_def opt_str_def option.case
      handle_client_call [OF p l d] run_command_def r
    by (intro exI [of _ r]) (simp add: read_ok_reply [OF plain])
qed

definition peer_start :: "unit host wgapp" where
  "peer_start = \<lparr>wa_meta = Meta [(''wg0'', tun_meta_a)], wa_tick = 0, wa_world = tunnel_host\<rparr>"

lemma begin_a:
  "\<exists>r. peer_begin web_env ''wg0'' peer_start = (Inr ([(''wg0'', tun_meta_a)], tun_meta_a, JStr key_a),
     peer_start\<lparr>wa_world := tunnel_host\<lparr>h_ran := r\<rparr>\<rparr>)"
proof -
  obtain r where "client_tunnel_status (daemon_send key_env (Some 996) 996) (Some ''wg0'') tunnel_host =
      (Inr (JObj status_wg0), tunnel_host\<lparr>h_ran := r\<rparr>)" using call_status by blast
  moreover have "key_a \<noteq> []" by (simp add: key_a_def)
  ultimately show ?thesis
    by (simp add: peer_begin_def bindm_def load_metadata_def peer_start_def liftr_def on_world_def web_env_def
        status_wg0_def status_entry_def status_tunnels_def as_obj_def jget_or_def server_key_of_def
        first_of_def jget_def assertm_def ret_def live_wg0_def opt_str_def) blast
qed

lemma add_call_succeeds:
  assumes "represents T hst" and "has_dir wg_dir hst" and "T ''wg0'' = Some wg0_tunnel"
  shows "\<exists>hst'. helper_call (daemon_send key_env (Some 996) 996) ''add_peer''
      (add_params ''wg0'' key_b ''10.0.0.2/32'' None (Some 25)) hst = (Inr (JObj []), hst')"
proof -
  let ?h = "addr_of_int V4 167772162"
  have h: "str_addr ?h @ ''/32'' = ''10.0.0.2/32''" by code_simp
  have v: "aver ?h = V4" "ascope ?h = None" "wf_addr ?h"
    by (simp_all add: addr_of_int_def wf_addr_def all_ones_def)
  have k: "\<forall>k. None = Some k \<longrightarrow> key_core k" "\<forall>k. Some 25 = Some k \<longrightarrow> 0 \<le> k \<and> (k :: int) \<le> 3600" by simp_all
  let ?ps = "add_params ''wg0'' key_b ''10.0.0.2/32'' None (Some 25)"
  note clean = add_call_clean [OF valid_wg0 key_core_ab(2) k v, unfolded h]
  note fits = add_call_fits [OF valid_wg0 key_core_ab(2) k v(1,2), unfolded h]
  have plain: "plain_json (JObj ((''cmd'', JStr ''add_peer'') # ?ps))"
    by (simp add: add_params_def opt_str_def opt_int_def)
  have d: "helper_dispatch ''add_peer'' = Some (cmd_add_peer :: unit env \<Rightarrow> jdict \<Rightarrow> (unit, jdict) hop)"
    by (simp add: helper_dispatch_def)
  have up: "\<not> e_if_up key_env n x" for n x by (simp add: key_env_def)
  obtain hst' where "cmd_add_peer key_env ((''cmd'', JStr ''add_peer'') # ?ps) hst = (Inr [], hst')"
    using add_succeeds [OF key_never_fails assms(1) clean assms(3) _ assms(2)] up
    by (auto simp: wg0_tunnel_def)
  moreover have "length (ok_reply []) \<le> Suc stream_limit"
    by (simp add: ok_reply_def stream_limit_def dump_str_def esc_char_def code_def)
  ultimately show ?thesis
    unfolding helper_call_def daemon_send_def handle_client_call [OF plain fits d] run_command_def
    by (simp add: read_ok_reply [of "[]"])
qed

lemma create_peer_web: "\<exists>resp s'. create_peer web_env ''wg0'' peer_payload_a peer_start = (Inr resp, s')"
proof -
  obtain r where b: "peer_begin web_env ''wg0'' peer_start = (Inr ([(''wg0'', tun_meta_a)], tun_meta_a, JStr key_a),
      peer_start\<lparr>wa_world := tunnel_host\<lparr>h_ran := r\<rparr>\<rparr>)" using begin_a by blast
  let ?hst = "keys_host (tunnel_host\<lparr>h_ran := r\<rparr>)"
  have "represents [''wg0'' \<mapsto> wg0_tunnel] ?hst"
    by (rule represents_cong [OF represents_tunnel_host]) (simp_all add: keys_host_def file_at_def)
  moreover have "has_dir wg_dir ?hst" by (simp add: keys_host_def has_dir_def tunnel_host_def)
  ultimately obtain hst' where c: "helper_call (daemon_send key_env (Some 996) 996) ''add_peer''
      (add_params ''wg0'' key_b ''10.0.0.2/32'' None (Some 25)) ?hst = (Inr (JObj []), hst')"
    using add_call_succeeds by fastforce
  have "client_add_peer (we_send web_env) ''wg0'' (JStr key_b) [''10.0.0.2/32''] JNull (Some 25) ?hst = (Inr (), hst')"
    using c by (simp add: client_add_peer_def web_env_def add_params_def bindm_def ret_def opt_str_def)
  moreover have "client_genkey (we_send web_env) (tunnel_host\<lparr>h_ran := r\<rparr>) = (Inr (JObj keys_ab), ?hst)"
    by (simp add: web_env_def call_genkey_keys)
  ultimately have "peer_rest web_env ''wg0'' peer_payload_a ([(''wg0'', tun_meta_a)], tun_meta_a, JStr key_a)
      (peer_start\<lparr>wa_world := tunnel_host\<lparr>h_ran := r\<rparr>\<rparr>) =
    (Inr \<lparr>pr_content = client_conf peer_payload_a tun_meta_a (JStr key_a) ''10.0.0.2/32'' (JStr key_a) JNull,
          pr_disposition = ''attachment; filename='' @ [CHR 0x22] @ safe_filename ''phone'' @ ''.conf'' @ [CHR 0x22]\<rparr>,
     peer_start\<lparr>wa_world := hst', wa_tick := 1,
       wa_meta := Meta (add_meta_peer ''wg0'' tun_meta_a (new_peer web_env 0 peer_payload_a ''10.0.0.2/32'' (JStr key_b))
         [(''wg0'', tun_meta_a)])\<rparr>)"
    by (simp add: peer_rest_def peer_add_def peer_store_def peer_reply_def bindm_def liftr_def on_world_def
        allocate_a keys_ab_def ret_def peer_payload_a_def jindex_def getm_def save_metadata_def new_peer_def
        peer_start_def)
      (simp add: web_env_def)
  then show ?thesis unfolding create_peer_split bindm_Inr [where m = "peer_begin web_env ''wg0''", OF b] by blast
qed

lemma gives_keys_web: "gives_keys (we_send web_env)"
  using key_core_ab by (auto simp: gives_keys_def web_env_def call_genkey_keys keys_ab_def)

lemma meta_ok_a: "meta_ok [(''wg0'', tun_meta_a)]"
proof -
  have "map_option is_v4_iface (ip_interface ''10.0.0.1/30'') = Some True" by code_simp
  then show ?thesis by (auto simp: meta_ok_def tun_ok_def tun_meta_a_def)
qed

lemma peer_payload_a_ok: "peer_create_ok peer_payload_a"
  using wf_lan_net
  by (simp add: peer_create_ok_def peer_payload_a_def v4_net_ok_def peer_description_pattern_def
      is_ascii_alnum_def is_ascii_digit_def is_lower_az_def is_upper_az_def code_def)
    (simp add: lan_net_def mk_net_def addr_of_int_def Let_def)

theorem peer_created_end_to_end_witness:
  "\<exists>s' h pub psk. s' = snd (create_peer web_env ''wg0'' peer_payload_a peer_start) \<and>
    represents [''wg0'' \<mapsto> wg0_tunnel\<lparr>tn_peers := [server_peer h pub psk (Some 25)]\<rparr>] (wa_world s')"
proof -
  obtain resp s' where c: "create_peer web_env ''wg0'' peer_payload_a peer_start = (Inr resp, s')"
    using create_peer_web by blast
  have 1: "wa_meta peer_start = Meta [(''wg0'', tun_meta_a)]"
      "represents [''wg0'' \<mapsto> wg0_tunnel] (wa_world peer_start)"
      "we_send web_env = daemon_send key_env (Some 996) 996"
    by (simp_all add: peer_start_def represents_tunnel_host web_env_def)
  from peer_created_end_to_end [OF c peer_payload_a_ok 1(1) meta_ok_a key_never_fails 1(2) valid_wg0 1(3) gives_keys_web]
  show ?thesis unfolding c by (auto simp: wg0_tunnel_def peer_payload_a_def)
qed

end
