(* ===== verification/StatusTypes.thy ===== *)
theory StatusTypes
  imports WgAppProps
begin

text \<open>
  The type of the daemon's status, which the application's handlers index without checking: what
  \<open>cmd_tunnel_status\<close> returns, for every output of the programs, has this type, survives the
  socket, and is all that listing tunnels and peers needs in order not to raise.
\<close>

section \<open>The type\<close>

definition is_str :: "json \<Rightarrow> bool" where
  "is_str v = (case v of JStr _ \<Rightarrow> True | _ \<Rightarrow> False)"

definition is_int :: "json \<Rightarrow> bool" where
  "is_int v = (case v of JInt _ \<Rightarrow> True | _ \<Rightarrow> False)"

definition is_bool :: "json \<Rightarrow> bool" where
  "is_bool v = (case v of JBool _ \<Rightarrow> True | _ \<Rightarrow> False)"

definition is_obj :: "json \<Rightarrow> bool" where
  "is_obj v = (case v of JObj _ \<Rightarrow> True | _ \<Rightarrow> False)"

definition str_or_null :: "json \<Rightarrow> bool" where
  "str_or_null v \<longleftrightarrow> v = JNull \<or> is_str v"

definition list_of :: "(json \<Rightarrow> bool) \<Rightarrow> json \<Rightarrow> bool" where
  "list_of p v = (case v of JList vs \<Rightarrow> list_all p vs | _ \<Rightarrow> False)"

definition fields_ok :: "(string \<times> (json \<Rightarrow> bool)) list \<Rightarrow> json \<Rightarrow> bool" where
  "fields_ok ty v = (case v of JObj d \<Rightarrow> map fst d = map fst ty \<and> list_all (\<lambda>(k, p). p (jget d k)) ty | _ \<Rightarrow> False)"

definition peer_type :: "(string \<times> (json \<Rightarrow> bool)) list" where
  "peer_type = [(''public_key'', is_str), (''endpoint'', str_or_null), (''allowed_ips'', is_str),
     (''latest_handshake'', is_int), (''rx_bytes'', is_int), (''tx_bytes'', is_int)]"

definition tunnel_type :: "(string \<times> (json \<Rightarrow> bool)) list" where
  "tunnel_type = [(''name'', is_str), (''active'', is_bool), (''listen_port'', str_or_null),
     (''public_key'', str_or_null), (''peers'', list_of (fields_ok peer_type)),
     (''mode'', \<lambda>v. v \<in> {JStr ''server'', JStr ''client''}), (''configured_address'', str_or_null),
     (''configured_endpoint'', str_or_null), (''configured_allowed_ips'', list_of is_str)]"

definition status_type :: "(string \<times> (json \<Rightarrow> bool)) list" where
  "status_type = [(''tunnels'', list_of (fields_ok tunnel_type))]"

lemmas type_simps = is_str_def is_int_def is_bool_def str_or_null_def list_of_def

lemma str_or_null_opt [simp]: "str_or_null (opt_str x)"
  by (simp add: str_or_null_def opt_str_def is_str_def split: option.splits)

section \<open>The daemon's status has it\<close>

lemma peer_entry_typed: "peer_entry cols = Inr v \<Longrightarrow> fields_ok peer_type v \<and> plain_json v"
  by (auto simp: peer_entry_def fields_ok_def peer_type_def type_simps jget_def split: sum.splits)

definition live_typed :: "(string \<times> live_entry) list \<Rightarrow> bool" where
  "live_typed live \<longleftrightarrow> (\<forall>n e. map_of live n = Some e \<longrightarrow>
     list_all (\<lambda>v. fields_ok peer_type v \<and> plain_json v) (le_peers e))"

lemma live_line_typed: "live_typed live \<Longrightarrow> live_line live line = Inr live' \<Longrightarrow> live_typed live'"
  by (auto simp: live_line_def Let_def live_typed_def empty_entry_def
      dest!: peer_entry_typed split: if_splits option.splits sum.splits)

lemma live_lines_typed: "live_typed live \<Longrightarrow> live_lines live ls = Inr live' \<Longrightarrow> live_typed live'"
  by (induction ls arbitrary: live) (auto dest: live_line_typed split: sum.splits)

lemma conf_mode: "ci_mode (parse_conf_info c) \<in> {''server'', ''client''}" "ci_mode no_conf_info = ''server''"
  by (auto simp: parse_conf_info_def no_conf_info_def Let_def split: prod.splits option.splits if_splits)

lemma status_entry_typed:
  assumes "live_typed live" and "ci_mode ci \<in> {''server'', ''client''}"
  shows "fields_ok tunnel_type (status_entry n a (map_of live n) ci) \<and>
    plain_json (status_entry n a (map_of live n) ci)"
  using assms
  by (cases "map_of live n")
    (auto simp: status_entry_def fields_ok_def tunnel_type_def jget_def type_simps live_typed_def list_all_iff opt_str_def
      split: option.splits)

lemma read_info_mode:
  assumes "catchm (bindm (read_conf n) (\<lambda>c. ret (parse_conf_info c)))
      (\<lambda>e. case e of HelperError _ \<Rightarrow> ret no_conf_info | PyError _ \<Rightarrow> raise e) h = (Inr ci, h')"
  shows "ci_mode ci \<in> {''server'', ''client''}"
  using assms conf_mode
  by (auto simp: catchm_def bindm_def ret_def raise_def split: prod.splits sum.splits exn.splits)

lemma tunnel_entries_typed:
  "live_typed live \<Longrightarrow> tunnel_entries env live ns h = (Inr ts, h') \<Longrightarrow>
   list_all (\<lambda>v. fields_ok tunnel_type v \<and> plain_json v) ts"
proof (induction ns arbitrary: h ts h')
  case Nil
  then show ?case by (simp add: ret_def)
next
  case (Cons n ns)
  from Cons.prems(2) obtain rc out err h1 ci h2 rest h3 where
    ci: "catchm (bindm (read_conf n) (\<lambda>c. ret (parse_conf_info c)))
      (\<lambda>e. case e of HelperError _ \<Rightarrow> ret no_conf_info | PyError _ \<Rightarrow> raise e) h1 = (Inr ci, h2)"
    and rest: "tunnel_entries env live ns h2 = (Inr rest, h3)"
    and ts: "ts = status_entry n (py_strip out = ''active'') (map_of live n) ci # rest"
    by (auto elim!: bindm_InrE simp: ret_def)
  from Cons.IH [OF Cons.prems(1) rest] status_entry_typed [OF Cons.prems(1) read_info_mode [OF ci]] ts
  show ?case by simp
qed

lemma status_typed:
  assumes "cmd_tunnel_status env req h = (Inr d, h')"
  shows "fields_ok status_type (JObj d) \<and> plain_json (JObj d)"
proof -
  have e: "live_typed []" by (simp add: live_typed_def)
  from assms obtain live ns h1 ts where l: "live_typed live"
    and ts: "tunnel_entries env live ns h1 = (Inr ts, h')" and d: "d = [(''tunnels'', JList ts)]"
    unfolding cmd_tunnel_status_def
    by (auto elim!: bindm_InrE simp: ret_def liftr_def getm_def split: if_splits)
      (blast intro: e dest: live_lines_typed [OF e])+
  from tunnel_entries_typed [OF l ts] d show ?thesis
    by (auto simp: fields_ok_def status_type_def jget_def list_of_def list_all_iff)
qed

section \<open>What the application makes of it\<close>

lemma type_lookup:
  assumes "fields_ok ty (JObj d)" and "(k, p) \<in> set ty"
  shows "\<exists>v. map_of d k = Some v \<and> p v \<and> jget d k = v"
proof -
  from assms have f: "map fst d = map fst ty" by (simp add: fields_ok_def)
  from assms(2) have "k \<in> set (map fst ty)" by force
  then have "k \<in> fst ` set d" unfolding f [symmetric] by simp
  then have "map_of d k \<noteq> None" by (simp add: map_of_eq_None_iff)
  then obtain v where "map_of d k = Some v" by blast
  moreover from assms have "p (jget d k)" by (auto simp: fields_ok_def list_all_iff)
  ultimately show ?thesis by (simp add: jget_def)
qed

lemma tunnel_fields:
  assumes "fields_ok tunnel_type tv"
  obtains d n a ps where "tv = JObj d" "map_of d ''name'' = Some (JStr n)" "map_of d ''active'' = Some a"
    "map_of d ''peers'' = Some (JList ps)" "list_all (fields_ok peer_type) ps"
proof -
  obtain d where d: "tv = JObj d" using assms by (auto simp: fields_ok_def split: json.splits)
  note l = type_lookup [OF assms [unfolded d]]
  from l [of "''name''" is_str] obtain n where "map_of d ''name'' = Some (JStr n)"
    by (auto simp: tunnel_type_def is_str_def split: json.splits)
  moreover from l [of "''active''" is_bool] obtain a where "map_of d ''active'' = Some a"
    by (auto simp: tunnel_type_def)
  moreover from l [of "''peers''" "list_of (fields_ok peer_type)"] obtain ps where
    "map_of d ''peers'' = Some (JList ps)" "list_all (fields_ok peer_type) ps"
    by (auto simp: tunnel_type_def list_of_def split: json.splits)
  ultimately show ?thesis using d that by blast
qed

lemma list_entry_total:
  assumes "fields_ok tunnel_type tv"
  shows "\<exists>v. list_entry m tv = Inr v \<and> is_obj v"
proof -
  obtain d n a ps where d: "tv = JObj d" "map_of d ''name'' = Some (JStr n)" "map_of d ''active'' = Some a"
      "map_of d ''peers'' = Some (JList ps)" and ps: "list_all (fields_ok peer_type) ps"
    by (rule tunnel_fields [OF assms])
  from ps have "ps = [] \<or> (\<exists>pd ps'. ps = JObj pd # ps')"
    by (cases ps) (auto simp: fields_ok_def split: json.splits)
  with d show ?thesis
    by (auto simp: list_entry_def as_obj_def jindex_def jget_def first_of_def is_obj_def Let_def split: option.splits)
qed

lemma live_keys_total:
  assumes "fields_ok tunnel_type tv"
  shows "\<exists>ks. live_keys tv = Inr ks \<and> list_all (\<lambda>(k, p). fields_ok peer_type p) ks"
proof -
  obtain d n a ps where d: "tv = JObj d" "map_of d ''peers'' = Some (JList ps)"
    and ps: "list_all (fields_ok peer_type) ps"
    by (rule tunnel_fields [OF assms])
  have "\<exists>ks. map_sum live_key ps = Inr ks \<and> list_all (\<lambda>(k, p). fields_ok peer_type p) ks"
    using ps
  proof (induction ps)
    case (Cons p ps)
    then obtain pd where pd: "p = JObj pd" by (auto simp: fields_ok_def split: json.splits)
    with Cons type_lookup [of peer_type pd "''public_key''" is_str] obtain k where
      "map_of pd ''public_key'' = Some (JStr k)"
      by (auto simp: peer_type_def is_str_def split: json.splits)
    then have "live_key p = Inr (JStr k, p)" by (simp add: live_key_def jindex_def pd)
    with Cons show ?case by auto
  qed simp
  with d show ?thesis by (simp add: live_keys_def as_obj_def as_iter_def jget_or_def)
qed

lemma map_sum_total: "list_all (\<lambda>x. \<exists>y. f x = Inr y \<and> P y) xs \<Longrightarrow> \<exists>ys. map_sum f xs = Inr ys \<and> list_all P ys"
  by (induction xs) auto

definition status_request :: "string option \<Rightarrow> jdict" where
  "status_request name = [(''cmd'', JStr ''tunnel_status''), (''name'', opt_str name)]"

definition reply_too_long :: "'x env \<Rightarrow> string option \<Rightarrow> 'x host \<Rightarrow> bool" where
  \<comment> \<open>the daemon's answer does not fit into a line of the application's reader\<close>
  "reply_too_long henv name h \<longleftrightarrow> (case fst (cmd_tunnel_status henv (status_request name) h) of
     Inr d \<Rightarrow> Suc stream_limit < length (ok_reply d)
   | Inl (HelperError m) \<Rightarrow> Suc stream_limit < length (error_reply m)
   | Inl (PyError _) \<Rightarrow> False)"

lemma overlong_request:
  assumes "stream_limit < length (dumps (JObj (status_request name)))"
  shows "client_tunnel_status (daemon_send henv (Some uid) uid) name h = (Inl op_failed, h)"
proof -
  let ?v = "JObj (status_request name)"
  have "plain_json ?v" by (simp add: status_request_def opt_str_def split: option.splits)
  from json_line.line_length [OF this, of "[]"] assms show ?thesis
    unfolding client_tunnel_status_def helper_call_def daemon_send_def handle_client_def
    by (simp add: status_request_def read_response_def del: dumps.simps)
qed

lemma status_call:
  obtains h' where "client_tunnel_status (daemon_send henv (Some uid) uid) name h = (Inl op_failed, h')"
  | h' where "client_tunnel_status (daemon_send henv (Some uid) uid) name h = (Inl (AppExc ''ValueError''), h')"
    "reply_too_long henv name h"
  | h' ts where "client_tunnel_status (daemon_send henv (Some uid) uid) name h = (Inr (JObj [(''tunnels'', JList ts)]), h')"
    "list_all (fields_ok tunnel_type) ts"
proof (cases "length (dumps (JObj (status_request name))) \<le> stream_limit")
  case False
  then show ?thesis using overlong_request [of name henv uid h] that(1) by simp
next
  case len: True
  have "plain_json (JObj (status_request name))"
    by (simp add: status_request_def opt_str_def split: option.splits)
  note call = helper_call_daemon [OF this [unfolded status_request_def] len [unfolded status_request_def],
      of cmd_tunnel_status henv uid h]
  obtain q h' where q: "cmd_tunnel_status henv (status_request name) h = (q, h')" by fastforce
  have int: "length (error_reply ''internal error'') \<le> Suc stream_limit"
    by (simp add: stream_limit_def error_reply_def dump_str_def esc_char_def code_def)
  note run = client_tunnel_status_def helper_dispatch_def run_command_def status_request_def
  show ?thesis
  proof (cases q)
    case (Inl e)
    show ?thesis
    proof (cases "reply_too_long henv name h")
      case True
      then obtain m where "e = HelperError m" "Suc stream_limit < length (error_reply m)"
        using q Inl by (auto simp: reply_too_long_def split: exn.splits)
      with call q Inl have "client_tunnel_status (daemon_send henv (Some uid) uid) name h = (Inl (AppExc ''ValueError''), h')"
        by (simp add: run)
      with True show ?thesis by (rule that(2) [rotated])
    next
      case False
      with call q Inl int have "client_tunnel_status (daemon_send henv (Some uid) uid) name h = (Inl op_failed, h')"
        by (cases e) (simp_all add: run read_error_reply reply_too_long_def)
      then show ?thesis by (rule that(1))
    qed
  next
    case (Inr d)
    from status_typed [of henv "status_request name" h d h'] q Inr
    have d: "fields_ok status_type (JObj d)" "plain_json (JObj d)" by simp_all
    then obtain ts where ts: "d = [(''tunnels'', JList ts)]" "list_all (fields_ok tunnel_type) ts"
      by (auto simp: fields_ok_def status_type_def jget_def list_of_def split: json.splits)
    show ?thesis
    proof (cases "reply_too_long henv name h")
      case True
      with call q Inr have "client_tunnel_status (daemon_send henv (Some uid) uid) name h = (Inl (AppExc ''ValueError''), h')"
        by (simp add: run reply_too_long_def)
      with True show ?thesis by (rule that(2) [rotated])
    next
      case False
      with call q Inr read_ok_reply [OF d(2)]
      have "client_tunnel_status (daemon_send henv (Some uid) uid) name h = (Inr (JObj d), h')"
        by (simp add: run reply_too_long_def)
      with ts show ?thesis by (intro that(3)) simp_all
    qed
  qed
qed

lemma peer_row_total:
  assumes "list_all (\<lambda>(k, p). fields_ok peer_type p) ks" and "is_str (pm_public_key p)"
  shows "\<exists>r. peer_row ks p = Inr r \<and> is_obj r"
proof -
  from assms(2) obtain k where k: "pm_public_key p = JStr k" by (auto simp: is_str_def split: json.splits)
  have "\<exists>l. as_obj (case map_of ks (JStr k) of None \<Rightarrow> JObj [] | Some p \<Rightarrow> p) = Inr l"
  proof (cases "map_of ks (JStr k)")
    case (Some v)
    with assms(1) have "fields_ok peer_type v" by (auto simp: list_all_iff dest: map_of_SomeD)
    with Some show ?thesis by (auto simp: fields_ok_def as_obj_def split: json.splits)
  qed (simp add: as_obj_def)
  then show ?thesis by (auto simp: peer_row_def k is_obj_def)
qed

definition string_keys :: "'w wgapp \<Rightarrow> bool" where
  "string_keys s \<longleftrightarrow> (case wa_meta s of
     Meta m \<Rightarrow> list_all (\<lambda>(n, t). list_all (\<lambda>p. is_str (pm_public_key p)) (tm_peers t)) m | _ \<Rightarrow> True)"

lemma load_after_call:
  "load_metadata s = (r, s) \<Longrightarrow> load_metadata (s\<lparr>wa_world := w\<rparr>) = (r, s\<lparr>wa_world := w\<rparr>)"
  by (simp add: load_metadata_def)

lemma list_tunnels_outcome:
  assumes "we_send env = daemon_send henv (Some uid) uid"
  shows "case fst (list_tunnels env s) of
      Inr v \<Rightarrow> list_of is_obj v
    | Inl e \<Rightarrow> e = op_failed \<or> e = AppExc ''ValueError'' \<and> reply_too_long henv None (wa_world s) \<or>
        fst (load_metadata s) = Inl e"
proof (rule status_call [of henv uid None "wa_world s"])
  fix h' assume "client_tunnel_status (daemon_send henv (Some uid) uid) None (wa_world s) = (Inl op_failed, h')"
  then show ?thesis by (simp add: list_tunnels_def on_world_def assms bindm_def)
next
  fix h'
  assume "client_tunnel_status (daemon_send henv (Some uid) uid) None (wa_world s) = (Inl (AppExc ''ValueError''), h')"
    and "reply_too_long henv None (wa_world s)"
  then show ?thesis by (simp add: list_tunnels_def on_world_def assms bindm_def)
next
  fix h' ts
  assume c: "client_tunnel_status (daemon_send henv (Some uid) uid) None (wa_world s) =
      (Inr (JObj [(''tunnels'', JList ts)]), h')" and ts: "list_all (fields_ok tunnel_type) ts"
  show ?thesis
  proof (cases rule: load_cases [of s])
    case (1 e)
    with c load_after_call [OF 1(1), of h'] show ?thesis
      by (simp add: list_tunnels_def on_world_def assms bindm_def)
  next
    case (2 m)
    from ts list_entry_total have "list_all (\<lambda>t. \<exists>v. list_entry m t = Inr v \<and> is_obj v) ts"
      by (auto simp: list_all_iff)
    from map_sum_total [OF this] obtain es where "map_sum (list_entry m) ts = Inr es" "list_all is_obj es" by blast
    with c load_after_call [OF 2(1), of h'] show ?thesis
      by (simp add: list_tunnels_def on_world_def assms op_defs status_tunnels_def as_obj_def jget_or_def
          as_iter_def list_of_def)
  qed
qed

lemma list_peers_outcome:
  assumes "we_send env = daemon_send henv (Some uid) uid" and "string_keys s"
  shows "case fst (list_peers env name s) of
      Inr v \<Rightarrow> list_of is_obj v
    | Inl e \<Rightarrow> e \<in> {op_failed, unknown_tunnel} \<or>
        e = AppExc ''ValueError'' \<and> reply_too_long henv (Some name) (wa_world s) \<or> fst (load_metadata s) = Inl e"
proof (cases rule: load_cases [of s])
  case (1 e)
  then show ?thesis by (simp add: list_peers_def op_defs)
next
  case (2 m)
  note load = 2(1)
  show ?thesis
  proof (cases "map_of m name")
    case None
    then show ?thesis by (simp add: list_peers_def op_defs load)
  next
    case (Some t)
    then have "wa_meta s = Meta m" using 2(2) by auto
    with Some assms(2) have keys: "list_all (\<lambda>p. is_str (pm_public_key p)) (tm_peers t)"
      by (auto simp: string_keys_def list_all_iff dest!: map_of_SomeD)
    show ?thesis
    proof (rule status_call [of henv uid "Some name" "wa_world s"])
      fix h' assume "client_tunnel_status (daemon_send henv (Some uid) uid) (Some name) (wa_world s) = (Inl op_failed, h')"
      with Some show ?thesis by (simp add: list_peers_def on_world_def assms(1) load op_defs)
    next
      fix h'
      assume "client_tunnel_status (daemon_send henv (Some uid) uid) (Some name) (wa_world s) =
          (Inl (AppExc ''ValueError''), h')" and "reply_too_long henv (Some name) (wa_world s)"
      with Some show ?thesis by (simp add: list_peers_def on_world_def assms(1) load op_defs)
    next
      fix h' ts
      assume c: "client_tunnel_status (daemon_send henv (Some uid) uid) (Some name) (wa_world s) =
          (Inr (JObj [(''tunnels'', JList ts)]), h')" and ts: "list_all (fields_ok tunnel_type) ts"
      from ts live_keys_total have "list_all (\<lambda>t. \<exists>ks. live_keys t = Inr ks \<and> list_all (\<lambda>(k, p). fields_ok peer_type p) ks) ts"
        by (auto simp: list_all_iff)
      from map_sum_total [OF this] obtain live where live: "map_sum live_keys ts = Inr live"
        and l: "list_all (list_all (\<lambda>(k, p). fields_ok peer_type p)) live" by blast
      from l have "list_all (\<lambda>(k, p). fields_ok peer_type p) (rev (concat live))"
        by (auto simp: list_all_iff)
      then have "list_all (\<lambda>p. \<exists>r. peer_row (rev (concat live)) p = Inr r \<and> is_obj r) (tm_peers t)"
        using keys peer_row_total by (fastforce simp: list_all_iff)
      from map_sum_total [OF this] obtain rows where "map_sum (peer_row (rev (concat live))) (tm_peers t) = Inr rows"
        "list_all is_obj rows" by blast
      with c live Some show ?thesis
        by (simp add: list_peers_def on_world_def assms(1) load op_defs status_tunnels_def as_obj_def jget_or_def
            as_iter_def list_of_def)
    qed
  qed
qed

text \<open>C14: the two sides of the socket agree on the type of the status: whatever wg and systemctl
  print, whatever the configurations hold, and whatever fails, a status the daemon returns has the
  type that the application indexes.  So listing tunnels or peers gives a list of objects, or the
  announced errors 502 and (for peers of an unknown tunnel) 404; an unexpected exception has one of
  two causes: an answer of the daemon that is longer than the 64 KiB line of the reader
  (\<open>ValueError\<close>), or a metadata file that is no UTF-8 text (\<open>UnicodeDecodeError\<close>) or holds JSON
  that is no object (\<open>AttributeError\<close>).  The metadata is otherwise missing, unreadable, no JSON, or in the
  structure the module writes, with keys that are strings.\<close>

theorem listing_outcomes:
  assumes "we_send env = daemon_send henv (Some uid) uid" and "string_keys s"
  shows "(case fst (list_tunnels env s) of
      Inr v \<Rightarrow> list_of is_obj v
    | Inl e \<Rightarrow> e = HTTPExc 502 ''WireGuard operation failed'' \<or>
        e = AppExc ''ValueError'' \<and> reply_too_long henv None (wa_world s) \<or>
        e = AppExc ''UnicodeDecodeError'' \<and> wa_meta s = NotText \<or>
        e = AppExc ''AttributeError'' \<and> wa_meta s = NotObject) \<and>
    (case fst (list_peers env name s) of
      Inr v \<Rightarrow> list_of is_obj v
    | Inl e \<Rightarrow> e \<in> {HTTPExc 502 ''WireGuard operation failed'', HTTPExc 404 ''Unknown tunnel''} \<or>
        e = AppExc ''ValueError'' \<and> reply_too_long henv (Some name) (wa_world s) \<or>
        e = AppExc ''UnicodeDecodeError'' \<and> wa_meta s = NotText \<or>
        e = AppExc ''AttributeError'' \<and> wa_meta s = NotObject)"
proof -
  have "fst (load_metadata s) = Inl e \<longleftrightarrow> e = AppExc ''UnicodeDecodeError'' \<and> wa_meta s = NotText \<or>
      e = AppExc ''AttributeError'' \<and> wa_meta s = NotObject" for e
    by (auto simp: load_metadata_def split: meta_file.splits)
  with list_tunnels_outcome [OF assms(1), of s] list_peers_outcome [OF assms, of name] show ?thesis
    by (cases "fst (list_tunnels env s)"; cases "fst (list_peers env name s)")
      (auto simp: op_failed_def unknown_tunnel_def)
qed

definition quiet_app :: "unit host wgenv" where
  "quiet_app = \<lparr>we_send = daemon_send quiet_env (Some 996) 996, we_ifaces = [], we_save_fails = (\<lambda>_. False),
     we_uuid = (\<lambda>_. ''id''), we_sub = JStr ''u1''\<rparr>"

definition one_peer :: metadata where
  "one_peer = [(''wg0'', \<lparr>tm_address = ''10.0.0.1/24'', tm_endpoint = None, tm_listen_port = 51820,
     tm_peers = [\<lparr>pm_id = ''id'', pm_description = ''phone'', pm_tunnel_address = ''10.0.0.2/32'', pm_allowed_ips = [],
       pm_public_key = JStr ''key'', pm_created_by = JNull\<rparr>]\<rparr>)]"

theorem listing_outcomes_witness:
  "case fst (list_peers quiet_app ''wg0'' \<lparr>wa_meta = Meta one_peer, wa_tick = 0, wa_world = empty_host\<rparr>) of
      Inr v \<Rightarrow> list_of is_obj v
    | Inl e \<Rightarrow> e \<in> {HTTPExc 502 ''WireGuard operation failed'', HTTPExc 404 ''Unknown tunnel''} \<or>
        e = AppExc ''ValueError'' \<and> reply_too_long quiet_env (Some ''wg0'') empty_host"
proof -
  let ?s = "\<lparr>wa_meta = Meta one_peer, wa_tick = 0, wa_world = empty_host\<rparr>"
  have "we_send quiet_app = daemon_send quiet_env (Some 996) 996" by (simp add: quiet_app_def)
  moreover have "string_keys ?s" by (simp add: string_keys_def one_peer_def is_str_def)
  ultimately show ?thesis using listing_outcomes [of quiet_app quiet_env 996 ?s "''wg0''"]
    by (cases "fst (list_peers quiet_app ''wg0'' ?s)") auto
qed

end
