(* ===== verification/Commands.thy ===== *)
theory Commands
  imports Models
begin

text \<open>
  How the application starts programs: \<open>_run_nmcli\<close> of src/app/network.py, \<open>_run_systemctl\<close> of
  src/app/system.py, and the two power endpoints of src/app/system.py.

  The programs are a parameter: \<open>'w exec\<close> takes the argument vector and gives \<open>None\<close> when the
  program could not be started, or its exit status and decoded output.  Both functions log a
  failure with \<open>extra={..., "args": ...}\<close> before they raise their own error.  Python's logging
  refuses an extra key that is an attribute of a log record, with \<open>KeyError\<close>; \<open>log_extra\<close> is
  that check.
\<close>

section \<open>Logging with extra fields\<close>

definition record_attributes :: "string list" where
  "record_attributes = [''name'', ''msg'', ''args'', ''levelname'', ''levelno'', ''pathname'',
     ''filename'', ''module'', ''exc_info'', ''exc_text'', ''stack_info'', ''lineno'', ''funcName'',
     ''created'', ''msecs'', ''relativeCreated'', ''thread'', ''threadName'', ''processName'',
     ''process'', ''taskName'', ''message'', ''asctime'']"

definition log_extra :: "string list \<Rightarrow> ('s, aexn, unit) op" where
  "log_extra keys = assertm (\<forall>k\<in>set keys. k \<notin> set record_attributes) (AppExc ''KeyError'')"

section \<open>Programs\<close>

type_synonym 'w exec = "string list \<Rightarrow> 'w \<Rightarrow> (int \<times> string) option \<times> 'w"

definition start :: "'w exec \<Rightarrow> string list \<Rightarrow> ('w, aexn, int \<times> string) op" where
  "start exec argv w = (case exec argv w of
     (None, w') \<Rightarrow> (Inl (AppExc ''OSError''), w') | (Some r, w') \<Rightarrow> (Inr r, w'))"

definition run_nmcli :: "'w exec \<Rightarrow> string list \<Rightarrow> ('w, aexn, string) op" where
  "run_nmcli exec args =
     bindm (start exec (''nmcli'' # args)) (\<lambda>(rc, stdout).
     if rc \<noteq> 0
     then bindm (log_extra [''event'', ''args'', ''stderr'']) (\<lambda>_.
          raise (HTTPExc 502 ''Network operation failed''))
     else ret stdout)"

definition run_systemctl :: "'w exec \<Rightarrow> string list \<Rightarrow> ('w, aexn, unit) op" where
  "run_systemctl exec args =
     bindm (start exec (''systemctl'' # args)) (\<lambda>(rc, stdout).
     if rc \<noteq> 0
     then bindm (log_extra [''event'', ''args'', ''stderr'']) (\<lambda>_.
          raise (HTTPExc 502 ''System action failed''))
     else ret ())"

definition reboot :: "'w exec \<Rightarrow> ('w, aexn, json) op" where
  "reboot exec = bindm (run_systemctl exec [''reboot'']) (\<lambda>_. ret status_ok)"

definition shutdown :: "'w exec \<Rightarrow> ('w, aexn, json) op" where
  "shutdown exec = bindm (run_systemctl exec [''poweroff'']) (\<lambda>_. ret status_ok)"

section \<open>What a failing program does\<close>

lemma log_args: "log_extra [''event'', ''args'', ''stderr''] s = (Inl (AppExc ''KeyError''), s)"
  by (simp add: log_extra_def assertm_def record_attributes_def)

lemma run_nmcli_cases:
  "run_nmcli exec args w = (case exec (''nmcli'' # args) w of
     (None, w') \<Rightarrow> (Inl (AppExc ''OSError''), w')
   | (Some (rc, out), w') \<Rightarrow> (if rc = 0 then Inr out else Inl (AppExc ''KeyError''), w'))"
  by (auto simp: run_nmcli_def start_def bindm_def log_args ret_def split: prod.splits option.splits)

lemma run_systemctl_cases:
  "run_systemctl exec args w = (case exec (''systemctl'' # args) w of
     (None, w') \<Rightarrow> (Inl (AppExc ''OSError''), w')
   | (Some (rc, out), w') \<Rightarrow> (if rc = 0 then Inr () else Inl (AppExc ''KeyError''), w'))"
  by (auto simp: run_systemctl_def start_def bindm_def log_args ret_def split: prod.splits option.splits)

text \<open>The power endpoints start exactly one program, \<open>systemctl reboot\<close> or \<open>systemctl poweroff\<close>,
  and answer ok if and only if it reports success; but a failing program never yields the
  announced answer 502: the attempt to log it raises \<open>KeyError\<close>.\<close>

lemma power_endpoints:
  "reboot exec w = (case exec [''systemctl'', ''reboot''] w of
     (None, w') \<Rightarrow> (Inl (AppExc ''OSError''), w')
   | (Some (rc, out), w') \<Rightarrow> (if rc = 0 then Inr status_ok else Inl (AppExc ''KeyError''), w')) \<and>
   shutdown exec w = (case exec [''systemctl'', ''poweroff''] w of
     (None, w') \<Rightarrow> (Inl (AppExc ''OSError''), w')
   | (Some (rc, out), w') \<Rightarrow> (if rc = 0 then Inr status_ok else Inl (AppExc ''KeyError''), w'))"
  by (auto simp: reboot_def shutdown_def bindm_def run_systemctl_cases ret_def split: prod.splits option.splits)

end
