(* ===== verification/Network.thy ===== *)
theory Network
  imports Commands
begin

text \<open>
  The network part of the application, src/app/network.py: the reader of nmcli's terse output,
  the Wi-Fi lists, and the two handlers that change a configuration.  nmcli is the parameter of
  \<open>Commands\<close>; the table of interfaces (\<open>psutil\<close>) is an argument.
\<close>

section \<open>Terse output\<close>

definition bs :: char where
  "bs = CHR 0x5C"

definition colon :: char where
  "colon = CHR '':''"

fun split_unescaped :: "bool \<Rightarrow> string \<Rightarrow> string list" where
  \<comment> \<open>\<open>re.split\<close> at the colons that do not follow a backslash; the flag says whether the character
      before is one\<close>
  "split_unescaped b [] = [[]]"
| "split_unescaped b (c # s) =
     (if c = colon \<and> \<not> b then [] # split_unescaped False s
      else (case split_unescaped (c = bs) s of [] \<Rightarrow> [[c]] | w # ws \<Rightarrow> (c # w) # ws))"

definition unescape_field :: "string \<Rightarrow> string" where
  "unescape_field f = py_replace2 bs bs [bs] (py_replace2 bs colon [colon] f)"

definition parse_nmcli_terse :: "string \<Rightarrow> string list list" where
  "parse_nmcli_terse output =
     map (\<lambda>line. map unescape_field (split_unescaped False line))
       (filter (\<lambda>line. line \<noteq> []) (py_splitlines output))"

section \<open>Interfaces\<close>

definition list_interfaces :: "(string \<times> bool) list \<Rightarrow> local_ifaces \<Rightarrow> (string \<times> bool \<times> string list) list" where
  \<comment> \<open>\<open>stats\<close> gives \<open>isup\<close>; name, state and addresses of each interface\<close>
  "list_interfaces stats addrs =
     map (\<lambda>(name, as). (name, (case map_of stats name of None \<Rightarrow> False | Some up \<Rightarrow> up), map ia_address as)) addrs"

definition unknown_interface :: aexn where
  "unknown_interface = HTTPExc 404 ''Unknown interface''"

definition str_opt :: "('a \<Rightarrow> string) \<Rightarrow> 'a option \<Rightarrow> string" where
  \<comment> \<open>\<open>str\<close> of an optional value\<close>
  "str_opt f x = (case x of None \<Rightarrow> ''None'' | Some v \<Rightarrow> f v)"

definition conn_name :: "string \<Rightarrow> string" where
  "conn_name interface = ''pi-config-ui-'' @ interface"

definition configure_interface :: "'w exec \<Rightarrow> string list \<Rightarrow> net_config \<Rightarrow> ('w, aexn, json) op" where
  "configure_interface exec existing payload =
     bindm (assertm (nc_interface payload \<in> set existing) unknown_interface) (\<lambda>_.
     bindm
       (if nc_method payload = Dhcp
        then bindm (run_nmcli exec [''con'', ''mod'', conn_name (nc_interface payload), ''ipv4.method'', ''auto'']) (\<lambda>_. ret ())
        else
          bindm (run_nmcli exec [''con'', ''mod'', conn_name (nc_interface payload), ''ipv4.method'', ''manual'',
                   ''ipv4.addresses'', str_opt str_iface (nc_address payload)]) (\<lambda>_.
          bindm (case nc_gateway payload of None \<Rightarrow> ret ()
                 | Some g \<Rightarrow> bindm (run_nmcli exec [''con'', ''mod'', conn_name (nc_interface payload),
                     ''ipv4.gateway'', str_addr g]) (\<lambda>_. ret ())) (\<lambda>_.
          (case nc_dns payload of None \<Rightarrow> ret () | Some ds \<Rightarrow>
             if ds = [] then ret ()
             else bindm (run_nmcli exec [''con'', ''mod'', conn_name (nc_interface payload),
                     ''ipv4.dns'', py_join '','' (map str_addr ds)]) (\<lambda>_. ret ()))))) (\<lambda>_.
     bindm (run_nmcli exec [''con'', ''up'', conn_name (nc_interface payload)]) (\<lambda>_.
     ret status_ok)))"

section \<open>Wi-Fi\<close>

fun known_rows :: "'w exec \<Rightarrow> string list list \<Rightarrow> ('w, aexn, (string \<times> string) list) op" where
  \<comment> \<open>name and SSID of the saved wireless profiles\<close>
  "known_rows exec [] = ret []"
| "known_rows exec (row # rows) =
     (case row of
        [name, conn_type] \<Rightarrow>
          if conn_type \<notin> {''802-11-wireless'', ''wifi''} then known_rows exec rows
          else
            bindm (run_nmcli exec [''-t'', ''-f'', ''802-11-wireless.ssid'', ''connection'', ''show'', name]) (\<lambda>ssid_output.
            (let text = py_strip ssid_output;
                 value = (if colon \<in> set text then tl (dropWhile (\<lambda>c. c \<noteq> colon) text) else text);
                 ssid = (if value = [] then name else value)
             in bindm (known_rows exec rows) (\<lambda>rest. ret ((name, ssid) # rest))))
      | _ \<Rightarrow> raise (AppExc ''ValueError''))"

definition list_known_wifi :: "'w exec \<Rightarrow> ('w, aexn, (string \<times> string) list) op" where
  "list_known_wifi exec =
     bindm (run_nmcli exec [''-t'', ''-f'', ''NAME,TYPE'', ''connection'', ''show'']) (\<lambda>output.
     known_rows exec (parse_nmcli_terse output))"

record wifi_net =
  wn_ssid :: string
  wn_signal :: int
  wn_security :: string

definition signal_int :: "string \<Rightarrow> aexn + int" where
  \<comment> \<open>\<open>int(signal) if signal.isdigit() else 0\<close>\<close>
  "signal_int s = (if py_isdigit s
     then (if list_all is_ascii_digit s then Inr (int (undec s)) else Inl (AppExc ''ValueError''))
     else Inr 0)"

definition pad3 :: "string list \<Rightarrow> string list" where
  "pad3 row = take 3 (row @ [[], [], []])"

definition scan_row :: "(string \<times> wifi_net) list \<Rightarrow> string list \<Rightarrow> aexn + (string \<times> wifi_net) list" where
  "scan_row best row =
     (let ssid = pad3 row ! 0; signal = pad3 row ! 1; security = pad3 row ! 2 in
      if ssid = [] then Inr best
      else (case signal_int signal of Inl e \<Rightarrow> Inl e | Inr n \<Rightarrow>
        Inr (if (case map_of best ssid of None \<Rightarrow> True | Some old \<Rightarrow> n > wn_signal old)
             then AList.update ssid \<lparr>wn_ssid = ssid, wn_signal = n,
                    wn_security = (if security = [] then ''open'' else security)\<rparr> best
             else best)))"

fun scan_rows :: "(string \<times> wifi_net) list \<Rightarrow> string list list \<Rightarrow> aexn + (string \<times> wifi_net) list" where
  "scan_rows best [] = Inr best"
| "scan_rows best (row # rows) = (case scan_row best row of Inl e \<Rightarrow> Inl e | Inr best' \<Rightarrow> scan_rows best' rows)"

definition ranked :: "(string \<times> wifi_net) list \<Rightarrow> wifi_net list" where
  \<comment> \<open>\<open>sorted(..., key=signal, reverse=True)\<close>, which keeps the order of equal signals\<close>
  "ranked best = sort_key (\<lambda>r. - wn_signal r) (map snd best)"

definition scan_wifi :: "'w exec \<Rightarrow> ('w, aexn, wifi_net list) op" where
  "scan_wifi exec =
     bindm (run_nmcli exec [''-t'', ''-f'', ''SSID,SIGNAL,SECURITY'', ''device'', ''wifi'', ''list'', ''--rescan'', ''yes'']) (\<lambda>output.
     bindm (liftr (scan_rows [] (parse_nmcli_terse output))) (\<lambda>best.
     ret (ranked best)))"

definition wifi_connect :: "'w exec \<Rightarrow> wifi_connect_req \<Rightarrow> ('w, aexn, json) op" where
  "wifi_connect exec payload =
     bindm
       (case wc_psk payload of
          Some psk \<Rightarrow> if psk \<noteq> []
            then run_nmcli exec [''device'', ''wifi'', ''connect'', wc_ssid payload, ''password'', psk]
            else run_nmcli exec [''connection'', ''up'',
              (case wc_connection_name payload of Some n \<Rightarrow> if n \<noteq> [] then n else wc_ssid payload | None \<Rightarrow> wc_ssid payload)]
        | None \<Rightarrow> run_nmcli exec [''connection'', ''up'',
              (case wc_connection_name payload of Some n \<Rightarrow> if n \<noteq> [] then n else wc_ssid payload | None \<Rightarrow> wc_ssid payload)])
       (\<lambda>_. ret status_ok)"

end
