(* ===== verification/NetworkProps.thy ===== *)
theory NetworkProps
  imports Network "HOL-Library.Multiset"
begin

text \<open>
  Properties of the network part: nmcli's terse rows are read back field by field, a Wi-Fi scan
  reports the strongest signal of each network, in order, and a configuration request runs its
  commands in sequence and stops at the first that fails.
\<close>

section \<open>Reading terse output\<close>

definition escape_field :: "string \<Rightarrow> string" where
  \<comment> \<open>how nmcli writes a field in terse mode: a backslash before colons and backslashes\<close>
  "escape_field f = concat (map (\<lambda>c. if c = colon \<or> c = bs then [bs, c] else [c]) f)"

definition terse_line :: "string list \<Rightarrow> string" where
  "terse_line row = py_join [colon] (map escape_field row)"

definition terse_output :: "string list list \<Rightarrow> string" where
  "terse_output rows = concat (map (\<lambda>row. terse_line row @ [nl]) rows)"

lemma colon_bs [simp]: "colon \<noteq> bs" "bs \<noteq> colon"
  by (simp_all add: colon_def bs_def)

lemma escape_simps [simp]:
  "escape_field [] = []"
  "escape_field (c # f) = (if c = colon \<or> c = bs then [bs, c] else [c]) @ escape_field f"
  by (simp_all add: escape_field_def)

lemma split_not_Nil [simp]: "split_unescaped b s \<noteq> []"
  by (cases s) (auto split: list.splits)

lemma split_field:
  assumes "f \<noteq> [] \<Longrightarrow> last f \<noteq> bs" and "f = [] \<Longrightarrow> \<not> b"
  shows "split_unescaped b (escape_field f @ colon # s) = escape_field f # split_unescaped False s"
  using assms
proof (induction f arbitrary: b)
  case Nil
  then show ?case by simp
next
  case (Cons c f)
  have "split_unescaped (c = bs) (escape_field f @ colon # s) = escape_field f # split_unescaped False s"
    using Cons.prems(1) by (intro Cons.IH) auto
  moreover have "split_unescaped False (escape_field f @ colon # s) = escape_field f # split_unescaped False s"
    using Cons.prems(1) by (intro Cons.IH) auto
  ultimately show ?case by auto
qed

lemma split_last_field: "split_unescaped b (escape_field f) = [escape_field f]"
proof (induction f arbitrary: b)
  case Nil
  then show ?case by simp
next
  case (Cons c f)
  then show ?case by auto
qed

lemma replace_head:
  "py_replace2 bs colon [colon] (x # escape_field f) = x # py_replace2 bs colon [colon] (escape_field f)"
  by (cases f) auto

lemma replace_colons:
  "py_replace2 bs colon [colon] (escape_field f) = concat (map (\<lambda>c. if c = bs then [bs, bs] else [c]) f)"
  by (induction f) (auto simp: replace_head)

lemma replace_other: "x \<noteq> a \<Longrightarrow> py_replace2 a b new (x # s) = x # py_replace2 a b new s"
  by (cases s) auto

lemma replace_backslashes:
  "py_replace2 bs bs [bs] (concat (map (\<lambda>c. if c = bs then [bs, bs] else [c]) f)) = f"
  by (induction f) (auto simp: replace_other)

lemma unescape_escape: "unescape_field (escape_field f) = f"
  by (simp add: unescape_field_def replace_colons replace_backslashes)

definition separable :: "string list \<Rightarrow> bool" where
  \<comment> \<open>only the last field may end in a backslash\<close>
  "separable row \<longleftrightarrow> row \<noteq> [] \<and> list_all (\<lambda>f. f \<noteq> [] \<longrightarrow> last f \<noteq> bs) (butlast row)"

lemma split_terse_line:
  "separable row \<Longrightarrow> split_unescaped False (terse_line row) = map escape_field row"
  unfolding terse_line_def separable_def
proof (induction row)
  case Nil
  then show ?case by simp
next
  case (Cons f fs)
  show ?case
  proof (cases "fs = []")
    case True
    then show ?thesis by (simp add: split_last_field)
  next
    case False
    with Cons show ?thesis by (auto simp: py_join_Cons split_field)
  qed
qed

lemma splitlines_line:
  assumes "\<forall>c\<in>set l. \<not> py_linebreak c"
  shows "py_splitlines (l @ nl # s) = l # py_splitlines s"
  using assms
proof (induction l)
  case Nil
  have "code nl \<noteq> 13" by simp
  then show ?case by (cases s) auto
next
  case (Cons c l)
  then have "py_splitlines (l @ nl # s) = l # py_splitlines s" by simp
  moreover have "code c \<noteq> 13" using Cons.prems by (auto simp: py_linebreak_def)
  ultimately show ?case using Cons.prems by (cases "l @ nl # s") auto
qed

lemma colon_bs_no_break: "\<not> py_linebreak colon" "\<not> py_linebreak bs"
  by (simp_all add: py_linebreak_def colon_def bs_def code_def)

lemma terse_line_no_break:
  assumes "\<forall>f\<in>set row. \<forall>c\<in>set f. \<not> py_linebreak c"
  shows "\<forall>c\<in>set (terse_line row). \<not> py_linebreak c"
proof -
  have "\<forall>c\<in>set (escape_field f). \<not> py_linebreak c" if "\<forall>c\<in>set f. \<not> py_linebreak c" for f
    using that colon_bs_no_break by (induction f) auto
  then have "\<forall>w\<in>set (map escape_field row). \<forall>c\<in>set w. \<not> py_linebreak c" using assms by auto
  moreover have "\<forall>w\<in>set ws. \<forall>c\<in>set w. \<not> py_linebreak c \<Longrightarrow> \<forall>c\<in>set (py_join [colon] ws). \<not> py_linebreak c" for ws
    using colon_bs_no_break by (induction "[colon]" ws rule: py_join.induct) auto
  ultimately show ?thesis unfolding terse_line_def by blast
qed

definition terse_row :: "string list \<Rightarrow> bool" where
  "terse_row row \<longleftrightarrow> separable row \<and> row \<noteq> [[]] \<and>
     list_all (list_all (\<lambda>c. \<not> py_linebreak c)) row"

lemma terse_line_not_Nil: "separable row \<Longrightarrow> row \<noteq> [[]] \<Longrightarrow> terse_line row \<noteq> []"
proof -
  assume s: "separable row" "row \<noteq> [[]]"
  then obtain f fs where f: "row = f # fs" by (cases row) (auto simp: separable_def)
  show ?thesis
  proof (cases fs)
    case Nil
    with f s obtain c f' where "f = c # f'" by (cases f) auto
    with f Nil show ?thesis by (simp add: terse_line_def)
  next
    case (Cons g gs)
    with f show ?thesis by (simp add: terse_line_def)
  qed
qed

text \<open>C33: nmcli's rows are read back: the terse output of rows of fields, with colons and backslashes
  escaped, is parsed into exactly these rows, provided no field has a line break, no row is a
  single empty field, and no field but the last of a row ends in a backslash.\<close>

theorem terse_rows_read_back:
  assumes "list_all terse_row rows"
  shows "parse_nmcli_terse (terse_output rows) = rows"
  using assms
proof (induction rows)
  case Nil
  then show ?case by (simp add: parse_nmcli_terse_def terse_output_def)
next
  case (Cons r rows)
  then have r: "terse_row r" and IH: "parse_nmcli_terse (terse_output rows) = rows" by simp_all
  have "py_splitlines (terse_line r @ nl # terse_output rows) = terse_line r # py_splitlines (terse_output rows)"
    using r terse_line_no_break [of r] by (intro splitlines_line) (auto simp: terse_row_def list_all_iff)
  moreover have "terse_line r \<noteq> []" using r terse_line_not_Nil by (simp add: terse_row_def)
  moreover have "map unescape_field (split_unescaped False (terse_line r)) = r"
    using r split_terse_line by (simp add: terse_row_def unescape_escape comp_def)
  ultimately show ?case
    using IH by (simp add: parse_nmcli_terse_def terse_output_def)
qed

theorem terse_rows_read_back_witness:
  "parse_nmcli_terse (terse_output [[''a:b'', ''wifi''], [''home'', ''x'' @ [bs]]]) =
    [[''a:b'', ''wifi''], [''home'', ''x'' @ [bs]]]"
  by (rule terse_rows_read_back)
    (simp add: terse_row_def separable_def py_linebreak_def bs_def code_def)

text \<open>The proviso is needed: a field that ends in a backslash swallows the separator after it.\<close>

lemma backslash_joins_fields:
  "parse_nmcli_terse (terse_output [[''net'' @ [bs], ''wifi'']]) \<noteq> [[''net'' @ [bs], ''wifi'']]"
  by code_simp

section \<open>The Wi-Fi scan\<close>

definition row_net :: "string list \<Rightarrow> wifi_net option" where
  \<comment> \<open>the network a row of the scan announces, if it has a name and a readable signal\<close>
  "row_net row = (if pad3 row ! 0 = [] then None else
     (case signal_int (pad3 row ! 1) of Inl _ \<Rightarrow> None
      | Inr n \<Rightarrow> Some \<lparr>wn_ssid = pad3 row ! 0, wn_signal = n,
          wn_security = (if pad3 row ! 2 = [] then ''open'' else pad3 row ! 2)\<rparr>))"

definition best_of :: "wifi_net list \<Rightarrow> (string \<times> wifi_net) list \<Rightarrow> bool" where
  \<comment> \<open>\<open>best\<close> holds, for each name, an announced network of the greatest signal\<close>
  "best_of nets best \<longleftrightarrow> distinct (map fst best) \<and> fst ` set best = wn_ssid ` set nets \<and>
     (\<forall>(s, e)\<in>set best. wn_ssid e = s \<and> e \<in> set nets \<and>
        (\<forall>f\<in>set nets. wn_ssid f = s \<longrightarrow> wn_signal f \<le> wn_signal e))"

lemma scan_row_net:
  assumes "scan_row best row = Inr best'"
  shows "best' = (case row_net row of None \<Rightarrow> best | Some e \<Rightarrow>
    if (case map_of best (wn_ssid e) of None \<Rightarrow> True | Some old \<Rightarrow> wn_signal e > wn_signal old)
    then AList.update (wn_ssid e) e best else best)"
  using assms
  by (cases "map_of best (pad3 row ! 0)")
    (auto simp: scan_row_def row_net_def Let_def split: sum.splits if_splits)

lemma alist_update_set:
  "distinct (map fst al) \<Longrightarrow> set (AList.update k v al) = insert (k, v) {p \<in> set al. fst p \<noteq> k}"
proof (induction al)
  case (Cons p al)
  have "(k, x) \<notin> set al" if "k \<notin> fst ` set al" for x using that by force
  with Cons show ?case by (cases p) auto
qed simp

lemma alist_mem: "distinct (map fst al) \<Longrightarrow> (k, v) \<in> set al \<longleftrightarrow> map_of al k = Some v"
  by (simp add: map_of_eq_Some_iff)

lemma best_ofD:
  assumes "best_of nets best" and "(s, x) \<in> set best"
  shows "wn_ssid x = s" "x \<in> set nets" "f \<in> set nets \<Longrightarrow> wn_ssid f = s \<Longrightarrow> wn_signal f \<le> wn_signal x"
  using assms unfolding best_of_def by blast+

lemma best_of_put:
  assumes "best_of nets best"
    and "\<And>f. f \<in> set nets \<Longrightarrow> wn_ssid f = wn_ssid e \<Longrightarrow> wn_signal f \<le> wn_signal e"
  shows "best_of (nets @ [e]) (AList.update (wn_ssid e) e best)"
proof -
  have d: "distinct (map fst best)" and k: "fst ` set best = wn_ssid ` set nets"
    using assms(1) by (simp_all add: best_of_def)
  note u = alist_update_set [OF d, of "wn_ssid e" e]
  have "distinct (map fst (AList.update (wn_ssid e) e best))" using d by (rule distinct_update)
  moreover have "fst ` set (AList.update (wn_ssid e) e best) = wn_ssid ` set (nets @ [e])"
  proof -
    have "fst ` {p \<in> set best. fst p \<noteq> wn_ssid e} = fst ` set best - {wn_ssid e}" by auto
    then show ?thesis unfolding u using k by auto
  qed
  moreover have "wn_ssid x = s \<and> x \<in> set (nets @ [e]) \<and>
      (\<forall>f\<in>set (nets @ [e]). wn_ssid f = s \<longrightarrow> wn_signal f \<le> wn_signal x)"
    if "(s, x) \<in> set (AList.update (wn_ssid e) e best)" for s x
  proof (cases "s = wn_ssid e")
    case True
    with that u have "x = e" by simp
    with True assms(2) show ?thesis by simp
  next
    case False
    with that u have "(s, x) \<in> set best" by simp
    from best_ofD [OF assms(1) this] False show ?thesis by simp
  qed
  ultimately show ?thesis unfolding best_of_def by blast
qed

lemma best_of_keep:
  assumes "best_of nets best" and "map_of best (wn_ssid e) = Some old" and "wn_signal e \<le> wn_signal old"
  shows "best_of (nets @ [e]) best"
proof -
  have o: "(wn_ssid e, old) \<in> set best" using assms(2) by (rule map_of_SomeD)
  have d: "distinct (map fst best)" and k: "fst ` set best = wn_ssid ` set nets"
    using assms(1) by (simp_all add: best_of_def)
  have "wn_ssid e \<in> fst ` set best" using imageI [OF o, of fst] by simp
  then have "fst ` set best = wn_ssid ` set (nets @ [e])" using k by auto
  moreover have "wn_ssid x = s \<and> x \<in> set (nets @ [e]) \<and>
      (\<forall>f\<in>set (nets @ [e]). wn_ssid f = s \<longrightarrow> wn_signal f \<le> wn_signal x)"
    if "(s, x) \<in> set best" for s x
  proof -
    have "wn_signal e \<le> wn_signal x" if "wn_ssid e = s"
    proof -
      have "map_of best s = Some x" using alist_mem [OF d] \<open>(s, x) \<in> set best\<close> by simp
      then have "x = old" using that assms(2) by simp
      then show ?thesis using assms(3) by simp
    qed
    with best_ofD [OF assms(1) that] show ?thesis by simp
  qed
  ultimately show ?thesis using d unfolding best_of_def by blast
qed

lemma best_step:
  assumes "best_of nets best"
  shows "best_of (nets @ [e])
    (if (case map_of best (wn_ssid e) of None \<Rightarrow> True | Some old \<Rightarrow> wn_signal e > wn_signal old)
     then AList.update (wn_ssid e) e best else best)"
proof (cases "map_of best (wn_ssid e)")
  case None
  have "wn_ssid f \<noteq> wn_ssid e" if "f \<in> set nets" for f
  proof
    assume "wn_ssid f = wn_ssid e"
    then have "wn_ssid e \<in> fst ` set best" using that assms unfolding best_of_def by (metis imageI)
    with None show False by (simp add: map_of_eq_None_iff)
  qed
  then show ?thesis unfolding None option.case if_True by (intro best_of_put [OF assms]) blast
next
  case (Some old)
  show ?thesis
  proof (cases "wn_signal e > wn_signal old")
    case True
    have "wn_signal f \<le> wn_signal e" if "f \<in> set nets" "wn_ssid f = wn_ssid e" for f
      using best_ofD(3) [OF assms map_of_SomeD [OF Some] that] True by simp
    then show ?thesis unfolding Some option.case using True by (simp only: if_True best_of_put [OF assms])
  next
    case False
    then have "wn_signal e \<le> wn_signal old" by simp
    from best_of_keep [OF assms Some this] False show ?thesis unfolding Some option.case by (simp only: if_False)
  qed
qed

lemma scan_rows_best:
  "scan_rows best rows = Inr best' \<Longrightarrow> best_of nets best \<Longrightarrow>
   best_of (nets @ List.map_filter row_net rows) best'"
proof (induction rows arbitrary: best nets)
  case Nil
  then show ?case by (simp add: List.map_filter_simps)
next
  case (Cons row rows)
  from Cons.prems(1) obtain b1 where b1: "scan_row best row = Inr b1" "scan_rows b1 rows = Inr best'"
    by (auto split: sum.splits)
  show ?case
  proof (cases "row_net row")
    case None
    with scan_row_net [OF b1(1)] have "b1 = best" by simp
    with Cons.IH [OF b1(2)] Cons.prems(2) None show ?thesis by (simp add: List.map_filter_simps)
  next
    case (Some e)
    have "best_of (nets @ [e]) b1"
      using scan_row_net [OF b1(1)] best_step [OF Cons.prems(2), of e] Some by simp
    from Cons.IH [OF b1(2) this] Some show ?thesis by (simp add: List.map_filter_simps)
  qed
qed

text \<open>C34: a scan reports each network once, strongest first: the answer lists exactly the names that
  were announced, each with an announced entry of its greatest signal, in descending order of
  the signal.\<close>

theorem scan_reports_strongest:
  assumes "run_nmcli exec [''-t'', ''-f'', ''SSID,SIGNAL,SECURITY'', ''device'', ''wifi'', ''list'', ''--rescan'', ''yes''] w =
      (Inr out, w1)" and "scan_wifi exec w = (Inr nets, w')"
  defines "announced \<equiv> set (List.map_filter row_net (parse_nmcli_terse out))"
  shows "distinct (map wn_ssid nets) \<and> wn_ssid ` set nets = wn_ssid ` announced \<and>
    sorted (map (\<lambda>n. - wn_signal n) nets) \<and>
    (\<forall>n\<in>set nets. n \<in> announced \<and> (\<forall>m\<in>announced. wn_ssid m = wn_ssid n \<longrightarrow> wn_signal m \<le> wn_signal n))"
proof -
  from assms(2) obtain best where best: "scan_rows [] (parse_nmcli_terse out) = Inr best"
      and nets: "nets = ranked best"
    unfolding scan_wifi_def bindm_Inr [where m = "run_nmcli exec _", OF assms(1)]
    by (auto simp: liftr_bind ret_def split: sum.splits)
  have "best_of ([] @ List.map_filter row_net (parse_nmcli_terse out)) best"
    by (rule scan_rows_best [OF best]) (simp add: best_of_def)
  then have b: "distinct (map fst best)" "fst ` set best = wn_ssid ` announced"
      "\<forall>(s, e)\<in>set best. wn_ssid e = s \<and> e \<in> announced \<and>
        (\<forall>f\<in>announced. wn_ssid f = s \<longrightarrow> wn_signal f \<le> wn_signal e)"
    by (simp_all add: best_of_def announced_def)
  have m: "map wn_ssid (map snd best) = map fst best" using b(3) by auto
  have s: "set nets = snd ` set best" by (simp add: nets ranked_def)
  have "distinct (map wn_ssid (map snd best))" unfolding m by (rule b(1))
  then have "distinct (map wn_ssid nets)"
    unfolding nets ranked_def distinct_map [of wn_ssid] distinct_sort set_sort .
  moreover have "wn_ssid ` set nets = fst ` set best" using m s by (metis image_set set_map)
  moreover have "sorted (map (\<lambda>n. - wn_signal n) nets)" by (simp add: nets ranked_def)
  ultimately show ?thesis using b(2,3) s by auto
qed

definition scripted_exec :: "(string list \<Rightarrow> (int \<times> string) option) \<Rightarrow> string list list exec" where
  \<comment> \<open>programs that answer by their arguments; the state is the list of what was started\<close>
  "scripted_exec f argv tr = (f argv, tr @ [argv])"

theorem scan_reports_strongest_witness:
  "\<exists>nets tr. scan_wifi (scripted_exec (\<lambda>_. Some (0, terse_output [[''home'', ''40'', ''WPA2''], [''home'', ''70'', ''WPA2'']]))) [] =
      (Inr nets, tr) \<and> distinct (map wn_ssid nets) \<and> nets \<noteq> []"
proof -
  let ?e = "scripted_exec (\<lambda>_. Some (0, terse_output [[''home'', ''40'', ''WPA2''], [''home'', ''70'', ''WPA2'']]))"
  let ?a = "[''-t'', ''-f'', ''SSID,SIGNAL,SECURITY'', ''device'', ''wifi'', ''list'', ''--rescan'', ''yes'']"
  have 1: "run_nmcli ?e ?a [] = (Inr (terse_output [[''home'', ''40'', ''WPA2''], [''home'', ''70'', ''WPA2'']]), [''nmcli'' # ?a])"
    by (simp add: run_nmcli_cases scripted_exec_def)
  have "scan_rows [] (parse_nmcli_terse (terse_output [[''home'', ''40'', ''WPA2''], [''home'', ''70'', ''WPA2'']])) =
      Inr [(''home'', \<lparr>wn_ssid = ''home'', wn_signal = 70, wn_security = ''WPA2''\<rparr>)]"
    by code_simp
  then have 2: "scan_wifi ?e [] = (Inr [\<lparr>wn_ssid = ''home'', wn_signal = 70, wn_security = ''WPA2''\<rparr>], [''nmcli'' # ?a])"
    unfolding scan_wifi_def bindm_Inr [where m = "run_nmcli ?e ?a", OF 1]
    by (simp add: liftr_bind ret_def ranked_def)
  from scan_reports_strongest [OF 1 2] 2 show ?thesis by auto
qed

section \<open>Configuring an interface\<close>

definition configure_commands :: "net_config \<Rightarrow> string list list" where
  \<comment> \<open>the commands a configuration request stands for\<close>
  "configure_commands payload =
     (let m = [''con'', ''mod'', conn_name (nc_interface payload)] in
      (if nc_method payload = Dhcp then [m @ [''ipv4.method'', ''auto'']]
       else [m @ [''ipv4.method'', ''manual'', ''ipv4.addresses'', str_opt str_iface (nc_address payload)]] @
         (case nc_gateway payload of None \<Rightarrow> [] | Some g \<Rightarrow> [m @ [''ipv4.gateway'', str_addr g]]) @
         (case nc_dns payload of None \<Rightarrow> [] | Some ds \<Rightarrow>
            if ds = [] then [] else [m @ [''ipv4.dns'', py_join '','' (map str_addr ds)]])) @
      [[''con'', ''up'', conn_name (nc_interface payload)]])"

fun run_all :: "'w exec \<Rightarrow> string list list \<Rightarrow> ('w, aexn, unit) op" where
  "run_all exec [] = ret ()"
| "run_all exec (c # cs) = bindm (run_nmcli exec c) (\<lambda>_. run_all exec cs)"

lemma configure_run_all:
  assumes "nc_interface payload \<in> set existing"
  shows "configure_interface exec existing payload =
    bindm (run_all exec (configure_commands payload)) (\<lambda>_. ret status_ok)"
  using assms
  by (auto simp: configure_interface_def configure_commands_def Let_def assertm_True bindm_assoc
      split: option.splits)

definition logged :: "(string list list \<Rightarrow> string list \<Rightarrow> (int \<times> string) option) \<Rightarrow> string list list exec" where
  \<comment> \<open>any behaviour of the programs; the state is the list of what was started\<close>
  "logged orc argv tr = (orc tr argv, tr @ [argv])"

lemma run_nmcli_logged:
  "run_nmcli (logged orc) args tr =
     ((case orc tr (''nmcli'' # args) of None \<Rightarrow> Inl (AppExc ''OSError'')
       | Some (rc, out) \<Rightarrow> if rc = 0 then Inr out else Inl (AppExc ''KeyError'')), tr @ [''nmcli'' # args])"
  by (simp add: run_nmcli_cases logged_def split: option.split prod.split)

definition succeeded :: "(string list list \<Rightarrow> string list \<Rightarrow> (int \<times> string) option) \<Rightarrow> string list list \<Rightarrow> nat \<Rightarrow> bool" where
  "succeeded orc tr i \<longleftrightarrow> (case orc (take i tr) (tr ! i) of Some (rc, out) \<Rightarrow> rc = 0 | None \<Rightarrow> False)"

lemma run_all_logged:
  assumes "run_all (logged orc) cs tr0 = (r, tr)"
  shows "\<exists>n\<le>length cs. tr = tr0 @ take n (map (Cons ''nmcli'') cs) \<and> (cs \<noteq> [] \<longrightarrow> 0 < n) \<and>
    (\<forall>i. length tr0 \<le> i \<and> Suc i < length tr \<longrightarrow> succeeded orc tr i) \<and>
    ((\<exists>u. r = Inr u) \<longleftrightarrow> n = length cs \<and> (\<forall>i. length tr0 \<le> i \<and> i < length tr \<longrightarrow> succeeded orc tr i))"
  using assms
proof (induction cs arbitrary: tr0)
  case Nil
  then show ?case by (auto simp: ret_def)
next
  case (Cons c cs)
  let ?argv = "''nmcli'' # c"
  let ?tr1 = "tr0 @ [?argv]"
  show ?case
  proof (cases "\<exists>out. orc tr0 ?argv = Some (0, out)")
    case True
    then obtain out where ok: "orc tr0 ?argv = Some (0, out)" by blast
    then have "run_all (logged orc) cs ?tr1 = (r, tr)"
      using Cons.prems by (simp add: bindm_def run_nmcli_logged)
    from Cons.IH [OF this] obtain n where n: "n \<le> length cs"
        "tr = ?tr1 @ take n (map (Cons ''nmcli'') cs)"
        "\<forall>i. length ?tr1 \<le> i \<and> Suc i < length tr \<longrightarrow> succeeded orc tr i"
        "(\<exists>u. r = Inr u) \<longleftrightarrow> n = length cs \<and> (\<forall>i. length ?tr1 \<le> i \<and> i < length tr \<longrightarrow> succeeded orc tr i)"
      by blast
    have s: "succeeded orc tr (length tr0)" using n(2) ok by (simp add: succeeded_def nth_append)
    have "succeeded orc tr i" if "length tr0 \<le> i" "Suc i < length tr" for i
      using that n(3) s by (cases "i = length tr0") auto
    moreover have "(\<forall>i. length ?tr1 \<le> i \<and> i < length tr \<longrightarrow> succeeded orc tr i) \<longleftrightarrow>
        (\<forall>i. length tr0 \<le> i \<and> i < length tr \<longrightarrow> succeeded orc tr i)"
    proof -
      have "length tr0 \<le> i \<longleftrightarrow> i = length tr0 \<or> length ?tr1 \<le> i" for i by auto
      then show ?thesis using s by auto
    qed
    ultimately show ?thesis using n(1,2,4) by (intro exI [of _ "Suc n"]) simp
  next
    case False
    then have r: "tr = ?tr1" "\<nexists>u. r = Inr u"
      using Cons.prems
      by (auto simp: bindm_def run_nmcli_logged split: option.splits prod.splits if_splits)
    have "\<not> succeeded orc tr (length tr0)"
      using False r(1) by (auto simp: succeeded_def nth_append split: option.splits)
    with r show ?thesis by (intro exI [of _ 1]) auto
  qed
qed

text \<open>A configuration request runs its commands in their order and stops at the first that fails,
  so the profile is brought up only when every change to it was accepted; it answers ok if and
  only if all of them succeeded, and for an unknown interface it starts nothing.\<close>

lemma configure_stops_at_failure:
  assumes "configure_interface (logged orc) existing payload [] = (r, tr)"
  shows "if nc_interface payload \<in> set existing
    then \<exists>n. 0 < n \<and> n \<le> length (configure_commands payload) \<and>
      tr = take n (map (Cons ''nmcli'') (configure_commands payload)) \<and>
      (\<forall>i. Suc i < length tr \<longrightarrow> succeeded orc tr i) \<and>
      (r = Inr status_ok \<longleftrightarrow> n = length (configure_commands payload) \<and>
        (\<forall>i. i < length tr \<longrightarrow> succeeded orc tr i))
    else r = Inl unknown_interface \<and> tr = []"
proof (cases "nc_interface payload \<in> set existing")
  case False
  with assms show ?thesis by (auto simp: configure_interface_def assertm_bind)
next
  case True
  obtain q tr' where q: "run_all (logged orc) (configure_commands payload) [] = (q, tr')" by fastforce
  with assms have r: "tr = tr'" "r = Inr status_ok \<longleftrightarrow> (\<exists>u. q = Inr u)"
    unfolding configure_run_all [OF True] by (auto simp: bindm_def ret_def split: sum.splits)
  have "configure_commands payload \<noteq> []" by (simp add: configure_commands_def Let_def)
  with run_all_logged [OF q] r True show ?thesis by auto
qed

definition static_payload :: net_config where
  "static_payload = \<lparr>nc_interface = ''eth0'', nc_method = Static, nc_address = Some addr_a,
     nc_gateway = None, nc_dns = None\<rparr>"

lemma configure_stops_at_failure_witness:
  "\<exists>tr. configure_interface (logged (\<lambda>_ _. Some (1, []))) [''eth0''] static_payload [] =
      (Inl (AppExc ''KeyError''), tr) \<and>
    (\<exists>n. 0 < n \<and> tr = take n (map (Cons ''nmcli'') (configure_commands static_payload)))"
proof -
  obtain tr where c: "configure_interface (logged (\<lambda>_ _. Some (1, []))) [''eth0''] static_payload [] =
      (Inl (AppExc ''KeyError''), tr)"
    by (simp add: configure_interface_def static_payload_def bindm_def run_nmcli_logged assertm_def)
  from configure_stops_at_failure [OF c] c show ?thesis by (auto simp: static_payload_def)
qed

text \<open>A static configuration without an address is accepted, and nmcli is given the text None.\<close>

lemma static_none_reaches_nmcli:
  assumes "iface_pattern i" and "net_config_body i Static None None None = Some p"
  shows "configure_commands p ! 0 = [''con'', ''mod'', conn_name i, ''ipv4.method'', ''manual'', ''ipv4.addresses'', ''None'']"
  using assms by (auto simp: net_config_body_def configure_commands_def Let_def str_opt_def)

end
