(* ===== verification/Routing.thy ===== *)
theory Routing
  imports Commands
begin

text \<open>
  The routing part of the application, src/app/routing.py.  The kernel, reached through
  pyroute2's \<open>IPRoute\<close>, is a parameter: the messages that are read, the lookup of an interface
  index, and the execution of a route request, which may raise \<open>NetlinkError\<close> or anything else.
\<close>

section \<open>The kernel\<close>

datatype nlexn = NetlinkError string | OtherExc string

datatype route_cmd =
    RouteAdd string nat "string option" int int   \<comment> \<open>dst, dst_len, gateway, oif, table\<close>
  | RouteDel string nat int int                    \<comment> \<open>dst, dst_len, oif, table\<close>

record route_msg =
  rm_attrs :: "(string \<times> json) list"
  rm_dst_len :: json

record 'w netlink =
  nl_get_routes :: "int \<Rightarrow> ('w, nlexn, route_msg list) op"
  nl_get_links :: "json \<Rightarrow> ('w, nlexn, (string \<times> json) list list) op"
  nl_link_lookup :: "string \<Rightarrow> ('w, nlexn, int list) op"
  nl_route :: "route_cmd \<Rightarrow> ('w, nlexn, unit) op"

definition uncaught :: "('w, nlexn, 'a) op \<Rightarrow> ('w, aexn, 'a) op" where
  \<comment> \<open>an exception that no handler of the module catches\<close>
  "uncaught m w = (case m w of
     (Inl (NetlinkError _), w') \<Rightarrow> (Inl (AppExc ''NetlinkError''), w')
   | (Inl (OtherExc e), w') \<Rightarrow> (Inl (AppExc e), w') | (Inr x, w') \<Rightarrow> (Inr x, w'))"

definition netlink_or_400 :: "string \<Rightarrow> ('w, nlexn, 'a) op \<Rightarrow> ('w, aexn, 'a) op" where
  \<comment> \<open>\<open>except NetlinkError\<close>\<close>
  "netlink_or_400 detail m w = (case m w of
     (Inl (NetlinkError _), w') \<Rightarrow> (Inl (HTTPExc 400 detail), w')
   | (Inl (OtherExc e), w') \<Rightarrow> (Inl (AppExc e), w') | (Inr x, w') \<Rightarrow> (Inr x, w'))"

section \<open>Listing\<close>

definition attr_get :: "(string \<times> json) list \<Rightarrow> string \<Rightarrow> json" where
  \<comment> \<open>\<open>dict(attrs).get(k)\<close>: the last of several equal keys counts\<close>
  "attr_get attrs k = jget (rev attrs) k"

definition attr_get_or :: "(string \<times> json) list \<Rightarrow> string \<Rightarrow> json \<Rightarrow> json" where
  "attr_get_or attrs k x = jget_or (rev attrs) k x"

fun route_rows :: "'w netlink \<Rightarrow> int \<Rightarrow> route_msg list \<Rightarrow> ('w, nlexn, json list) op" where
  "route_rows ipr table [] = ret []"
| "route_rows ipr table (r # rs) =
     bindm (if attr_get (rm_attrs r) ''RTA_OIF'' \<noteq> JNull
            then bindm (nl_get_links ipr (attr_get (rm_attrs r) ''RTA_OIF'')) (\<lambda>links.
                 ret (case links of [] \<Rightarrow> JNull | l # _ \<Rightarrow> attr_get l ''IFLA_IFNAME''))
            else ret JNull) (\<lambda>iface.
     bindm (route_rows ipr table rs) (\<lambda>rest.
     ret (JObj [(''destination'', attr_get_or (rm_attrs r) ''RTA_DST'' (JStr ''default'')),
       (''dst_len'', rm_dst_len r), (''gateway'', attr_get (rm_attrs r) ''RTA_GATEWAY''),
       (''interface'', iface), (''table'', JInt table)] # rest)))"

definition list_routes_sync :: "'w netlink \<Rightarrow> int \<Rightarrow> ('w, nlexn, json list) op" where
  "list_routes_sync ipr table = bindm (nl_get_routes ipr table) (route_rows ipr table)"

definition default_table :: int where
  "default_table = 254"

definition list_routes :: "'w netlink \<Rightarrow> int option \<Rightarrow> ('w, aexn, json list) op" where
  "list_routes ipr table =
     uncaught (list_routes_sync ipr (case table of None \<Rightarrow> default_table | Some t \<Rightarrow> t))"

section \<open>Adding and deleting\<close>

definition iface_index :: "'w netlink \<Rightarrow> string \<Rightarrow> ('w, aexn, int) op" where
  "iface_index ipr interface =
     bindm (uncaught (nl_link_lookup ipr interface)) (\<lambda>idx. case idx of
       [] \<Rightarrow> raise (HTTPExc 404 ''Unknown interface'') | i # _ \<Rightarrow> ret i)"

definition table_or_default :: "int option \<Rightarrow> int" where
  \<comment> \<open>\<open>payload.table or _DEFAULT_TABLE\<close>\<close>
  "table_or_default t = (case t of None \<Rightarrow> default_table | Some i \<Rightarrow> if i = 0 then default_table else i)"

definition add_route :: "'w netlink \<Rightarrow> string list \<Rightarrow> route_req \<Rightarrow> ('w, aexn, json) op" where
  "add_route ipr existing payload =
     bindm (assertm (rr_interface payload \<in> set existing) (HTTPExc 404 ''Unknown interface'')) (\<lambda>_.
     bindm (iface_index ipr (rr_interface payload)) (\<lambda>idx.
     bindm (netlink_or_400 ''Route could not be added''
       (nl_route ipr (RouteAdd (str_addr (naddr (rr_destination payload))) (nplen (rr_destination payload))
          (map_option str_addr (rr_gateway payload)) idx (table_or_default (rr_table payload))))) (\<lambda>_.
     ret status_ok)))"

definition delete_route :: "'w netlink \<Rightarrow> string list \<Rightarrow> route_delete_req \<Rightarrow> ('w, aexn, json) op" where
  "delete_route ipr existing payload =
     bindm (assertm (rd_interface payload \<in> set existing) (HTTPExc 404 ''Unknown interface'')) (\<lambda>_.
     bindm (iface_index ipr (rd_interface payload)) (\<lambda>idx.
     bindm (netlink_or_400 ''Route could not be removed''
       (nl_route ipr (RouteDel (str_addr (naddr (rd_destination payload))) (nplen (rd_destination payload))
          idx (table_or_default (rd_table payload))))) (\<lambda>_.
     ret status_ok)))"

section \<open>Adding and then deleting\<close>

definition kernel_ok :: "'w netlink \<Rightarrow> bool" where
  \<comment> \<open>what the kernel does with routes: deleting the route just added takes back the addition,
      and looking up an index changes nothing and does not depend on the routes\<close>
  "kernel_ok ipr \<longleftrightarrow>
     (\<forall>d l g i t w w'. nl_route ipr (RouteAdd d l g i t) w = (Inr (), w') \<longrightarrow>
        nl_route ipr (RouteDel d l i t) w' = (Inr (), w)) \<and>
     (\<forall>n. \<exists>r. \<forall>w. nl_link_lookup ipr n w = (r, w))"

definition delete_of :: "route_req \<Rightarrow> route_delete_req" where
  \<comment> \<open>the request to delete what a request adds\<close>
  "delete_of p = \<lparr>rd_destination = rr_destination p, rd_interface = rr_interface p, rd_table = rr_table p\<rparr>"

text \<open>A route that was added can be deleted: after a successful request to add a route, the
  request to delete the same destination on the same interface and table (a missing table
  meaning the main one in both) succeeds and leaves the kernel's routes as they were.\<close>

lemma delete_undoes_add_route:
  assumes "kernel_ok ipr" and "add_route ipr existing p w = (Inr r, w')"
  shows "delete_route ipr existing (delete_of p) w' = (Inr status_ok, w)"
proof -
  from assms(1) obtain lk where lk: "\<And>w. nl_link_lookup ipr (rr_interface p) w = (lk, w)"
    unfolding kernel_ok_def by blast
  have e: "rr_interface p \<in> set existing"
    using assms(2) by (auto simp: add_route_def assertm_bind split: if_splits)
  from assms(2) obtain i idxs where i: "lk = Inr (i # idxs)"
    by (auto simp: add_route_def assertm_def e iface_index_def uncaught_def lk bindm_def raise_def
        split: sum.splits nlexn.splits list.splits)
  have idx: "iface_index ipr (rr_interface p) w = (Inr i, w)" for w
    by (simp add: iface_index_def uncaught_def lk i bindm_def ret_def)
  let ?add = "RouteAdd (str_addr (naddr (rr_destination p))) (nplen (rr_destination p))
    (map_option str_addr (rr_gateway p)) i (table_or_default (rr_table p))"
  have "nl_route ipr ?add w = (Inr (), w')"
    using assms(2)
    by (auto simp: add_route_def assertm_def e bindm_def idx netlink_or_400_def ret_def
        split: prod.splits sum.splits nlexn.splits)
  then have "nl_route ipr (RouteDel (str_addr (naddr (rr_destination p))) (nplen (rr_destination p))
      i (table_or_default (rr_table p))) w' = (Inr (), w)"
    using assms(1) unfolding kernel_ok_def by blast
  then show ?thesis
    by (simp add: delete_route_def delete_of_def assertm_def e bindm_def idx netlink_or_400_def ret_def)
qed

definition table_kernel :: "(string \<times> nat \<times> int \<times> int) list netlink" where
  \<comment> \<open>a kernel whose state is the list of its routes\<close>
  "table_kernel = \<lparr>nl_get_routes = (\<lambda>t. ret []), nl_get_links = (\<lambda>i. ret []),
     nl_link_lookup = (\<lambda>n. ret (if n = ''eth0'' then [2] else [])),
     nl_route = (\<lambda>c rs. case c of
         RouteAdd d l g i t \<Rightarrow> if (d, l, i, t) \<in> set rs then (Inl (NetlinkError ''File exists''), rs)
           else (Inr (), (d, l, i, t) # rs)
       | RouteDel d l i t \<Rightarrow> if (d, l, i, t) \<in> set rs then (Inr (), remove1 (d, l, i, t) rs)
           else (Inl (NetlinkError ''No such process''), rs))\<rparr>"

lemma table_kernel_ok: "kernel_ok table_kernel"
  by (auto simp: kernel_ok_def table_kernel_def ret_def split: if_splits)

definition route_a :: route_req where
  "route_a = \<lparr>rr_destination = mk_net (addr_of_int V4 167772160) 8, rr_gateway = None,
     rr_interface = ''eth0'', rr_table = None\<rparr>"

lemma delete_undoes_add_route_witness:
  "delete_route table_kernel [''eth0''] (delete_of route_a)
     (snd (add_route table_kernel [''eth0''] route_a [])) = (Inr status_ok, [])"
proof -
  have "fst (add_route table_kernel [''eth0''] route_a []) = Inr status_ok"
    by (simp add: add_route_def route_a_def assertm_def bindm_def iface_index_def uncaught_def
        table_kernel_def ret_def netlink_or_400_def)
  then have "add_route table_kernel [''eth0''] route_a [] =
      (Inr status_ok, snd (add_route table_kernel [''eth0''] route_a []))" by (metis prod.collapse)
  from delete_undoes_add_route [OF table_kernel_ok this] show ?thesis .
qed

section \<open>What reaches the kernel\<close>

definition logging :: "'w netlink \<Rightarrow> ('w \<times> route_cmd list) netlink" where
  \<comment> \<open>the same kernel, with a log of the route requests it was sent\<close>
  "logging ipr =
     \<lparr>nl_get_routes = (\<lambda>t (w, l). case nl_get_routes ipr t w of (r, w') \<Rightarrow> (r, (w', l))),
      nl_get_links = (\<lambda>i (w, l). case nl_get_links ipr i w of (r, w') \<Rightarrow> (r, (w', l))),
      nl_link_lookup = (\<lambda>n (w, l). case nl_link_lookup ipr n w of (r, w') \<Rightarrow> (r, (w', l))),
      nl_route = (\<lambda>c (w, l). case nl_route ipr c w of (r, w') \<Rightarrow> (r, (w', l @ [c])))\<rparr>"

fun cmd_reads :: "route_req \<Rightarrow> int \<Rightarrow> route_cmd \<Rightarrow> bool" where
  \<comment> \<open>a request about the destination, gateway, interface and table of the body\<close>
  "cmd_reads p i (RouteAdd d l g oif t) \<longleftrightarrow> address_of V4 d = Some (naddr (rr_destination p)) \<and>
     l = nplen (rr_destination p) \<and> l \<le> 32 \<and> map_option (address_of V4) g = map_option Some (rr_gateway p) \<and>
     oif = i \<and> (case rr_table p of None \<Rightarrow> t = 254 | Some u \<Rightarrow> t = u) \<and> 1 \<le> t \<and> t \<le> 254 \<and> t \<noteq> 253"
| "cmd_reads p i (RouteDel d l oif t) \<longleftrightarrow> address_of V4 d = Some (naddr (rr_destination p)) \<and>
     l = nplen (rr_destination p) \<and> l \<le> 32 \<and>
     oif = i \<and> (case rr_table p of None \<Rightarrow> t = 254 | Some u \<Rightarrow> t = u) \<and> 1 \<le> t \<and> t \<le> 254 \<and> t \<noteq> 253"

lemma str_addr_reads: "v4_addr_ok a \<Longrightarrow> address_of V4 (str_addr a) = Some a"
  using address_of_str_v4 [of "aint a"]
  by (cases a) (auto simp: v4_addr_ok_def wf_addr_def str_addr_def addr_of_int_def simp del: address_of.simps)

lemma table_reads:
  assumes "route_req_ok p"
  shows "case rr_table p of None \<Rightarrow> table_or_default (rr_table p) = 254 | Some u \<Rightarrow> table_or_default (rr_table p) = u"
    and "1 \<le> table_or_default (rr_table p)" "table_or_default (rr_table p) \<le> 254" "table_or_default (rr_table p) \<noteq> 253"
  using assms by (auto simp: route_req_ok_def table_or_default_def default_table_def split: option.splits)

lemma cmds_read:
  assumes "route_req_ok p"
  shows "cmd_reads p i (RouteAdd (str_addr (naddr (rr_destination p))) (nplen (rr_destination p))
      (map_option str_addr (rr_gateway p)) i (table_or_default (rr_table p)))"
    and "cmd_reads p i (RouteDel (str_addr (naddr (rr_destination p))) (nplen (rr_destination p)) i
      (table_or_default (rr_table p)))"
proof -
  have n: "v4_addr_ok (naddr (rr_destination p))" "nplen (rr_destination p) \<le> 32"
    using assms by (auto simp: route_req_ok_def v4_net_ok_def v4_addr_ok_def wf_net_def)
  have g: "map_option (\<lambda>a. address_of V4 (str_addr a)) (rr_gateway p) = map_option Some (rr_gateway p)"
    using assms str_addr_reads by (cases "rr_gateway p") (auto simp: route_req_ok_def simp del: address_of.simps)
  show "cmd_reads p i (RouteAdd (str_addr (naddr (rr_destination p))) (nplen (rr_destination p))
      (map_option str_addr (rr_gateway p)) i (table_or_default (rr_table p)))"
    and "cmd_reads p i (RouteDel (str_addr (naddr (rr_destination p))) (nplen (rr_destination p)) i
      (table_or_default (rr_table p)))"
    using n g table_reads [OF assms]
    by (simp_all add: str_addr_reads option.map_comp comp_def del: address_of.simps)
qed

lemma index_logged:
  assumes "iface_index (logging ipr) n (w, l) = (r, (w', l'))"
  shows "l' = l \<and> (case r of Inr i \<Rightarrow> \<exists>is. fst (nl_link_lookup ipr n w) = Inr (i # is) | Inl e \<Rightarrow> True)"
  using assms
  by (auto simp: iface_index_def uncaught_def logging_def op_defs split: prod.splits sum.splits nlexn.splits list.splits)

lemma route_logged:
  assumes "netlink_or_400 d (nl_route (logging ipr) c) (w, l) = (r, (w', l'))"
  shows "l' = l @ [c]"
  using assms by (auto simp: netlink_or_400_def logging_def split: prod.splits sum.splits nlexn.splits)

text \<open>What a route request asks of the kernel: whatever the kernel answers, a validated request to
  add or to delete a route leads to at most one route request, and that one is about exactly the
  destination, gateway and interface of the body, in its table or the main one, never in a
  table the kernel reserves; none is sent for an unknown interface, and only a request that was
  sent is answered with ok.\<close>

lemma route_requests_exact:
  assumes "route_req_ok p"
    and "add_route (logging ipr) existing p (w, []) = (r, (w', adds))"
    and "delete_route (logging ipr) existing (delete_of p) (w, []) = (q, (v', dels))"
  shows "(adds = [] \<and> r \<noteq> Inr status_ok \<or> rr_interface p \<in> set existing \<and>
      (\<exists>i is c. fst (nl_link_lookup ipr (rr_interface p) w) = Inr (i # is) \<and> adds = [c] \<and> cmd_reads p i c)) \<and>
    (dels = [] \<and> q \<noteq> Inr status_ok \<or> rr_interface p \<in> set existing \<and>
      (\<exists>i is c. fst (nl_link_lookup ipr (rr_interface p) w) = Inr (i # is) \<and> dels = [c] \<and> cmd_reads p i c))"
proof (cases "rr_interface p \<in> set existing")
  case True
  obtain x w1 l1 where x: "iface_index (logging ipr) (rr_interface p) (w, []) = (x, (w1, l1))" by (metis surj_pair)
  note il = index_logged [OF x]
  show ?thesis
  proof (cases x)
    case (Inl e)
    with True assms(2,3) x il show ?thesis
      by (auto simp: add_route_def delete_route_def delete_of_def assertm_def bindm_def)
  next
    case (Inr i)
    with il obtain is' where i: "l1 = []" "fst (nl_link_lookup ipr (rr_interface p) w) = Inr (i # is')" by auto
    from True x Inr i assms(2) have "adds = [RouteAdd (str_addr (naddr (rr_destination p))) (nplen (rr_destination p))
        (map_option str_addr (rr_gateway p)) i (table_or_default (rr_table p))]"
      by (auto simp: add_route_def assertm_def bindm_def ret_def dest!: route_logged split: prod.splits sum.splits)
    moreover from True x Inr i assms(3) have "dels = [RouteDel (str_addr (naddr (rr_destination p)))
        (nplen (rr_destination p)) i (table_or_default (rr_table p))]"
      by (auto simp: delete_route_def delete_of_def assertm_def bindm_def ret_def dest!: route_logged
          split: prod.splits sum.splits)
    ultimately show ?thesis using cmds_read [OF assms(1), of i] i(2) True by blast
  qed
next
  case False
  with assms(2,3) show ?thesis
    by (auto simp: add_route_def delete_route_def delete_of_def assertm_bind)
qed

lemma route_requests_exact_witness:
  "\<exists>r w' adds. add_route (logging table_kernel) [''eth0''] route_a ([], []) = (r, (w', adds)) \<and>
     (adds = [] \<and> r \<noteq> Inr status_ok \<or> (\<exists>i c. adds = [c] \<and> cmd_reads route_a i c))"
proof -
  obtain r w' adds where a: "add_route (logging table_kernel) [''eth0''] route_a ([], []) = (r, (w', adds))"
    by (metis surj_pair)
  obtain q v' dels where d: "delete_route (logging table_kernel) [''eth0''] (delete_of route_a) ([], []) = (q, (v', dels))"
    by (metis surj_pair)
  have "wf_addr (addr_of_int V4 167772160)" by (simp add: wf_addr_def addr_of_int_def all_ones_def)
  then have "wf_net (mk_net (addr_of_int V4 167772160) 8)" by (intro wf_mk_net) (simp_all add: addr_of_int_def)
  moreover have "aver (naddr (mk_net (addr_of_int V4 167772160) 8)) = V4" by (simp add: addr_of_int_def)
  moreover have "ascope (naddr (mk_net (addr_of_int V4 167772160) 8)) = None"
    by (simp add: mk_net_def Let_def addr_of_int_def)
  ultimately have "route_req_ok route_a"
    by (simp add: route_req_ok_def route_a_def v4_net_ok_def iface_pattern_def iface_char_def is_ascii_alnum_def
        is_ascii_digit_def is_lower_az_def is_upper_az_def code_def)
  from route_requests_exact [OF this a d] a show ?thesis by blast
qed

end
