(* ===== verification/Web.thy ===== *)
theory Web
  imports Models
begin

text \<open>
  Signing in and the frame of the web application: src/app/auth.py, src/app/templating.py and
  src/app/main.py.

  The identity provider's library (authlib) and the template engine are parameters: what an
  authorisation redirect, a token exchange and the metadata of the provider give, and whether a
  page can be rendered.  So are the endpoints of the API (\<open>si_api\<close>, once the framework has read a
  body for them) and everything the framework answers without calling the application
  (\<open>si_framework\<close>: the mounted static files, its own documentation pages, other methods, other
  paths, malformed bodies).  The session is the signed cookie, an association list; requests run
  inside the layers of main.py: the exceptions of the framework (\<open>HTTPException\<close>) become
  responses inside, the security headers are added around that, and the handler of unexpected
  exceptions runs outside of everything, as Starlette places it.
\<close>

section \<open>Responses and exceptions\<close>

record response =
  rs_status :: nat
  rs_location :: "string option"
  rs_body :: string
  rs_headers :: "(string \<times> string) list"

datatype wexn =
    SeeOther string     \<comment> \<open>\<open>HTTPException(303, headers={"Location": ...})\<close>\<close>
  | App aexn

definition redirect :: "string \<Rightarrow> response" where
  \<comment> \<open>\<open>RedirectResponse(url=...)\<close>, up to the quoting of unusual characters\<close>
  "redirect url = \<lparr>rs_status = 307, rs_location = Some url, rs_body = [], rs_headers = []\<rparr>"

section \<open>The parameters\<close>

datatype idp_exn =
    Unreachable_IdP string   \<comment> \<open>an exception listed in \<open>_IDP_UNREACHABLE\<close>\<close>
  | Other_IdP string         \<comment> \<open>any other\<close>

record 'w site =
  si_authorize :: "jdict \<times> 'w \<Rightarrow> (idp_exn + response) \<times> jdict \<times> 'w"
  si_token :: "jdict \<times> 'w \<Rightarrow> (idp_exn + jdict) \<times> jdict \<times> 'w"
  si_metadata :: "jdict \<times> 'w \<Rightarrow> (idp_exn + jdict) \<times> jdict \<times> 'w"
  si_render :: "string \<Rightarrow> jdict \<Rightarrow> aexn + string"
  si_api :: "string \<Rightarrow> string \<Rightarrow> (json \<Rightarrow> 'w \<Rightarrow> (aexn + nat \<times> string) \<times> 'w) option"
  si_framework :: "string \<Rightarrow> string \<Rightarrow> response"

type_synonym ('w, 'a) web = "(jdict \<times> 'w, wexn, 'a) op"

section \<open>Pages\<close>

definition template :: "'w site \<Rightarrow> string \<Rightarrow> jdict \<Rightarrow> nat \<Rightarrow> (string \<times> string) list \<Rightarrow> aexn + response" where
  "template si name context status_code headers = (case si_render si name context of
     Inl e \<Rightarrow> Inl e
   | Inr body \<Rightarrow> Inr \<lparr>rs_status = status_code, rs_location = None, rs_body = body, rs_headers = headers\<rparr>)"

definition error_page :: "'w site \<Rightarrow> nat \<Rightarrow> string \<Rightarrow> string \<Rightarrow> string \<Rightarrow> string \<Rightarrow> (string \<times> string) list \<Rightarrow> aexn + response" where
  "error_page si status_code title message link_href link_text headers =
     template si ''error.html'' [(''title'', JStr title), (''message'', JStr message), (''link_href'', JStr link_href),
       (''link_text'', JStr link_text)] status_code headers"

definition page :: "aexn + response \<Rightarrow> ('w, response) web" where
  "page r s = ((case r of Inl e \<Rightarrow> Inl (App e) | Inr x \<Rightarrow> Inr x), s)"

section \<open>Signing in\<close>

definition current_user :: "('w, json) web" where
  "current_user s = (if truthy (jget (fst s) ''user'') then Inr (jget (fst s) ''user'')
     else Inl (SeeOther ''/auth/login''), s)"

definition login :: "'w site \<Rightarrow> ('w, response) web" where
  "login si s = (case si_authorize si s of
     (Inr resp, s') \<Rightarrow> (Inr resp, s')
   | (Inl (Unreachable_IdP e), s') \<Rightarrow>
       page (error_page si 503 ''Sign-in service unreachable''
         ''This device can't reach the sign-in service right now (often a DNS problem on the network). It usually recovers within a few minutes.''
         ''/auth/login'' ''Try again'' [(''Retry-After'', ''30'')]) s'
   | (Inl (Other_IdP e), s') \<Rightarrow> (Inl (App (AppExc e)), s'))"

definition login_failed :: wexn where
  "login_failed = App (HTTPExc 401 ''Login failed'')"

definition callback :: "'w site \<Rightarrow> ('w, response) web" where
  "callback si s = (case si_token si s of
     (Inl _, s') \<Rightarrow> (Inl login_failed, s')
   | (Inr token, s') \<Rightarrow>
       (let claims = jget token ''userinfo'' in
        if \<not> truthy claims then (Inl login_failed, s')
        else (case claims of
           JObj c \<Rightarrow>
             if \<not> truthy (jget c ''sub'') then (Inl login_failed, s')
             else (Inr (redirect ''/''),
               (AList.update ''user'' (JObj [(''sub'', jget c ''sub''), (''email'', jget c ''email''),
                  (''name'', jget c ''name'')]) (fst s'), snd s'))
         | _ \<Rightarrow> (Inl (App (AppExc ''AttributeError'')), s'))))"

definition logout :: "'w site \<Rightarrow> ('w, response) web" where
  "logout si s = (case si_metadata si ([], snd s) of
     (Inl (Unreachable_IdP e), s') \<Rightarrow>
       page (error_page si 200 ''Signed out''
         ''You're signed out of this device. The sign-in service couldn't be reached to end that session too.''
         ''/auth/login'' ''Sign in again'' []) s'
   | (Inl (Other_IdP e), s') \<Rightarrow> (Inl (App (AppExc e)), s')
   | (Inr metadata, s') \<Rightarrow>
       (let endpoint = jget metadata ''end_session_endpoint'' in
        if truthy endpoint then (Inr (redirect (py_str endpoint)), s')
        else (Inr (redirect ''/auth/login''), s')))"

section \<open>Routes\<close>

definition pages :: "(string \<times> string) list" where
  "pages = [(''/'', ''dashboard.html''), (''/network'', ''network.html''), (''/routing'', ''routing.html''),
     (''/wireguard'', ''wireguard.html'')]"

definition user_page :: "'w site \<Rightarrow> string \<Rightarrow> ('w, response) web" where
  "user_page si name = bindm current_user (\<lambda>user. page (template si name [(''user'', user)] 200 []))"

definition api_route :: "(json \<Rightarrow> 'w \<Rightarrow> (aexn + nat \<times> string) \<times> 'w) \<Rightarrow> ('w, response) web" where
  \<comment> \<open>every router is included with \<open>dependencies=[Depends(current_user)]\<close>\<close>
  "api_route h = bindm current_user (\<lambda>user s. case h user (snd s) of
     (Inl e, w) \<Rightarrow> (Inl (App e), (fst s, w))
   | (Inr (status, body), w) \<Rightarrow> (Inr \<lparr>rs_status = status, rs_location = None, rs_body = body, rs_headers = []\<rparr>, (fst s, w)))"

definition route :: "'w site \<Rightarrow> string \<Rightarrow> string \<Rightarrow> ('w, response) web" where
  "route si meth path =
     (if meth = ''GET'' \<and> path = ''/auth/login'' then login si
      else if meth = ''GET'' \<and> path = ''/auth/callback'' then callback si
      else if meth = ''GET'' \<and> path = ''/auth/logout'' then logout si
      else (case (if meth = ''GET'' then map_of pages path else None) of
         Some name \<Rightarrow> user_page si name
       | None \<Rightarrow> (case si_api si meth path of Some h \<Rightarrow> api_route h | None \<Rightarrow> ret (si_framework si meth path))))"

section \<open>The layers\<close>

definition exception_response :: "wexn \<Rightarrow> wexn + response" where
  \<comment> \<open>the framework's own answer to \<open>HTTPException\<close>\<close>
  "exception_response e = (case e of
     SeeOther loc \<Rightarrow> Inr \<lparr>rs_status = 303, rs_location = Some loc, rs_body = [], rs_headers = []\<rparr>
   | App (HTTPExc c d) \<Rightarrow> Inr \<lparr>rs_status = c, rs_location = None, rs_body = d, rs_headers = []\<rparr>
   | App (AppExc m) \<Rightarrow> Inl (App (AppExc m)))"

definition security_headers :: "(string \<times> string) list" where
  "security_headers = [(''X-Frame-Options'', ''DENY''), (''X-Content-Type-Options'', ''nosniff''),
     (''Content-Security-Policy'', ''default-src 'self'; img-src 'self' data:''),
     (''Strict-Transport-Security'', ''max-age=63072000; includeSubDomains''),
     (''Referrer-Policy'', ''no-referrer'')]"

definition add_headers :: "response \<Rightarrow> response" where
  "add_headers r = r\<lparr>rs_headers := fold (\<lambda>(k, v) hs. AList.update k v hs) security_headers (rs_headers r)\<rparr>"

definition unhandled_exception_handler :: "'w site \<Rightarrow> string \<Rightarrow> string \<Rightarrow> aexn + response" where
  "unhandled_exception_handler si meth path =
     (if meth = ''GET'' \<and> path \<noteq> ''/'' \<and> \<not> prefix ''/auth/'' path then Inr (redirect ''/'')
      else if meth = ''GET''
      then error_page si 500 ''Something went wrong'' ''The page couldn't be loaded.'' ''/'' ''Try again'' []
      else Inr \<lparr>rs_status = 500, rs_location = None, rs_body = ''Internal error'', rs_headers = []\<rparr>)"

definition server_error :: response where
  \<comment> \<open>what the server sends when that handler raises, too\<close>
  "server_error = \<lparr>rs_status = 500, rs_location = None, rs_body = ''Internal Server Error'', rs_headers = []\<rparr>"

definition serve :: "'w site \<Rightarrow> string \<Rightarrow> string \<Rightarrow> jdict \<times> 'w \<Rightarrow> response \<times> jdict \<times> 'w" where
  \<comment> \<open>one request; the cookie is only sent with a response that passed through the session layer\<close>
  "serve si meth path s = (case route si meth path s of
     (Inr r, s') \<Rightarrow> (add_headers r, s')
   | (Inl e, s') \<Rightarrow>
       (case exception_response e of
          Inr r \<Rightarrow> (add_headers r, s')
        | Inl _ \<Rightarrow> ((case unhandled_exception_handler si meth path of
                        Inr r \<Rightarrow> r | Inl _ \<Rightarrow> server_error), (fst s, snd s'))))"

section \<open>Security headers\<close>

lemma fold_update_map_of:
  "map_of (fold (\<lambda>(k, v) hs. AList.update k v hs) kvs hs) k = (map_of hs ++ map_of (rev kvs)) k"
  by (induction kvs arbitrary: hs) (auto simp: map_add_def split: option.splits)

lemma add_headers_all: "(k, v) \<in> set security_headers \<Longrightarrow> (k, v) \<in> set (rs_headers (add_headers r))"
proof (rule map_of_SomeD)
  assume kv: "(k, v) \<in> set security_headers"
  have "distinct (map fst (rev security_headers))" by (simp add: security_headers_def)
  moreover from kv have "(k, v) \<in> set (rev security_headers)" by simp
  ultimately have "map_of (rev security_headers) k = Some v" by (rule map_of_is_SomeI)
  then show "map_of (rs_headers (add_headers r)) k = Some v"
    by (simp add: add_headers_def fold_update_map_of)
qed

lemma handler_no_headers:
  "rs_headers (case unhandled_exception_handler si meth path of Inr r \<Rightarrow> r | Inl _ \<Rightarrow> server_error) = []"
  by (auto simp: unhandled_exception_handler_def redirect_def error_page_def template_def server_error_def
      split: sum.splits)

lemma crash_iff: "(\<exists>x. exception_response e = Inl x) \<longleftrightarrow> (\<exists>m. e = App (AppExc m))"
  by (auto simp: exception_response_def split: wexn.splits aexn.splits)

text \<open>The security headers are on every response, with the one exception of the responses to
  unexpected exceptions (the redirect to the start page, the error page and the JSON error):
  these are made outside of the layer that adds the headers, and have none of them.\<close>

lemma security_headers_unless_crash:
  "list_all (\<lambda>h. h \<in> set (rs_headers (fst (serve si meth path s)))) security_headers \<longleftrightarrow>
   (\<nexists>m. fst (route si meth path s) = Inl (App (AppExc m)))"
proof (cases "\<exists>m. fst (route si meth path s) = Inl (App (AppExc m))")
  case True
  then obtain m s' where "route si meth path s = (Inl (App (AppExc m)), s')" by (metis prod.collapse)
  then have "rs_headers (fst (serve si meth path s)) = []"
    using handler_no_headers by (simp add: serve_def exception_response_def)
  then show ?thesis using True by (simp add: security_headers_def)
next
  case False
  obtain q s' where q: "route si meth path s = (q, s')" by (meson surj_pair)
  have "\<exists>r. fst (serve si meth path s) = add_headers r"
  proof (cases q)
    case (Inl e)
    with False q have "\<not> (\<exists>m. e = App (AppExc m))" by simp
    then obtain r where "exception_response e = Inr r" using crash_iff by (metis sum.exhaust)
    with q Inl show ?thesis by (auto simp: serve_def)
  qed (use q in \<open>auto simp: serve_def\<close>)
  then show ?thesis using False add_headers_all by (auto simp: list_all_iff)
qed

section \<open>The gate\<close>

definition auth_paths :: "string list" where
  "auth_paths = [''/auth/login'', ''/auth/callback'', ''/auth/logout'']"

definition known_path :: "'w site \<Rightarrow> string \<Rightarrow> string \<Rightarrow> bool" where
  "known_path si meth path \<longleftrightarrow> meth = ''GET'' \<and> map_of pages path \<noteq> None \<or> si_api si meth path \<noteq> None"

lemma route_protected:
  assumes "path \<notin> set auth_paths"
  shows "route si meth path = (case (if meth = ''GET'' then map_of pages path else None) of
      Some name \<Rightarrow> user_page si name
    | None \<Rightarrow> (case si_api si meth path of Some h \<Rightarrow> api_route h | None \<Rightarrow> ret (si_framework si meth path)))"
  using assms by (simp add: route_def auth_paths_def)

text \<open>C12: nothing without signing in: whatever the request, as long as its session has no user and it
  is not one of the three sign-in routes, no handler runs and nothing changes; a page or an
  endpoint of the API sends the browser to the sign-in route, and everything else gets what the
  framework answers without the application.\<close>

theorem gate_closed:
  assumes "\<not> truthy (jget (fst s) ''user'')" and "path \<notin> set auth_paths"
  shows "snd (serve si meth path s) = s \<and>
    (if known_path si meth path
     then rs_status (fst (serve si meth path s)) = 303 \<and>
       rs_location (fst (serve si meth path s)) = Some ''/auth/login''
     else fst (serve si meth path s) = add_headers (si_framework si meth path))"
proof -
  have r: "route si meth path s =
      ((if known_path si meth path then Inl (SeeOther ''/auth/login'') else Inr (si_framework si meth path)), s)"
    unfolding route_protected [OF assms(2)] using assms(1)
    by (auto simp: known_path_def user_page_def api_route_def bindm_def current_user_def ret_def
        split: option.splits)
  show ?thesis
    by (cases "known_path si meth path") (simp_all add: serve_def r exception_response_def add_headers_def)
qed

definition test_site :: "unit site" where
  \<comment> \<open>a provider that can be reached, one API endpoint, and templates that render\<close>
  "test_site = \<lparr>si_authorize = (\<lambda>s. (Inr (redirect ''https://sso.example/authorize''), s)),
     si_token = (\<lambda>s. (Inr [(''userinfo'', JObj [(''sub'', JStr ''u1'')])], s)),
     si_metadata = (\<lambda>s. (Inr [], s)), si_render = (\<lambda>n c. Inr n),
     si_api = (\<lambda>m p. if p = ''/api/system/reboot'' then Some (\<lambda>u w. (Inr (200, ''ok''), w)) else None),
     si_framework = (\<lambda>m p. \<lparr>rs_status = 404, rs_location = None, rs_body = ''Not Found'', rs_headers = []\<rparr>)\<rparr>"

theorem gate_closed_witness:
  "snd (serve test_site ''POST'' ''/api/system/reboot'' ([], ())) = ([], ()) \<and>
   rs_status (fst (serve test_site ''POST'' ''/api/system/reboot'' ([], ()))) = 303"
  using gate_closed [of "([], ())" "''/api/system/reboot''" test_site "''POST''"]
  by (simp add: jget_def auth_paths_def known_path_def test_site_def)

section \<open>Who is signed in\<close>

definition keeps_user :: "'w site \<Rightarrow> bool" where
  \<comment> \<open>the provider's library keeps its own entries in the session and leaves the user's alone\<close>
  "keeps_user si \<longleftrightarrow>
     (\<forall>s r s'. si_authorize si s = (r, s') \<longrightarrow> jget (fst s') ''user'' = jget (fst s) ''user'') \<and>
     (\<forall>s r s'. si_token si s = (r, s') \<longrightarrow> jget (fst s') ''user'' = jget (fst s) ''user'') \<and>
     (\<forall>s r s'. si_metadata si s = (r, s') \<longrightarrow> jget (fst s') ''user'' = jget (fst s) ''user'')"

definition session_user :: "jdict \<Rightarrow> json" where
  \<comment> \<open>what is kept of the claims\<close>
  "session_user c = JObj [(''sub'', jget c ''sub''), (''email'', jget c ''email''), (''name'', jget c ''name'')]"

lemma jget_update: "jget (AList.update k v d) k' = (if k' = k then v else jget d k')"
  by (simp add: jget_def)

lemma route_user:
  assumes "keeps_user si" and "route si meth path s = (r, s')"
  shows "jget (fst s') ''user'' = jget (fst s) ''user'' \<or> jget (fst s') ''user'' = JNull \<or>
    (meth = ''GET'' \<and> path = ''/auth/callback'' \<and> (\<exists>token c s1. si_token si s = (Inr token, s1) \<and>
      jget token ''userinfo'' = JObj c \<and> truthy (jget c ''sub'') \<and> jget (fst s') ''user'' = session_user c))"
proof -
  note k = assms(1) [unfolded keeps_user_def]
  consider (login) "meth = ''GET''" "path = ''/auth/login''" | (callback) "meth = ''GET''" "path = ''/auth/callback''"
    | (logout) "meth = ''GET''" "path = ''/auth/logout''"
    | (other) "route si meth path s = (case (if meth = ''GET'' then map_of pages path else None) of
        Some name \<Rightarrow> user_page si name
      | None \<Rightarrow> (case si_api si meth path of Some h \<Rightarrow> api_route h | None \<Rightarrow> ret (si_framework si meth path))) s"
    using route_protected [of path si meth] unfolding route_def auth_paths_def
    by (cases "meth = ''GET''"; cases "path = ''/auth/login''"; cases "path = ''/auth/callback''";
        cases "path = ''/auth/logout''") simp_all
  then show ?thesis
  proof cases
    case login
    have "fst s' = fst (snd (si_authorize si s))"
      using assms(2) login
      by (auto simp: route_def login_def page_def split: prod.splits sum.splits idp_exn.splits)
    then show ?thesis using k by (metis prod.collapse)
  next
    case callback
    show ?thesis
    proof -
      obtain q s1 where Pair: "si_token si s = (q, s1)" by (meson surj_pair)
      then have u: "jget (fst s1) ''user'' = jget (fst s) ''user''" using k by blast
      show ?thesis
      proof (cases q)
        case (Inl e)
        with Pair u callback assms(2) show ?thesis by (simp add: route_def callback_def)
      next
        case (Inr token)
        with Pair u callback assms(2) show ?thesis
          by (auto simp: route_def callback_def Let_def session_user_def jget_update split: if_splits json.splits)
      qed
    qed
  next
    case logout
    have "fst s' = fst (snd (si_metadata si ([], snd s)))"
      using assms(2) logout
      by (auto simp: route_def logout_def page_def Let_def split: prod.splits sum.splits idp_exn.splits if_splits)
    moreover have "jget (fst (snd (si_metadata si ([], snd s)))) ''user'' = JNull"
      using k by (metis fst_conv jget_def map_of.simps(1) option.case(1) prod.collapse)
    ultimately show ?thesis by simp
  next
    case other
    then have "fst s' = fst s"
      using assms(2)
      by (auto simp: user_page_def api_route_def bindm_def current_user_def page_def ret_def
          split: option.splits if_splits prod.splits sum.splits)
    then show ?thesis by simp
  qed
qed

text \<open>C28: only the identity provider signs users in: when a request leaves a user in the session that
  was not there, it was the callback, the provider's library had verified the token, the claims
  name a subject, and the session holds the three claims and nothing else of the token.\<close>

theorem only_callback_signs_in:
  assumes "keeps_user si" and "serve si meth path s = (r, s')" and "truthy (jget (fst s') ''user'')"
    and "jget (fst s') ''user'' \<noteq> jget (fst s) ''user''"
  shows "meth = ''GET'' \<and> path = ''/auth/callback'' \<and>
    (\<exists>token c s1. si_token si s = (Inr token, s1) \<and> jget token ''userinfo'' = JObj c \<and>
      truthy (jget c ''sub'') \<and> jget (fst s') ''user'' = session_user c)"
proof -
  obtain q s1 where q: "route si meth path s = (q, s1)" by (meson surj_pair)
  have "fst s' = fst s1 \<or> fst s' = fst s"
    using assms(2) q by (auto simp: serve_def split: sum.splits)
  then have "jget (fst s') ''user'' = jget (fst s1) ''user''" using assms(4) by auto
  with route_user [OF assms(1) q] assms(3,4) show ?thesis by auto
qed

theorem only_callback_signs_in_witness:
  "\<exists>s'. serve test_site ''GET'' ''/auth/callback'' ([], ()) = (add_headers (redirect ''/''), s') \<and>
    (\<exists>c. jget c ''sub'' = JStr ''u1'' \<and> jget (fst s') ''user'' = session_user c)"
proof -
  let ?s = "([(''user'', JObj [(''sub'', JStr ''u1''), (''email'', JNull), (''name'', JNull)])], ())"
  have k: "keeps_user test_site" by (simp add: keeps_user_def test_site_def)
  have s: "serve test_site ''GET'' ''/auth/callback'' ([], ()) = (add_headers (redirect ''/''), ?s)"
    by (simp add: serve_def route_def callback_def test_site_def jget_def)
  from only_callback_signs_in [OF k s] have "\<exists>token c s1. si_token test_site ([], ()) = (Inr token, s1) \<and>
      jget token ''userinfo'' = JObj c \<and> truthy (jget c ''sub'') \<and> jget (fst ?s) ''user'' = session_user c"
    by (simp add: jget_def)
  then have "jget [(''sub'', JStr ''u1'')] ''sub'' = JStr ''u1'' \<and>
      jget (fst ?s) ''user'' = session_user [(''sub'', JStr ''u1'')]"
    by (auto simp: test_site_def jget_def)
  then have "\<exists>c. jget c ''sub'' = JStr ''u1'' \<and> jget (fst ?s) ''user'' = session_user c"
    by blast
  with s show ?thesis by auto
qed

section \<open>Redirects\<close>

definition local_target :: "response \<Rightarrow> string option" where
  \<comment> \<open>where on this device the response sends the browser, if it does\<close>
  "local_target r = (case rs_location r of None \<Rightarrow> None | Some u \<Rightarrow> if prefix ''/'' u then Some u else None)"

definition external_idp :: "'w site \<Rightarrow> bool" where
  \<comment> \<open>the provider's own addresses are absolute\<close>
  "external_idp si \<longleftrightarrow>
     (\<forall>s r s'. si_authorize si s = (Inr r, s') \<longrightarrow> local_target r = None) \<and>
     (\<forall>s d s'. si_metadata si s = (Inr d, s') \<longrightarrow>
        truthy (jget d ''end_session_endpoint'') \<longrightarrow> \<not> prefix ''/'' (py_str (jget d ''end_session_endpoint'')))"

definition framework_direct :: "'w site \<Rightarrow> bool" where
  \<comment> \<open>the framework redirects from a path it does not know, if at all, to one that is served\<close>
  "framework_direct si \<longleftrightarrow> (\<forall>path u. local_target (si_framework si ''GET'' path) = Some u \<longrightarrow>
     u \<in> set auth_paths \<or> known_path si ''GET'' u \<or> local_target (si_framework si ''GET'' u) = None)"

definition rank :: "'w site \<Rightarrow> string \<Rightarrow> nat" where
  "rank si path = (if path = ''/auth/login'' then 0 else if path = ''/'' then 1
     else if path \<in> set auth_paths \<or> known_path si ''GET'' path then 2
     else if local_target (si_framework si ''GET'' path) = None then 0 else 3)"

fun follow :: "'w site \<Rightarrow> nat \<Rightarrow> string \<Rightarrow> jdict \<times> 'w \<Rightarrow> (response \<times> jdict \<times> 'w) option" where
  \<comment> \<open>a browser that follows redirects inside the device\<close>
  "follow si 0 path s = None"
| "follow si (Suc n) path s = (case serve si ''GET'' path s of (r, s') \<Rightarrow>
     (case local_target r of None \<Rightarrow> Some (r, s') | Some u \<Rightarrow> follow si n u s'))"

lemma local_add_headers [simp]: "local_target (add_headers r) = local_target r"
  by (simp add: local_target_def add_headers_def)

lemma local_redirect [simp]: "local_target (redirect u) = (if prefix ''/'' u then Some u else None)"
  by (simp add: local_target_def redirect_def)

lemma error_page_local: "error_page si c t m h l hs = Inr r \<Longrightarrow> local_target r = None"
  by (auto simp: error_page_def template_def local_target_def split: sum.splits)

lemma handler_local:
  "local_target (case unhandled_exception_handler si meth path of Inr r \<Rightarrow> r | Inl _ \<Rightarrow> server_error) = Some u \<Longrightarrow>
   u = ''/'' \<and> path \<noteq> ''/'' \<and> \<not> prefix ''/auth/'' path"
  by (auto simp: unhandled_exception_handler_def server_error_def local_target_def redirect_def
      error_page_def template_def split: if_splits sum.splits)

lemma http_local:
  assumes "exception_response e = Inr r" and "local_target r = Some u"
  shows "e = SeeOther u"
  using assms by (auto simp: exception_response_def local_target_def split: wexn.splits aexn.splits if_splits)

lemma route_raises:
  assumes "route si ''GET'' path s = (Inl e, s')"
  shows "path \<in> set auth_paths \<or> known_path si ''GET'' path"
proof (cases "path \<in> set auth_paths")
  case False
  with assms show ?thesis
    unfolding route_protected [OF False] by (auto simp: known_path_def ret_def split: option.splits)
qed simp

lemma route_see_other:
  assumes "route si ''GET'' path s = (Inl (SeeOther u), s')"
  shows "u = ''/auth/login'' \<and> path \<noteq> ''/auth/login''"
  using assms
  by (auto simp: route_def login_def callback_def logout_def user_page_def api_route_def bindm_def current_user_def
      page_def ret_def login_failed_def Let_def
      split: prod.splits sum.splits idp_exn.splits if_splits json.splits option.splits)

lemma route_local:
  assumes "external_idp si" and "route si ''GET'' path s = (Inr r, s')" and "local_target r = Some u"
  shows "path = ''/auth/callback'' \<and> u = ''/'' \<or> path = ''/auth/logout'' \<and> u = ''/auth/login'' \<or>
    path \<notin> set auth_paths \<and> \<not> known_path si ''GET'' path \<and> r = si_framework si ''GET'' path"
proof -
  have a: "local_target r' = None" if "si_authorize si s = (Inr r', s1)" for r' s1
    using assms(1) that unfolding external_idp_def by blast
  have x: "\<not> prefix ''/'' (py_str (jget d ''end_session_endpoint''))"
    if "si_metadata si s0 = (Inr d, s1)" "truthy (jget d ''end_session_endpoint'')" for d s0 s1
    using assms(1) that unfolding external_idp_def by blast
  consider (login) "path = ''/auth/login''" | (callback) "path = ''/auth/callback''"
    | (logout) "path = ''/auth/logout''" | (other) "path \<notin> set auth_paths"
    by (auto simp: auth_paths_def)
  then show ?thesis
  proof cases
    case login
    with assms(2,3) show ?thesis
      by (auto simp: route_def login_def page_def split: prod.splits sum.splits idp_exn.splits
          dest: error_page_local a)
  next
    case callback
    with assms(2,3) show ?thesis
      by (auto simp: route_def callback_def Let_def split: prod.splits sum.splits if_splits json.splits)
  next
    case logout
    with assms(2,3) show ?thesis
      by (auto simp: route_def logout_def Let_def page_def split: prod.splits sum.splits idp_exn.splits if_splits
          dest: error_page_local x)
  next
    case other
    show ?thesis
    proof (cases "known_path si ''GET'' path")
      case True
      with assms(2) have "rs_location r = None"
        unfolding route_protected [OF other]
        by (auto simp: known_path_def user_page_def api_route_def bindm_def current_user_def page_def template_def
            split: option.splits if_splits prod.splits sum.splits)
      with assms(3) show ?thesis by (simp add: local_target_def)
    next
      case False
      with assms(2) other show ?thesis
        unfolding route_protected [OF other] by (auto simp: known_path_def ret_def split: option.splits)
    qed
  qed
qed

lemma pages_known: "known_path si ''GET'' ''/''"
  by (simp add: known_path_def pages_def)

lemma serve_rank:
  assumes "external_idp si" and "framework_direct si"
    and "serve si ''GET'' path s = (r, s')" and "local_target r = Some u"
  shows "rank si u < rank si path"
proof -
  obtain q s1 where q: "route si ''GET'' path s = (q, s1)" by (meson surj_pair)
  show ?thesis
  proof (cases q)
    case (Inr x)
    have "r = add_headers x" using assms(3) q Inr by (simp add: serve_def)
    then have x: "route si ''GET'' path s = (Inr x, s1)" "local_target x = Some u"
      using assms(4) q Inr by simp_all
    from route_local [OF assms(1) x] consider
      "path = ''/auth/callback'' \<and> u = ''/''" | "path = ''/auth/logout'' \<and> u = ''/auth/login''"
      | "path \<notin> set auth_paths \<and> \<not> known_path si ''GET'' path \<and> x = si_framework si ''GET'' path"
      by blast
    then show ?thesis
    proof cases
      case 3
      with x(2) have "local_target (si_framework si ''GET'' path) = Some u" by simp
      with assms(2) have "u \<in> set auth_paths \<or> known_path si ''GET'' u \<or>
          local_target (si_framework si ''GET'' u) = None"
        unfolding framework_direct_def by meson
      then have "rank si u < 3" by (auto simp: rank_def)
      moreover from 3 x(2) have "rank si path = 3"
        using pages_known [of si] by (auto simp: rank_def auth_paths_def)
      ultimately show ?thesis by simp
    qed (auto simp: rank_def auth_paths_def)
  next
    case (Inl e)
    with q have "route si ''GET'' path s = (Inl e, s1)" by simp
    then have e: "path \<in> set auth_paths \<or> known_path si ''GET'' path" by (rule route_raises)
    show ?thesis
    proof (cases "exception_response e")
      case (Inr x)
      have "r = add_headers x" using assms(3) q Inl Inr by (simp add: serve_def)
      then have "local_target x = Some u" using assms(4) by simp
      with http_local [OF Inr] Inl q have "route si ''GET'' path s = (Inl (SeeOther u), s1)" by simp
      from route_see_other [OF this] e show ?thesis by (auto simp: rank_def)
    next
      case (Inl y)
      then have "r = (case unhandled_exception_handler si ''GET'' path of Inr r \<Rightarrow> r | Inl _ \<Rightarrow> server_error)"
        using assms(3) q \<open>q = Inl e\<close> by (simp add: serve_def)
      with handler_local [of si "''GET''" path u] assms(4)
      have "u = ''/''" "path \<noteq> ''/''" "path \<noteq> ''/auth/login''" by auto
      with e show ?thesis by (auto simp: rank_def)
    qed
  qed
qed

lemma follow_ends:
  "external_idp si \<Longrightarrow> framework_direct si \<Longrightarrow> rank si path < n \<Longrightarrow> follow si n path s \<noteq> None"
proof (induction n arbitrary: path s)
  case (Suc n)
  obtain r s' where r: "serve si ''GET'' path s = (r, s')" by (meson surj_pair)
  show ?case
  proof (cases "local_target r")
    case (Some u)
    with serve_rank [OF Suc.prems(1,2) r] Suc.prems(3) have "rank si u < n" by fastforce
    from Suc.IH [OF Suc.prems(1,2) this] r Some show ?thesis by simp
  qed (simp add: r)
qed simp

text \<open>C29: no redirect loops: wherever a browser starts, whatever its session, and whatever fails on
  the way (the provider, a template, a handler), it has a response that does not send it to this
  device again after at most four requests, and after at most three from a path the application
  serves.\<close>

theorem redirects_end:
  assumes "external_idp si" and "framework_direct si"
  shows "\<exists>r s'. follow si (if path \<in> set auth_paths \<or> known_path si ''GET'' path then 3 else 4) path s = Some (r, s')"
proof -
  have "rank si path < (if path \<in> set auth_paths \<or> known_path si ''GET'' path then 3 else 4)"
    by (simp add: rank_def)
  with follow_ends [OF assms] show ?thesis by (metis option.exhaust surj_pair)
qed

theorem redirects_end_witness:
  "\<exists>r s'. follow test_site 3 ''/network'' ([], ()) = Some (r, s')"
proof -
  have "external_idp test_site" "framework_direct test_site"
    by (simp_all add: external_idp_def framework_direct_def test_site_def jget_def redirect_def local_target_def)
  from redirects_end [OF this, of "''/network''" "([], ())"] show ?thesis
    by (simp add: known_path_def pages_def)
qed

end
