(* ===== verification/Dates.thy ===== *)
theory Dates
  imports Complex_Main PyText
begin

text \<open>
  What the application uses of Python's \<open>datetime\<close>: aware values in UTC, their text
  (\<open>isoformat\<close>), the reader of that text, and the difference of two values in seconds.  The
  calendar is the one of CPython's own implementation: days are counted from 1 January of year 1.
  Numbers with a fraction are rationals; the rounding of floating point is not modelled.
\<close>

section \<open>Values\<close>

record dt =
  dt_year :: nat
  dt_month :: nat
  dt_day :: nat
  dt_hour :: nat
  dt_minute :: nat
  dt_second :: nat
  dt_micro :: nat

definition leap :: "nat \<Rightarrow> bool" where
  "leap y \<longleftrightarrow> y mod 4 = 0 \<and> (y mod 100 \<noteq> 0 \<or> y mod 400 = 0)"

definition days_in_month :: "nat \<Rightarrow> nat \<Rightarrow> nat" where
  "days_in_month y m = (if m = 2 then (if leap y then 29 else 28)
     else if m \<in> {4, 6, 9, 11} then 30 else 31)"

definition valid_dt :: "dt \<Rightarrow> bool" where
  "valid_dt d \<longleftrightarrow> 1 \<le> dt_year d \<and> dt_year d \<le> 9999 \<and> 1 \<le> dt_month d \<and> dt_month d \<le> 12 \<and>
     1 \<le> dt_day d \<and> dt_day d \<le> days_in_month (dt_year d) (dt_month d) \<and>
     dt_hour d < 24 \<and> dt_minute d < 60 \<and> dt_second d < 60 \<and> dt_micro d < 1000000"

definition days_before_year :: "nat \<Rightarrow> nat" where
  "days_before_year y = (let y = y - 1 in y * 365 + y div 4 - y div 100 + y div 400)"

definition days_before_month :: "nat \<Rightarrow> nat \<Rightarrow> nat" where
  "days_before_month y m = sum_list (map (days_in_month y) [1..<m])"

definition ordinal :: "dt \<Rightarrow> nat" where
  "ordinal d = days_before_year (dt_year d) + days_before_month (dt_year d) (dt_month d) + dt_day d"

definition micros :: "dt \<Rightarrow> int" where
  \<comment> \<open>microseconds since the start of the calendar\<close>
  "micros d = (((int (ordinal d) * 24 + int (dt_hour d)) * 60 + int (dt_minute d)) * 60 +
     int (dt_second d)) * 1000000 + int (dt_micro d)"

definition total_seconds :: "dt \<Rightarrow> dt \<Rightarrow> rat" where
  \<comment> \<open>\<open>(a - b).total_seconds()\<close>\<close>
  "total_seconds a b = Fract (micros a - micros b) 1000000"

section \<open>Text\<close>

definition zpad :: "nat \<Rightarrow> nat \<Rightarrow> string" where
  \<comment> \<open>the decimal digits with leading zeros up to a width\<close>
  "zpad w n = replicate (w - length (dec n)) (CHR ''0'') @ dec n"

definition isoformat :: "dt \<Rightarrow> string" where
  "isoformat d = zpad 4 (dt_year d) @ ''-'' @ zpad 2 (dt_month d) @ ''-'' @ zpad 2 (dt_day d) @ ''T'' @
     zpad 2 (dt_hour d) @ '':'' @ zpad 2 (dt_minute d) @ '':'' @ zpad 2 (dt_second d) @
     (if dt_micro d = 0 then [] else ''.'' @ zpad 6 (dt_micro d)) @ ''+00:00''"

definition iso_fields :: "string \<Rightarrow> dt" where
  "iso_fields s = (let f = (\<lambda>i n. undec (take n (drop i s))) in
     \<lparr>dt_year = f 0 4, dt_month = f 5 2, dt_day = f 8 2, dt_hour = f 11 2, dt_minute = f 14 2,
      dt_second = f 17 2, dt_micro = (if s ! 19 = CHR ''.'' then f 20 6 else 0)\<rparr>)"

definition read_iso :: "string \<Rightarrow> dt option" where
  \<comment> \<open>the value whose \<open>isoformat\<close> is this text\<close>
  "read_iso s = (if length s \<ge> 25 \<and> valid_dt (iso_fields s) \<and> isoformat (iso_fields s) = s
     then Some (iso_fields s) else None)"

lemma undec_replicate: "undec (replicate k (CHR ''0'') @ s) = undec s"
  by (induction k) (simp_all add: undec_def code_def)

lemma undec_zpad [simp]: "undec (zpad w n) = n"
  by (simp add: zpad_def undec_replicate)

lemma length_dec_bound: "n < 10 ^ w \<Longrightarrow> 0 < w \<Longrightarrow> length (dec n) \<le> w"
proof (induction w arbitrary: n)
  case (Suc w)
  show ?case
  proof (cases "n < 10")
    case True
    then show ?thesis by (simp add: dec.simps [of n])
  next
    case False
    with Suc.prems have "0 < w" by (cases w) auto
    moreover from Suc.prems have "n div 10 < 10 ^ w" by auto
    ultimately have "length (dec (n div 10)) \<le> w" by (intro Suc.IH)
    then show ?thesis by (subst dec.simps) auto
  qed
qed simp

lemma length_zpad: "n < 10 ^ w \<Longrightarrow> 0 < w \<Longrightarrow> length (zpad w n) = w"
  using length_dec_bound [of n w] by (simp add: zpad_def)

lemma valid_dt_widths:
  assumes "valid_dt d"
  shows "length (zpad 4 (dt_year d)) = 4" "length (zpad 2 (dt_month d)) = 2" "length (zpad 2 (dt_day d)) = 2"
    "length (zpad 2 (dt_hour d)) = 2" "length (zpad 2 (dt_minute d)) = 2" "length (zpad 2 (dt_second d)) = 2"
    "length (zpad 6 (dt_micro d)) = 6"
proof -
  have "dt_day d < 100"
    using assms by (auto simp: valid_dt_def days_in_month_def split: if_splits)
  then show "length (zpad 4 (dt_year d)) = 4" "length (zpad 2 (dt_month d)) = 2" "length (zpad 2 (dt_day d)) = 2"
    "length (zpad 2 (dt_hour d)) = 2" "length (zpad 2 (dt_minute d)) = 2" "length (zpad 2 (dt_second d)) = 2"
    "length (zpad 6 (dt_micro d)) = 6"
    using assms by (auto intro!: length_zpad simp: valid_dt_def)
qed

lemma take_drop_field:
  "length a = i \<Longrightarrow> length b = n \<Longrightarrow> take n (drop i (a @ b @ c)) = b"
  by simp

lemma iso_fields_isoformat:
  assumes "valid_dt d"
  shows "iso_fields (isoformat d) = d"
proof -
  note w = valid_dt_widths [OF assms]
  have "undec (take 6 (zpad 6 (dt_micro d) @ t)) = dt_micro d" for t using w by simp
  with w show ?thesis
    by (cases d) (auto simp: iso_fields_def isoformat_def Let_def nth_append numeral_eq_Suc)
qed

theorem read_iso_isoformat: "valid_dt d \<Longrightarrow> read_iso (isoformat d) = Some d"
  using valid_dt_widths [of d] by (simp add: read_iso_def iso_fields_isoformat) (simp add: isoformat_def)

lemma isoformat_not_Nil [simp]: "isoformat d \<noteq> []"
  by (simp add: isoformat_def)

section \<open>From the clock\<close>

definition ord2ymd :: "nat \<Rightarrow> nat \<times> nat \<times> nat" where
  \<comment> \<open>year, month and day of the ordinal \<open>n + 1\<close>, by cycles of 400, 100, 4 and 1 years\<close>
  "ord2ymd n =
     (let n400 = n div 146097; n = n mod 146097;
          n100 = n div 36524; n = n mod 36524;
          n4 = n div 1461; n = n mod 1461;
          n1 = n div 365; n = n mod 365;
          y = n400 * 400 + n100 * 100 + n4 * 4 + n1 + 1
      in if n1 = 4 \<or> n100 = 4 then (y - 1, 12, 31)
         else (let m = Suc (length (takeWhile (\<lambda>m. days_before_month y (Suc m) \<le> n) [1..<12]))
               in (y, m, n - days_before_month y m + 1)))"

definition fromtimestamp :: "nat \<Rightarrow> dt" where
  \<comment> \<open>\<open>datetime.fromtimestamp(t, tz=timezone.utc)\<close> of a whole number of seconds\<close>
  "fromtimestamp t = (case ord2ymd (t div 86400 + 719162) of (y, m, d) \<Rightarrow>
     \<lparr>dt_year = y, dt_month = m, dt_day = d, dt_hour = t mod 86400 div 3600,
      dt_minute = t mod 3600 div 60, dt_second = t mod 60, dt_micro = 0\<rparr>)"

end
