(* ===== verification/Metrics.thy ===== *)
theory Metrics
  imports Dates HelperClient
begin

text \<open>
  The collectors of src/app/metrics.py, shared by the dashboard and the telemetry agent: the
  state file of the monitor, the CPU temperature, the uptime, the boot time, and the rates of the
  network counters.  What is read from the system (the thermal zones, /proc/uptime, psutil's
  counters and clocks) is an argument.  Numbers with a fraction are rationals.
\<close>

section \<open>Python values\<close>

datatype pyval =
    PNone
  | PBool bool
  | PNum rat
  | PStr string
  | PList "pyval list"
  | PDict "(string \<times> pyval) list"

type_synonym pydict = "(string \<times> pyval) list"

definition pget :: "pydict \<Rightarrow> string \<Rightarrow> pyval" where
  \<comment> \<open>\<open>d.get(k)\<close>\<close>
  "pget d k = (case map_of d k of None \<Rightarrow> PNone | Some v \<Rightarrow> v)"

fun ptruthy :: "pyval \<Rightarrow> bool" where
  "ptruthy PNone = False"
| "ptruthy (PBool b) = b"
| "ptruthy (PNum r) = (r \<noteq> 0)"
| "ptruthy (PStr s) = (s \<noteq> [])"
| "ptruthy (PList vs) = (vs \<noteq> [])"
| "ptruthy (PDict d) = (d \<noteq> [])"

lemma pget_update: "pget (AList.update k v d) k' = (if k' = k then v else pget d k')"
  by (simp add: pget_def)

lemma pget_Nil [simp]: "pget [] k = PNone"
  by (simp add: pget_def)

section \<open>The state file\<close>

datatype json_file =
    NoFile
  | Unreadable        \<comment> \<open>reading raises \<open>OSError\<close>, or the text is not JSON\<close>
  | NotText           \<comment> \<open>the bytes are not UTF-8: \<open>UnicodeDecodeError\<close>\<close>
  | Holds pyval

definition load_state :: "json_file \<Rightarrow> aexn + pyval" where
  "load_state f = (case f of
     NoFile \<Rightarrow> Inr (PDict []) | Unreadable \<Rightarrow> Inr (PDict []) | NotText \<Rightarrow> Inl (AppExc ''UnicodeDecodeError'')
   | Holds v \<Rightarrow> Inr v)"

definition save_state :: "bool \<Rightarrow> pyval \<Rightarrow> json_file \<Rightarrow> (aexn + unit) \<times> json_file" where
  \<comment> \<open>written beside the file and moved over it, so a failure leaves the old file\<close>
  "save_state fails data f = (if fails then (Inl (AppExc ''OSError''), f) else (Inr (), Holds data))"

section \<open>Temperature\<close>

definition py_int :: "string \<Rightarrow> int option" where
  \<comment> \<open>\<open>int(s)\<close> of a text: surrounding white space, a sign, digits with single underscores between\<close>
  "py_int s =
     (let t = py_strip s; neg = prefix ''-'' t;
          ds = py_split (CHR ''_'') (if neg \<or> prefix ''+'' t then tl t else t)
      in if list_all (\<lambda>w. w \<noteq> [] \<and> list_all is_ascii_digit w) ds
         then Some (if neg then - int (undec (concat ds)) else int (undec (concat ds))) else None)"

record zone =
  tz_name :: string
  tz_type :: "string option"     \<comment> \<open>the text of the file \<open>type\<close>, \<open>None\<close> where reading it raises \<open>OSError\<close>\<close>
  tz_temp :: "string option"     \<comment> \<open>the text of the file \<open>temp\<close>\<close>

definition zone_type :: "zone \<Rightarrow> string" where
  "zone_type z = (case tz_type z of None \<Rightarrow> [] | Some t \<Rightarrow> py_lower (py_strip t))"

definition zone_temp :: "zone \<Rightarrow> rat option" where
  "zone_temp z = (case tz_temp z of None \<Rightarrow> None
     | Some t \<Rightarrow> map_option (\<lambda>i. of_int i / 1000) (py_int t))"

fun first_temp :: "zone list \<Rightarrow> rat option" where
  "first_temp [] = None"
| "first_temp (z # zs) = (case zone_temp z of Some t \<Rightarrow> Some t | None \<Rightarrow> first_temp zs)"

definition cpu_temp_c :: "zone list \<Rightarrow> rat option" where
  "cpu_temp_c globbed =
     (let zones = sort_key tz_name globbed;
          preferred = filter (\<lambda>z. py_contains ''cpu'' (zone_type z)) zones
      in first_temp (preferred @ zones))"

section \<open>Uptime and boot time\<close>

definition plain_float :: "string \<Rightarrow> rat option" where
  \<comment> \<open>\<open>float(s)\<close> of digits with at most one point, which is how the kernel prints the uptime\<close>
  "plain_float s = (case py_split (CHR ''.'') s of
     [a] \<Rightarrow> if a \<noteq> [] \<and> list_all is_ascii_digit a then Some (of_nat (undec a)) else None
   | [a, b] \<Rightarrow> if a @ b \<noteq> [] \<and> list_all is_ascii_digit (a @ b)
       then Some (of_nat (undec (a @ b)) / 10 ^ length b) else None
   | _ \<Rightarrow> None)"

definition first_word :: "string \<Rightarrow> string option" where
  \<comment> \<open>\<open>s.split()[0]\<close>, \<open>None\<close> for an \<open>IndexError\<close>\<close>
  "first_word s = (let t = dropWhile py_isspace s in
     if t = [] then None else Some (takeWhile (\<lambda>c. \<not> py_isspace c) t))"

definition uptime_seconds :: "string option \<Rightarrow> rat option" where
  "uptime_seconds proc = (case proc of None \<Rightarrow> None
     | Some s \<Rightarrow> (case first_word s of None \<Rightarrow> None | Some w \<Rightarrow> plain_float w))"

definition boot_time_utc :: "bool \<Rightarrow> nat \<Rightarrow> dt option" where
  "boot_time_utc synced boot_time = (if \<not> synced then None else Some (fromtimestamp boot_time))"

section \<open>Network rates\<close>

record counters =
  nc_sent :: nat
  nc_recv :: nat

record net_rates =
  nr_counters :: "(string \<times> counters) list"
  nr_time :: rat

record rate_row =
  bytes_sent :: nat
  bytes_recv :: nat
  bytes_sent_per_sec :: rat
  bytes_recv_per_sec :: rat

definition init_rates :: "rat \<Rightarrow> (string \<times> counters) list \<Rightarrow> net_rates" where
  "init_rates now cs = \<lparr>nr_counters = cs, nr_time = now\<rparr>"

definition elapsed :: "net_rates \<Rightarrow> rat \<Rightarrow> rat" where
  "elapsed r now = max (now - nr_time r) (1 / 1000000)"

definition rate :: "rat \<Rightarrow> (counters \<Rightarrow> nat) \<Rightarrow> counters option \<Rightarrow> counters \<Rightarrow> rat" where
  "rate el f prev c =
     max (case prev of None \<Rightarrow> 0 | Some p \<Rightarrow> (of_nat (f c) - of_nat (f p)) / el) 0"

definition sample :: "rat \<Rightarrow> (string \<times> counters) list \<Rightarrow> net_rates \<Rightarrow> (string \<times> rate_row) list \<times> net_rates" where
  "sample now cs r =
     (map (\<lambda>(name, c). (name,
        \<lparr>bytes_sent = nc_sent c, bytes_recv = nc_recv c,
         bytes_sent_per_sec = rate (elapsed r now) nc_sent (map_of (nr_counters r) name) c,
         bytes_recv_per_sec = rate (elapsed r now) nc_recv (map_of (nr_counters r) name) c\<rparr>)) cs,
      \<lparr>nr_counters = cs, nr_time = now\<rparr>)"

fun samples :: "(rat \<times> (string \<times> counters) list) list \<Rightarrow> net_rates \<Rightarrow> (string \<times> rate_row) list list" where
  \<comment> \<open>the results of successive calls\<close>
  "samples [] r = []"
| "samples ((now, cs) # xs) r = (case sample now cs r of (rows, r') \<Rightarrow> rows # samples xs r')"

lemma map_of_sample:
  "map_of (fst (sample now cs r)) n = map_option (\<lambda>c.
     \<lparr>bytes_sent = nc_sent c, bytes_recv = nc_recv c,
      bytes_sent_per_sec = rate (elapsed r now) nc_sent (map_of (nr_counters r) n) c,
      bytes_recv_per_sec = rate (elapsed r now) nc_recv (map_of (nr_counters r) n) c\<rparr>) (map_of cs n)"
  by (induction cs) (auto simp: sample_def)

lemma elapsed_pos [simp]: "0 < elapsed r now"
  by (simp add: elapsed_def less_max_iff_disj)

lemma rate_nonneg [simp]: "0 \<le> rate el f prev c"
  by (simp add: rate_def)

lemma rate_times_elapsed:
  "0 < el \<Longrightarrow> rate el f (Some p) c * el = of_nat (f c - f p)"
  by (cases "f p \<le> f c") (simp_all add: rate_def max_def field_simps)

fun recorded :: "string \<Rightarrow> counters \<Rightarrow> (rat \<times> (string \<times> counters) list) list \<Rightarrow> counters list option" where
  \<comment> \<open>the counters of one interface in every reading, if they never go backwards\<close>
  "recorded n c [] = Some [c]"
| "recorded n c ((now, cs) # xs) = (case map_of cs n of
     None \<Rightarrow> None
   | Some c' \<Rightarrow> if nc_sent c \<le> nc_sent c' \<and> nc_recv c \<le> nc_recv c'
       then map_option ((#) c) (recorded n c' xs) else None)"

definition interval :: "rat \<Rightarrow> rat \<Rightarrow> rat" where
  \<comment> \<open>the time between two readings, at least a microsecond\<close>
  "interval t now = max (now - t) (1 / 1000000)"

fun integral :: "(rate_row \<Rightarrow> rat) \<Rightarrow> string \<Rightarrow> rat \<Rightarrow> (rat \<times> (string \<times> counters) list) list \<Rightarrow>
    (string \<times> rate_row) list list \<Rightarrow> rat" where
  \<comment> \<open>rate times time since the reading before (the first at \<open>t\<close>), added up over the readings and their results\<close>
  "integral f n t ((now, cs) # xs) (rows # rss) =
     (case map_of rows n of None \<Rightarrow> 0 | Some row \<Rightarrow> f row * interval t now) + integral f n now xs rss"
| "integral f n t _ _ = 0"

lemma recorded_last:
  "recorded n c xs = Some ls \<Longrightarrow> ls \<noteq> [] \<and> nc_sent c \<le> nc_sent (last ls) \<and> nc_recv c \<le> nc_recv (last ls)"
proof (induction xs arbitrary: c ls)
  case (Cons x xs)
  obtain now cs where x: "x = (now, cs)" by fastforce
  with Cons.prems obtain c' ls' where "recorded n c' xs = Some ls'" "ls = c # ls'"
      "nc_sent c \<le> nc_sent c'" "nc_recv c \<le> nc_recv c'"
    by (auto split: option.splits if_splits)
  with Cons.IH [of c' ls'] show ?case by auto
qed auto

lemma integral_recorded:
  assumes "map_of (nr_counters r) n = Some c" and "recorded n c xs = Some ls"
  shows "integral bytes_sent_per_sec n (nr_time r) xs (samples xs r) = of_nat (nc_sent (last ls)) - of_nat (nc_sent c) \<and>
    integral bytes_recv_per_sec n (nr_time r) xs (samples xs r) = of_nat (nc_recv (last ls)) - of_nat (nc_recv c)"
  using assms
proof (induction xs arbitrary: c ls r)
  case (Cons x xs)
  obtain now cs where x: "x = (now, cs)" by fastforce
  with Cons.prems obtain c' ls' where c': "map_of cs n = Some c'" "recorded n c' xs = Some ls'" "ls = c # ls'"
      "nc_sent c \<le> nc_sent c'" "nc_recv c \<le> nc_recv c'"
    by (auto split: option.splits if_splits)
  obtain rows r' where s: "sample now cs r = (rows, r')" by fastforce
  then have r': "nr_counters r' = cs" "nr_time r' = now" by (auto simp: sample_def)
  have i: "interval (nr_time r) now = elapsed r now" by (simp add: interval_def elapsed_def)
  from recorded_last [OF c'(2)] have "ls' \<noteq> []" by simp
  with Cons.IH [of r' c' ls'] r' c' show ?case
    using map_of_sample [of now cs r n]
    by (simp add: x s c' i Cons.prems rate_times_elapsed of_nat_diff)
qed auto

lemma samples_nonneg:
  "list_all (list_all (\<lambda>(_, row). 0 \<le> bytes_sent_per_sec row \<and> 0 \<le> bytes_recv_per_sec row)) (samples xs r)"
proof (induction xs arbitrary: r)
  case (Cons x xs)
  obtain now cs where "x = (now, cs)" by fastforce
  moreover have "list_all (\<lambda>(_, row). 0 \<le> bytes_sent_per_sec row \<and> 0 \<le> bytes_recv_per_sec row)
      (fst (sample now cs r))"
    by (auto simp: sample_def list_all_iff)
  ultimately show ?case using Cons.IH by (auto split: prod.splits)
qed simp

text \<open>C37: the rates are honest: no rate is negative, and as long as an interface stays and its counters
  do not go backwards, the rates reported by successive calls, each times the time since the call
  before (for the first since the start, and never less than a microsecond), add up to exactly the bytes sent and received between
  the first and the last reading, whatever the times of the calls.\<close>

theorem rates_add_up:
  assumes "map_of first n = Some c" and "recorded n c xs = Some ls"
  shows "integral bytes_sent_per_sec n t xs (samples xs (init_rates t first)) =
      of_nat (nc_sent (last ls)) - of_nat (nc_sent c) \<and>
    integral bytes_recv_per_sec n t xs (samples xs (init_rates t first)) =
      of_nat (nc_recv (last ls)) - of_nat (nc_recv c) \<and>
    list_all (list_all (\<lambda>(_, row). 0 \<le> bytes_sent_per_sec row \<and> 0 \<le> bytes_recv_per_sec row))
      (samples xs (init_rates t first))"
  using integral_recorded [of "init_rates t first" n c xs ls] assms samples_nonneg by (simp add: init_rates_def)

theorem rates_add_up_witness:
  "\<exists>xs. xs = [(2, [(''wlan0'', \<lparr>nc_sent = 30, nc_recv = 5\<rparr>)]), (7, [(''wlan0'', \<lparr>nc_sent = 90, nc_recv = 5\<rparr>)])] \<and>
    integral bytes_sent_per_sec ''wlan0'' 0 xs
      (samples xs (init_rates 0 [(''wlan0'', \<lparr>nc_sent = 10, nc_recv = 0\<rparr>)])) = 80"
  using rates_add_up [of "[(''wlan0'', \<lparr>nc_sent = 10, nc_recv = 0\<rparr>)]" "''wlan0''" "\<lparr>nc_sent = 10, nc_recv = 0\<rparr>"
      "[(2, [(''wlan0'', \<lparr>nc_sent = 30, nc_recv = 5\<rparr>)]), (7, [(''wlan0'', \<lparr>nc_sent = 90, nc_recv = 5\<rparr>)])]"
      "[\<lparr>nc_sent = 10, nc_recv = 0\<rparr>, \<lparr>nc_sent = 30, nc_recv = 5\<rparr>, \<lparr>nc_sent = 90, nc_recv = 5\<rparr>]" 0]
  by simp

section \<open>The temperature is the processor's\<close>

lemma first_temp_None: "first_temp zs = None \<longleftrightarrow> list_all (\<lambda>z. zone_temp z = None) zs"
  by (induction zs) (auto split: option.splits)

lemma first_temp_append: "first_temp (xs @ ys) = (case first_temp xs of Some t \<Rightarrow> Some t | None \<Rightarrow> first_temp ys)"
  by (induction xs) (auto split: option.splits)

lemma first_temp_mem: "first_temp zs = Some t \<Longrightarrow> \<exists>z\<in>set zs. zone_temp z = Some t"
  by (induction zs) (auto split: option.splits)

text \<open>The zone's number does not matter: as soon as a zone of a processor can be read, one of these
  is reported; another zone is reported only if none of them can, and nothing only if no zone can.\<close>

lemma cpu_temp_prefers_cpu:
  "case cpu_temp_c zs of
     None \<Rightarrow> list_all (\<lambda>z. zone_temp z = None) zs
   | Some t \<Rightarrow> \<exists>z\<in>set zs. zone_temp z = Some t \<and>
       (py_contains ''cpu'' (zone_type z) \<or>
        list_all (\<lambda>z. py_contains ''cpu'' (zone_type z) \<longrightarrow> zone_temp z = None) zs)"
proof -
  let ?zs = "sort_key tz_name zs"
  let ?p = "filter (\<lambda>z. py_contains ''cpu'' (zone_type z)) ?zs"
  have eq: "cpu_temp_c zs = (case first_temp ?p of Some t \<Rightarrow> Some t | None \<Rightarrow> first_temp ?zs)"
    by (simp add: cpu_temp_c_def Let_def first_temp_append)
  show ?thesis
  proof (cases "first_temp ?p")
    case None
    then have "list_all (\<lambda>z. py_contains ''cpu'' (zone_type z) \<longrightarrow> zone_temp z = None) zs"
      unfolding first_temp_None by (auto simp: list_all_iff)
    then show ?thesis
      using eq None first_temp_mem [of ?zs] first_temp_None [of ?zs]
      by (auto split: option.splits simp: list_all_iff)
  next
    case (Some t)
    then show ?thesis using eq first_temp_mem [of ?p t] by auto
  qed
qed

end
