(* ===== verification/Monitor.thy ===== *)
theory Monitor
  imports Metrics "HOL-Library.Multiset"
begin

text \<open>
  The dashboard's monitor, src/app/monitor.py: the heartbeat that tracks outages in the state file,
  the alert of a failed update, the lists of the busiest processes, and the endpoint that reports
  all of it.  One beat is a function of what the beat sees (clock, boot time, synchronisation,
  whether saving fails); a run of the device is a list of beats and restarts of the service.
\<close>

section \<open>The heartbeat\<close>

record beat =
  be_synced :: bool
  be_now :: dt
  be_boot :: rat
  be_save_fails :: bool

record monitor =
  mo_downtime :: pyval    \<comment> \<open>\<open>_last_downtime_seconds\<close>\<close>
  mo_done :: bool         \<comment> \<open>\<open>_boot_comparison_done\<close>\<close>
  mo_file :: json_file

definition start_monitor :: "json_file \<Rightarrow> monitor" where
  \<comment> \<open>the module's variables when the process starts\<close>
  "start_monitor f = \<lparr>mo_downtime = PNone, mo_done = False, mo_file = f\<rparr>"

type_synonym 'a beat_op = "(monitor, aexn, 'a) op"

definition fromisoformat :: "(string \<Rightarrow> aexn + dt) \<Rightarrow> pyval \<Rightarrow> aexn + dt" where
  \<comment> \<open>the parameter is what becomes of texts that \<open>isoformat\<close> does not print, the subtraction of a
      value without time zone included\<close>
  "fromisoformat other raw = (case raw of
     PStr s \<Rightarrow> (case read_iso s of Some d \<Rightarrow> Inr d | None \<Rightarrow> other s)
   | _ \<Rightarrow> Inl (AppExc ''TypeError''))"

definition set_downtime :: "pyval \<Rightarrow> unit beat_op" where
  "set_downtime v = modm (\<lambda>m. m\<lparr>mo_downtime := v\<rparr>)"

definition compare_boot :: "(string \<Rightarrow> aexn + dt) \<Rightarrow> beat \<Rightarrow> pydict \<Rightarrow> pydict beat_op" where
  "compare_boot other e state =
     (let last_boot_time = pget state ''last_boot_time''; last_seen_raw = pget state ''last_seen'' in
      bindm
        (if last_boot_time = PNone
         then bindm (set_downtime PNone) (\<lambda>_. ret (AList.update ''last_downtime_seconds'' PNone state))
         else if PNum (be_boot e) \<noteq> last_boot_time \<and> ptruthy last_seen_raw
         then bindm (liftr (fromisoformat other last_seen_raw)) (\<lambda>last_seen.
              let figure = PNum (max (total_seconds (be_now e) last_seen) 0)
              in bindm (set_downtime figure) (\<lambda>_. ret (AList.update ''last_downtime_seconds'' figure state)))
         else bindm (set_downtime (pget state ''last_downtime_seconds'')) (\<lambda>_. ret state)) (\<lambda>state.
      bindm (modm (\<lambda>m. m\<lparr>mo_done := True\<rparr>)) (\<lambda>_.
      ret (AList.update ''last_boot_time'' (PNum (be_boot e)) state))))"

definition heartbeat_tick :: "(string \<Rightarrow> aexn + dt) \<Rightarrow> beat \<Rightarrow> unit beat_op" where
  "heartbeat_tick other e =
     (if \<not> be_synced e then ret ()
      else
        bindm getm (\<lambda>m.
        bindm (liftr (load_state (mo_file m))) (\<lambda>loaded.
        (case loaded of
           PDict state \<Rightarrow>
             bindm (if \<not> mo_done m then compare_boot other e state else ret state) (\<lambda>state s.
               (case save_state (be_save_fails e)
                   (PDict (AList.update ''last_seen'' (PStr (isoformat (be_now e))) state)) (mo_file s) of
                  (r, f) \<Rightarrow> (r, s\<lparr>mo_file := f\<rparr>)))
         | _ \<Rightarrow> raise (AppExc (if mo_done m then ''TypeError'' else ''AttributeError''))))))"

datatype event = Beat beat | Restart

fun heartbeat_event :: "(string \<Rightarrow> aexn + dt) \<Rightarrow> event \<Rightarrow> monitor \<Rightarrow> monitor" where
  \<comment> \<open>the loop logs an exception and goes on; a restart loses the variables of the module\<close>
  "heartbeat_event other (Beat e) m = snd (heartbeat_tick other e m)"
| "heartbeat_event other Restart m = start_monitor (mo_file m)"

definition heartbeat_loop :: "(string \<Rightarrow> aexn + dt) \<Rightarrow> event list \<Rightarrow> monitor \<Rightarrow> monitor" where
  "heartbeat_loop other = fold (heartbeat_event other)"

section \<open>What the heartbeat is meant to record\<close>

text \<open>The device's history: the last beat with a synchronised clock, and the length of the last outage,
  which ends at the first such beat after the device booted again.\<close>

record history =
  hi_last :: "(rat \<times> dt) option"
  hi_outage :: "rat option"

definition no_history :: history where
  "no_history = \<lparr>hi_last = None, hi_outage = None\<rparr>"

fun history_event :: "event \<Rightarrow> history \<Rightarrow> history" where
  "history_event (Beat e) h =
     (if \<not> be_synced e then h
      else \<lparr>hi_last = Some (be_boot e, be_now e),
            hi_outage = (case hi_last h of
               Some (b, t) \<Rightarrow> if b \<noteq> be_boot e then Some (max (total_seconds (be_now e) t) 0) else hi_outage h
             | None \<Rightarrow> hi_outage h)\<rparr>)"
| "history_event Restart h = h"

definition num_opt :: "rat option \<Rightarrow> pyval" where
  "num_opt x = (case x of None \<Rightarrow> PNone | Some r \<Rightarrow> PNum r)"

definition file_shows :: "json_file \<Rightarrow> history \<Rightarrow> bool" where
  "file_shows f h \<longleftrightarrow> (case hi_last h of
     None \<Rightarrow> f = NoFile \<and> hi_outage h = None
   | Some (b, t) \<Rightarrow> \<exists>state. f = Holds (PDict state) \<and> pget state ''last_boot_time'' = PNum b \<and>
       pget state ''last_seen'' = PStr (isoformat t) \<and> valid_dt t \<and>
       pget state ''last_downtime_seconds'' = num_opt (hi_outage h))"

definition monitor_shows :: "rat option \<Rightarrow> monitor \<Rightarrow> history \<Rightarrow> bool" where
  \<comment> \<open>the first argument is the boot time this process has seen, if any\<close>
  "monitor_shows b m h \<longleftrightarrow> file_shows (mo_file m) h \<and> (mo_done m \<longleftrightarrow> b \<noteq> None) \<and>
     mo_downtime m = (if mo_done m then num_opt (hi_outage h) else PNone) \<and>
     (b = None \<or> map_option fst (hi_last h) = b)"

fun boot_stable :: "rat option \<Rightarrow> event list \<Rightarrow> bool" where
  \<comment> \<open>while the clock is synchronised, the boot time does not change under a running process\<close>
  "boot_stable b [] = True"
| "boot_stable b (Restart # es) = boot_stable None es"
| "boot_stable b (Beat e # es) =
     (if be_synced e then (b = None \<or> b = Some (be_boot e)) \<and> boot_stable (Some (be_boot e)) es
      else boot_stable b es)"

fun sound_event :: "event \<Rightarrow> bool" where
  "sound_event Restart = True"
| "sound_event (Beat e) = (valid_dt (be_now e) \<and> \<not> be_save_fails e)"

lemma tick_first_run:
  assumes "be_synced e" and "\<not> be_save_fails e" and "\<not> mo_done m" and "mo_file m = NoFile"
  shows "heartbeat_tick other e m = (Inr (), \<lparr>mo_downtime = PNone, mo_done = True,
     mo_file = Holds (PDict (AList.update ''last_seen'' (PStr (isoformat (be_now e)))
       (AList.update ''last_boot_time'' (PNum (be_boot e)) (AList.update ''last_downtime_seconds'' PNone []))))\<rparr>)"
  using assms
  by (simp add: heartbeat_tick_def compare_boot_def set_downtime_def load_state_def save_state_def
      op_defs Let_def)

lemma tick_later:
  assumes "be_synced e" and "\<not> be_save_fails e" and "mo_file m = Holds (PDict state)"
    and "pget state ''last_boot_time'' = PNum b" and "pget state ''last_seen'' = PStr (isoformat t)" and "valid_dt t"
  shows "\<exists>state'. heartbeat_tick other e m = (Inr (), \<lparr>mo_downtime = (if mo_done m then mo_downtime m
       else pget state' ''last_downtime_seconds''), mo_done = True, mo_file = Holds (PDict state')\<rparr>) \<and>
     pget state' ''last_seen'' = PStr (isoformat (be_now e)) \<and>
     pget state' ''last_boot_time'' = PNum (if mo_done m then b else be_boot e) \<and>
     pget state' ''last_downtime_seconds'' = (if \<not> mo_done m \<and> be_boot e \<noteq> b
       then PNum (max (total_seconds (be_now e) t) 0) else pget state ''last_downtime_seconds'')"
  using assms
  by (cases m) (auto simp: heartbeat_tick_def compare_boot_def set_downtime_def load_state_def save_state_def
      op_defs Let_def fromisoformat_def read_iso_isoformat pget_update)

lemma event_shows:
  assumes "monitor_shows b m h" and "sound_event (Beat e)" and "be_synced e" and "b = None \<or> b = Some (be_boot e)"
  shows "monitor_shows (Some (be_boot e)) (heartbeat_event other (Beat e) m) (history_event (Beat e) h)"
proof (cases "hi_last h")
  case None
  with assms(1) have "mo_file m = NoFile" "hi_outage h = None" "\<not> mo_done m"
    by (auto simp: monitor_shows_def file_shows_def)
  with assms(2,3) None show ?thesis
    using tick_first_run [of e m other] by (simp add: monitor_shows_def file_shows_def num_opt_def pget_def)
next
  case (Some l)
  then obtain b0 t where l: "hi_last h = Some (b0, t)" by (cases l) auto
  with assms(1) obtain state where st: "mo_file m = Holds (PDict state)" "pget state ''last_boot_time'' = PNum b0"
      "pget state ''last_seen'' = PStr (isoformat t)" "valid_dt t"
      "pget state ''last_downtime_seconds'' = num_opt (hi_outage h)"
    by (auto simp: monitor_shows_def file_shows_def)
  from assms(1,4) l have b: "mo_done m \<Longrightarrow> b0 = be_boot e" and
      d: "mo_downtime m = (if mo_done m then num_opt (hi_outage h) else PNone)"
    by (auto simp: monitor_shows_def)
  from tick_later [OF assms(3) _ st(1-4), of other] assms(2) obtain state' where
    t: "heartbeat_tick other e m = (Inr (), \<lparr>mo_downtime = (if mo_done m then mo_downtime m
       else pget state' ''last_downtime_seconds''), mo_done = True, mo_file = Holds (PDict state')\<rparr>)"
    and s': "pget state' ''last_seen'' = PStr (isoformat (be_now e))"
      "pget state' ''last_boot_time'' = PNum (if mo_done m then b0 else be_boot e)"
      "pget state' ''last_downtime_seconds'' = (if \<not> mo_done m \<and> be_boot e \<noteq> b0
       then PNum (max (total_seconds (be_now e) t) 0) else pget state ''last_downtime_seconds'')"
    by auto
  show ?thesis
    using t s' st(5) d b assms(2,3) l by (auto simp: monitor_shows_def file_shows_def num_opt_def)
qed

lemma loop_shows:
  assumes "monitor_shows b m h" and "boot_stable b es" and "list_all sound_event es"
  shows "\<exists>b'. monitor_shows b' (heartbeat_loop other es m) (fold history_event es h)"
  using assms
proof (induction es arbitrary: b m h)
  case (Cons e es)
  show ?case
  proof (cases e)
    case (Beat x)
    show ?thesis
    proof (cases "be_synced x")
      case True
      with Cons.prems Beat event_shows [of b m h x other] Cons.IH show ?thesis
        by (simp add: heartbeat_loop_def del: heartbeat_event.simps history_event.simps sound_event.simps)
    next
      case False
      with Cons.prems Beat Cons.IH [of b m h] show ?thesis
        by (simp add: heartbeat_loop_def heartbeat_tick_def ret_def)
    qed
  next
    case Restart
    then have "monitor_shows None (heartbeat_event other e m) (history_event e h)"
      using Cons.prems(1) by (simp add: monitor_shows_def start_monitor_def)
    with Cons.IH Cons.prems Restart show ?thesis
      by (simp add: heartbeat_loop_def del: heartbeat_event.simps)
  qed
qed (auto simp: heartbeat_loop_def)

text \<open>C15: the heartbeat measures outages: whatever the beats and restarts of a device that started
  without a state file, as long as saving works and the boot time is stable under a process, the
  figure that is shown (once the clock is synchronised) and the one in the file are those of the
  device's history: the time from the last beat before the latest reboot to the first after it,
  unchanged by restarts of the service, and unknown if there was no reboot.\<close>

theorem heartbeat_measures_outages:
  fixes other :: "string \<Rightarrow> aexn + dt"
  assumes "boot_stable None es" and "list_all sound_event es"
  defines "m \<equiv> heartbeat_loop other es (start_monitor NoFile)"
    and "h \<equiv> fold history_event es no_history"
  shows "file_shows (mo_file m) h \<and> mo_downtime m = (if mo_done m then num_opt (hi_outage h) else PNone)"
proof -
  have "monitor_shows None (start_monitor NoFile) no_history"
    by (simp add: monitor_shows_def start_monitor_def no_history_def file_shows_def)
  from loop_shows [OF this assms(1,2), of other] show ?thesis
    unfolding m_def h_def by (auto simp: monitor_shows_def)
qed

definition noon :: "nat \<Rightarrow> dt" where
  \<comment> \<open>some day in 2024, seconds after noon\<close>
  "noon s = \<lparr>dt_year = 2024, dt_month = 2, dt_day = 29, dt_hour = 12, dt_minute = 0, dt_second = s, dt_micro = 0\<rparr>"

definition beat_at :: "rat \<Rightarrow> nat \<Rightarrow> event" where
  "beat_at b s = Beat \<lparr>be_synced = True, be_now = noon s, be_boot = b, be_save_fails = False\<rparr>"

definition no_other :: "string \<Rightarrow> aexn + dt" where
  "no_other s = Inl (AppExc ''ValueError'')"

lemma noon_valid: "s < 60 \<Longrightarrow> valid_dt (noon s)"
  by (simp add: noon_def valid_dt_def days_in_month_def leap_def)

lemma noon_diff: "total_seconds (noon s) (noon t) = of_int (int s - int t)"
  by (simp add: total_seconds_def noon_def micros_def ordinal_def Fract_of_int_quotient field_simps)

text \<open>Noon and one second, a restart of the service four seconds later, a reboot after which the device
  is back at second 30, and another restart: the outage is 25 seconds throughout.\<close>

theorem heartbeat_measures_outages_witness:
  "\<exists>state. mo_file (heartbeat_loop no_other [beat_at 100 1, Restart, beat_at 100 5, Restart, beat_at 200 30, Restart,
     beat_at 200 40] (start_monitor NoFile)) = Holds (PDict state) \<and>
     pget state ''last_downtime_seconds'' = PNum 25"
proof -
  let ?es = "[beat_at 100 1, Restart, beat_at 100 5, Restart, beat_at 200 30, Restart, beat_at 200 40]"
  have "boot_stable None ?es" "list_all sound_event ?es"
    by (simp_all add: beat_at_def noon_valid)
  from heartbeat_measures_outages [OF this, of no_other] show ?thesis
    by (auto simp: beat_at_def no_history_def noon_diff num_opt_def file_shows_def)
qed

section \<open>Where the record goes wrong\<close>

text \<open>The comparison counts as done before the state is saved.  When that one save fails, the file keeps
  the boot time of the last run while later beats renew \<open>last_seen\<close>: the next restart of the service
  is taken for a reboot.\<close>

definition failing_beat_at :: "rat \<Rightarrow> nat \<Rightarrow> event" where
  "failing_beat_at b s = Beat \<lparr>be_synced = True, be_now = noon s, be_boot = b, be_save_fails = True\<rparr>"

lemma lost_save_invents_outage:
  "let es = [beat_at 100 1, Restart, failing_beat_at 200 30, beat_at 200 40, Restart, beat_at 200 45]
   in mo_downtime (heartbeat_loop other es (start_monitor NoFile)) = PNum 5 \<and>
      hi_outage (fold history_event es no_history) = Some 29"
  by (simp add: heartbeat_loop_def beat_at_def failing_beat_at_def heartbeat_tick_def compare_boot_def
      set_downtime_def load_state_def save_state_def op_defs Let_def fromisoformat_def read_iso_isoformat
      pget_def noon_valid noon_diff no_history_def start_monitor_def)

text \<open>A \<open>last_seen\<close> that cannot be read after a reboot stops the record for good: every beat raises
  before it changes or saves anything.\<close>

lemma unreadable_last_seen_sticks:
  assumes "be_synced e" and "\<not> mo_done m" and "mo_file m = Holds (PDict state)"
    and "pget state ''last_boot_time'' \<notin> {PNone, PNum (be_boot e)}"
    and "ptruthy (pget state ''last_seen'')" and "fromisoformat other (pget state ''last_seen'') = Inl x"
  shows "heartbeat_tick other e m = (Inl x, m)"
  using assms by (auto simp: heartbeat_tick_def compare_boot_def load_state_def op_defs Let_def)

section \<open>The alert of a failed update\<close>

definition load_rollback_alert :: "json_file \<Rightarrow> aexn + pyval" where
  "load_rollback_alert f = (case f of
     NoFile \<Rightarrow> Inr PNone | Unreadable \<Rightarrow> Inr PNone | NotText \<Rightarrow> Inl (AppExc ''UnicodeDecodeError'')
   | Holds v \<Rightarrow> Inr v)"

definition dismiss_rollback_alert :: "bool \<Rightarrow> json_file \<Rightarrow> (aexn + pyval) \<times> json_file" where
  \<comment> \<open>\<open>unlink(missing_ok=True)\<close>; the flag says whether the system refuses to remove an existing file\<close>
  "dismiss_rollback_alert denied f =
     (if f \<noteq> NoFile \<and> denied then (Inl (AppExc ''OSError''), f)
      else (Inr (PDict [(''status'', PStr ''ok'')]), NoFile))"

lemma dismissed_alert_gone:
  "dismiss_rollback_alert denied f = (Inr v, f') \<Longrightarrow> load_rollback_alert f' = Inr PNone"
  by (auto simp: dismiss_rollback_alert_def load_rollback_alert_def split: if_splits)

section \<open>The busiest processes\<close>

record proc_row =
  pr_pid :: nat
  pr_name :: string
  pr_cpu :: rat
  pr_rss :: nat

record proc_env =
  pe_live :: "nat list"                    \<comment> \<open>the set of live processes, in the order it is walked\<close>
  pe_opens :: "nat \<Rightarrow> bool"                \<comment> \<open>\<open>Process(pid)\<close> and its first sample succeed\<close>
  pe_reads :: "nat \<Rightarrow> proc_row option"     \<comment> \<open>\<open>None\<close> for a process that is gone or refuses\<close>

definition mem_mb :: "proc_row \<Rightarrow> rat" where
  "mem_mb r = of_nat (pr_rss r) / 1048576"

definition TOP_N :: nat where
  "TOP_N = 10"

definition refresh_procs :: "proc_env \<Rightarrow> nat list \<Rightarrow> nat list" where
  \<comment> \<open>the keys of \<open>_procs\<close> in their order: without the dead, then the new ones that open\<close>
  "refresh_procs e procs = (let kept = filter (\<lambda>p. p \<in> set (pe_live e)) procs
     in kept @ filter (\<lambda>p. p \<notin> set kept \<and> pe_opens e p) (pe_live e))"

definition top_by :: "(proc_row \<Rightarrow> rat) \<Rightarrow> proc_row list \<Rightarrow> proc_row list" where
  \<comment> \<open>\<open>sorted(rows, key=..., reverse=True)[:TOP_N]\<close>\<close>
  "top_by key rows = take TOP_N (sort_key (\<lambda>r. - key r) rows)"

definition top_processes :: "proc_env \<Rightarrow> nat list \<Rightarrow> (proc_row list \<times> proc_row list) \<times> nat list" where
  "top_processes e procs =
     (let procs' = refresh_procs e procs; rows = List.map_filter (pe_reads e) procs'
      in ((top_by pr_cpu rows, top_by mem_mb rows), procs'))"

lemma top_by_exact:
  "length (top_by key rows) = min 10 (length rows) \<and>
   sorted_wrt (\<lambda>a b. key a \<ge> key b) (top_by key rows) \<and>
   (\<exists>rest. mset rows = mset (top_by key rows) + mset rest \<and>
      list_all (\<lambda>r. list_all (\<lambda>t. key r \<le> key t) (top_by key rows)) rest)"
proof -
  let ?s = "sort_key (\<lambda>r. - key r) rows"
  have s: "sorted_wrt (\<lambda>a b. key a \<ge> key b) ?s"
    using sorted_sort_key [of "\<lambda>r. - key r" rows] by (simp add: sorted_map)
  have st: "sorted_wrt (\<lambda>a b. key a \<ge> key b) (take TOP_N ?s @ drop TOP_N ?s)" using s by simp
  have "mset rows = mset (take TOP_N ?s) + mset (drop TOP_N ?s)"
    by (metis append_take_drop_id mset_append mset_sort)
  moreover have "list_all (\<lambda>r. list_all (\<lambda>t. key r \<le> key t) (take TOP_N ?s)) (drop TOP_N ?s)"
    using st unfolding sorted_wrt_append by (auto simp: list_all_iff)
  ultimately show ?thesis
    using st unfolding sorted_wrt_append top_by_def by (auto simp: TOP_N_def)
qed

definition top_of :: "(proc_row \<Rightarrow> rat) \<Rightarrow> proc_row list \<Rightarrow> proc_row list \<Rightarrow> bool" where
  \<comment> \<open>the ten greatest rows, or all if there are fewer, in descending order\<close>
  "top_of key rows t \<longleftrightarrow> length t = min 10 (length rows) \<and> sorted_wrt (\<lambda>a b. key a \<ge> key b) t \<and>
     (\<exists>rest. mset rows = mset t + mset rest \<and> list_all (\<lambda>r. list_all (\<lambda>x. key r \<le> key x) t) rest)"

text \<open>The lists of busiest processes are right: the processes kept from request to request are
  exactly the live ones that could be opened, each once, and both lists hold the ten rows of
  greatest processor or memory use among those that could be read, in descending order.\<close>

lemma top_processes_exact:
  assumes "distinct (pe_live e)" and "distinct procs" and "top_processes e procs = ((cpu, mem), procs')"
  shows "distinct procs' \<and> set procs' = {p. p \<in> set (pe_live e) \<and> (p \<in> set procs \<or> pe_opens e p)} \<and>
    top_of pr_cpu (List.map_filter (pe_reads e) procs') cpu \<and>
    top_of mem_mb (List.map_filter (pe_reads e) procs') mem"
proof -
  have p: "procs' = refresh_procs e procs" and c: "cpu = top_by pr_cpu (List.map_filter (pe_reads e) procs')"
    and m: "mem = top_by mem_mb (List.map_filter (pe_reads e) procs')"
    using assms(3) by (auto simp: top_processes_def Let_def)
  from assms(1,2) have "distinct procs'" by (auto simp: p refresh_procs_def Let_def)
  moreover have "set procs' = {p. p \<in> set (pe_live e) \<and> (p \<in> set procs \<or> pe_opens e p)}"
    by (auto simp: p refresh_procs_def Let_def)
  ultimately show ?thesis unfolding top_of_def c m using top_by_exact by blast
qed

definition three_procs :: proc_env where
  "three_procs = \<lparr>pe_live = [3, 1, 2], pe_opens = (\<lambda>p. p \<noteq> 2),
     pe_reads = (\<lambda>p. Some \<lparr>pr_pid = p, pr_name = ''p'', pr_cpu = of_nat p, pr_rss = 0\<rparr>)\<rparr>"

lemma top_processes_exact_witness:
  "set (snd (top_processes three_procs [1, 7])) = {1, 3} \<and>
   top_of pr_cpu (List.map_filter (pe_reads three_procs) (snd (top_processes three_procs [1, 7])))
     (fst (fst (top_processes three_procs [1, 7])))"
proof -
  let ?t = "top_processes three_procs [1, 7]"
  have "distinct (pe_live three_procs)" "distinct [1::nat, 7]" by (simp_all add: three_procs_def)
  from top_processes_exact [OF this, of "fst (fst ?t)" "snd (fst ?t)" "snd ?t"]
  have t: "set (snd ?t) = {p. p \<in> set (pe_live three_procs) \<and> (p \<in> set [1, 7] \<or> pe_opens three_procs p)}"
    "top_of pr_cpu (List.map_filter (pe_reads three_procs) (snd ?t)) (fst (fst ?t))"
    by simp_all
  have "{p. p \<in> set (pe_live three_procs) \<and> (p \<in> set [1, 7] \<or> pe_opens three_procs p)} = {1, 3}"
    by (auto simp: three_procs_def)
  with t show ?thesis by simp
qed

section \<open>The report\<close>

record stats_env =
  se_now :: rat
  se_counters :: "(string \<times> counters) list"
  se_mem_percent :: rat
  se_disk_percent :: rat
  se_cpu_percent :: rat
  se_procs :: proc_env
  se_zones :: "zone list"
  se_uptime :: "string option"
  se_alert :: json_file

record monitor_state =
  ms_rates :: net_rates
  ms_procs :: "nat list"
  ms_downtime :: pyval

record stats_report =
  sr_cpu_percent :: rat
  sr_cpu_temp_c :: "rat option"
  sr_mem_percent :: rat
  sr_disk_percent :: rat
  sr_interfaces :: "(string \<times> rat \<times> rat) list"
  sr_top_cpu :: "proc_row list"
  sr_top_mem :: "proc_row list"
  sr_last_downtime_seconds :: pyval
  sr_uptime_seconds :: "rat option"
  sr_rollback_alert :: pyval

definition stats :: "stats_env \<Rightarrow> (monitor_state, aexn, stats_report) op" where
  "stats e s =
     (case sample (se_now e) (se_counters e) (ms_rates s) of (rows, rates) \<Rightarrow>
      case top_processes (se_procs e) (ms_procs s) of ((top_cpu, top_mem), procs) \<Rightarrow>
      (case load_rollback_alert (se_alert e) of
         Inl x \<Rightarrow> Inl x
       | Inr alert \<Rightarrow> Inr
          \<lparr>sr_cpu_percent = se_cpu_percent e, sr_cpu_temp_c = cpu_temp_c (se_zones e),
           sr_mem_percent = se_mem_percent e, sr_disk_percent = se_disk_percent e,
           sr_interfaces = map (\<lambda>(n, v). (n, bytes_sent_per_sec v, bytes_recv_per_sec v)) rows,
           sr_top_cpu = top_cpu, sr_top_mem = top_mem, sr_last_downtime_seconds = ms_downtime s,
           sr_uptime_seconds = uptime_seconds (se_uptime e), sr_rollback_alert = alert\<rparr>,
       s\<lparr>ms_rates := rates, ms_procs := procs\<rparr>))"

end
