(* ===== verification/Telemetry.thy ===== *)
theory Telemetry
  imports Metrics
begin

text \<open>
  The telemetry agent, src/app/telemetry.py: which interfaces it reports, the discovery document of
  Home Assistant, the state document, and its messages.  The MQTT library is a parameter in the sense
  that only the calls on it are modelled, as the list of messages it is asked to publish; a document
  is the Python value before \<open>json.dumps\<close>.  The threads of the agent are in \<open>Sampling\<close> and \<open>Agent\<close>.
\<close>

section \<open>Settings and names\<close>

record settings =
  st_device_id :: string
  st_device_name :: string
  st_interfaces :: string

fun sub_runs :: "bool \<Rightarrow> string \<Rightarrow> string" where
  \<comment> \<open>\<open>re.sub("[^a-z0-9_]+", "_", s)\<close>; the flag says whether the character before was replaced\<close>
  "sub_runs b [] = []"
| "sub_runs b (c # s) =
     (if is_lower_az c \<or> is_ascii_digit c \<or> c = CHR ''_'' then c # sub_runs False s
      else if b then sub_runs True s else CHR ''_'' # sub_runs True s)"

definition slug :: "string \<Rightarrow> string" where
  "slug value = strip_by (\<lambda>c. c = CHR ''_'') (sub_runs False (py_lower value))"

definition ignored_iface_prefixes :: "string list" where
  "ignored_iface_prefixes = [''lo'', ''docker'', ''br-'', ''veth'', ''hassio'']"

definition select_interfaces :: "settings \<Rightarrow> string list \<Rightarrow> string list" where
  "select_interfaces s available =
     (if py_strip (st_interfaces s) \<noteq> []
      then (let wanted = map py_strip (filter (\<lambda>i. py_strip i \<noteq> []) (py_split (CHR '','') (st_interfaces s)))
            in filter (\<lambda>i. i \<in> set available) wanted)
      else filter (\<lambda>i. \<not> list_ex (py_startswith i) ignored_iface_prefixes) available)"

lemma selected_available: "set (select_interfaces s available) \<subseteq> set available"
  by (auto simp: select_interfaces_def Let_def)

text \<open>The prefix of the loopback interface also drops other names.\<close>

lemma london_not_reported:
  "select_interfaces \<lparr>st_device_id = ''pi'', st_device_name = [], st_interfaces = []\<rparr> [''london'', ''wlan0''] = [''wlan0'']"
  by (simp add: select_interfaces_def py_strip_def py_lstrip_def py_rstrip_def rstrip_by_def ignored_iface_prefixes_def
      py_startswith_def)

section \<open>Discovery\<close>

definition opt_entry :: "string \<Rightarrow> string option \<Rightarrow> pydict" where
  "opt_entry k v = (case v of None \<Rightarrow> [] | Some s \<Rightarrow> if s = [] then [] else [(k, PStr s)])"

definition sensor :: "string \<Rightarrow> string \<Rightarrow> string option \<Rightarrow> string option \<Rightarrow> string option \<Rightarrow> string option \<Rightarrow> pydict" where
  "sensor name key unit device_class state_class icon =
     [(''platform'', PStr ''sensor''), (''name'', PStr name),
      (''value_template'', PStr (''{{ value_json.'' @ key @ '' }}'')),
      (''availability_template'', PStr (''{{ 'online' if value_json.'' @ key @ '' is not none else 'offline' }}'')),
      (''availability_topic'', PNone)] @
     opt_entry ''state_class'' state_class @ opt_entry ''unit_of_measurement'' unit @
     opt_entry ''device_class'' device_class @ opt_entry ''icon'' icon"

definition device_components :: "(string \<times> pydict) list" where
  "device_components =
     [(''cpu_temp_c'', sensor ''CPU temperature'' ''cpu_temp_c'' (Some [CHR 0xB0, CHR ''C'']) (Some ''temperature'') (Some ''measurement'') None),
      (''cpu_percent'', sensor ''CPU usage'' ''cpu_percent'' (Some ''%'') None (Some ''measurement'') (Some ''mdi:cpu-64-bit'')),
      (''memory_percent'', sensor ''Memory usage'' ''memory_percent'' (Some ''%'') None (Some ''measurement'') (Some ''mdi:memory'')),
      (''memory_used_mb'', sensor ''Memory used'' ''memory_used_mb'' (Some ''MB'') (Some ''data_size'') (Some ''measurement'') None),
      (''disk_percent'', sensor ''Disk usage'' ''disk_percent'' (Some ''%'') None (Some ''measurement'') (Some ''mdi:harddisk'')),
      (''disk_free_gb'', sensor ''Disk free'' ''disk_free_gb'' (Some ''GB'') (Some ''data_size'') (Some ''measurement'') None),
      (''uptime_seconds'', sensor ''Uptime'' ''uptime_seconds'' (Some ''s'') (Some ''duration'') (Some ''measurement'') None),
      (''last_boot'', sensor ''Last boot'' ''last_boot'' None (Some ''timestamp'') None None),
      (''last_downtime_seconds'', sensor ''Last downtime'' ''last_downtime_seconds'' (Some ''s'') (Some ''duration'') None None)]"

definition iface_components :: "string \<Rightarrow> (string \<times> pydict) list" where
  "iface_components iface =
     concat (map (\<lambda>(direction, label).
       [(slug iface @ ''_bytes_'' @ direction,
         sensor (iface @ '' '' @ label) (slug iface @ ''_bytes_'' @ direction) (Some ''B'') (Some ''data_size'') (Some ''total_increasing'') None),
        (slug iface @ ''_'' @ direction @ ''_rate'',
         sensor (iface @ '' '' @ label @ '' rate'') (slug iface @ ''_'' @ direction @ ''_rate'') (Some ''B/s'') (Some ''data_rate'') (Some ''measurement'') None)])
       [(''sent'', ''transmitted''), (''recv'', ''received'')])"

definition updates :: "(string \<times> 'a) list \<Rightarrow> (string \<times> 'a) list \<Rightarrow> (string \<times> 'a) list" where
  \<comment> \<open>\<open>d[k] = v\<close> for each pair in turn\<close>
  "updates kvs d = fold (\<lambda>(k, v). AList.update k v) kvs d"

definition components :: "string list \<Rightarrow> (string \<times> pydict) list" where
  "components interfaces = updates (concat (map iface_components interfaces)) device_components"

definition availability_topic :: "settings \<Rightarrow> string" where
  "availability_topic s = ''pi-telemetry/'' @ st_device_id s @ ''/availability''"

definition state_topic :: "settings \<Rightarrow> string" where
  "state_topic s = ''pi-telemetry/'' @ st_device_id s @ ''/state''"

definition discovered :: "settings \<Rightarrow> string list \<Rightarrow> (string \<times> pydict) list" where
  \<comment> \<open>the components with their identifiers and topic filled in\<close>
  "discovered s interfaces = map (\<lambda>(key, c). (key,
     AList.update ''availability_topic'' (PStr (availability_topic s))
       (AList.update ''unique_id'' (PStr (st_device_id s @ ''_'' @ key)) c))) (components interfaces)"

record build =
  bd_version :: string
  bd_machine :: string
  bd_release :: string

definition discovery_payload :: "build \<Rightarrow> settings \<Rightarrow> string list \<Rightarrow> pydict" where
  "discovery_payload b s interfaces =
     [(''device'', PDict
        [(''identifiers'', PList [PStr (st_device_id s)]),
         (''name'', PStr (if st_device_name s = [] then st_device_id s else st_device_name s)),
         (''manufacturer'', PStr ''Keekar''), (''model'', PStr (bd_machine b)),
         (''sw_version'', PStr (''pi-config-ui '' @ bd_version b @ '' ('' @ bd_release b @ '')''))]),
      (''origin'', PDict [(''name'', PStr ''pi-config-ui''), (''sw_version'', PStr (bd_version b))]),
      (''state_topic'', PStr (state_topic s)), (''availability_topic'', PStr (availability_topic s)),
      (''payload_available'', PStr ''online''), (''payload_not_available'', PStr ''offline''),
      (''qos'', PNum 1),
      (''components'', PDict (map (\<lambda>(k, c). (k, PDict c)) (discovered s interfaces)))]"

section \<open>State\<close>

definition half_even :: "rat \<Rightarrow> int" where
  "half_even x = (let f = \<lfloor>x\<rfloor>; r = x - of_int f in
     if r < 1 / 2 then f else if r > 1 / 2 then f + 1 else if even f then f else f + 1)"

definition round_opt :: "nat \<Rightarrow> rat option \<Rightarrow> pyval" where
  \<comment> \<open>\<open>_round\<close>\<close>
  "round_opt digits v = (case v of None \<Rightarrow> PNone
     | Some x \<Rightarrow> PNum (of_int (half_even (x * 10 ^ digits)) / 10 ^ digits))"

record collect_env =
  ce_now :: rat
  ce_counters :: "(string \<times> counters) list"
  ce_zones :: "zone list"
  ce_cpu_percent :: rat
  ce_mem_percent :: rat
  ce_mem_used :: nat
  ce_disk_percent :: rat
  ce_disk_free :: nat
  ce_uptime :: "string option"
  ce_synced :: bool
  ce_boot_time :: nat
  ce_state :: json_file

definition device_values :: "collect_env \<Rightarrow> pydict \<Rightarrow> pydict" where
  "device_values e state =
     [(''cpu_temp_c'', round_opt 1 (cpu_temp_c (ce_zones e))),
      (''cpu_percent'', PNum (ce_cpu_percent e)),
      (''memory_percent'', PNum (ce_mem_percent e)),
      (''memory_used_mb'', round_opt 1 (Some (of_nat (ce_mem_used e) / 1048576))),
      (''disk_percent'', PNum (ce_disk_percent e)),
      (''disk_free_gb'', round_opt 2 (Some (of_nat (ce_disk_free e) / 1073741824))),
      (''uptime_seconds'', round_opt 0 (uptime_seconds (ce_uptime e))),
      (''last_boot'', (case boot_time_utc (ce_synced e) (ce_boot_time e) of None \<Rightarrow> PNone | Some d \<Rightarrow> PStr (isoformat d))),
      (''last_downtime_seconds'', pget state ''last_downtime_seconds'')]"

definition iface_values :: "(string \<times> rate_row) list \<Rightarrow> string \<Rightarrow> pydict" where
  "iface_values rows iface =
     (let c = map_of rows iface in
      [(slug iface @ ''_bytes_sent'', (case c of None \<Rightarrow> PNone | Some r \<Rightarrow> PNum (of_nat (bytes_sent r)))),
       (slug iface @ ''_bytes_recv'', (case c of None \<Rightarrow> PNone | Some r \<Rightarrow> PNum (of_nat (bytes_recv r)))),
       (slug iface @ ''_sent_rate'', round_opt 1 (map_option bytes_sent_per_sec c)),
       (slug iface @ ''_recv_rate'', round_opt 1 (map_option bytes_recv_per_sec c))])"

definition collect :: "collect_env \<Rightarrow> string list \<Rightarrow> (net_rates, aexn, pydict) op" where
  \<comment> \<open>an exception of the state file comes before the counters are sampled\<close>
  "collect e interfaces =
     bindm (liftr (load_state (ce_state e))) (\<lambda>loaded.
     (case loaded of
        PDict state \<Rightarrow> (\<lambda>rates. case sample (ce_now e) (ce_counters e) rates of (rows, rates') \<Rightarrow>
          (Inr (updates (concat (map (iface_values rows) interfaces)) (device_values e state)), rates'))
      | _ \<Rightarrow> raise (AppExc ''AttributeError'')))"

section \<open>What is discovered is what is sent\<close>

lemma set_update_sub: "set (AList.update k v d) \<subseteq> insert (k, v) (set d)"
  by (induction d) auto

lemma updates_Cons: "updates ((k, v) # kvs) d = updates kvs (AList.update k v d)"
  by (simp add: updates_def)

lemma updates_Nil [simp]: "updates [] d = d"
  by (simp add: updates_def)

lemma updates_sub: "set (updates kvs d) \<subseteq> set kvs \<union> set d"
proof (induction kvs arbitrary: d)
  case (Cons x kvs)
  then show ?case
    using set_update_sub [of "fst x" "snd x" d] by (cases x) (fastforce simp: updates_Cons)
qed simp

lemma updates_keys: "fst ` set (updates kvs d) = fst ` set d \<union> fst ` set kvs"
proof (induction kvs arbitrary: d)
  case (Cons x kvs)
  then show ?case by (cases x) (auto simp: updates_Cons dom_update image_iff)
qed simp

lemma updates_distinct: "distinct (map fst d) \<Longrightarrow> distinct (map fst (updates kvs d))"
proof (induction kvs arbitrary: d)
  case (Cons x kvs)
  then show ?case by (cases x) (simp add: updates_Cons distinct_update)
qed simp

lemma iface_keys: "fst ` set (iface_values rows i) = fst ` set (iface_components i)"
  by (auto simp: iface_values_def iface_components_def Let_def)

lemma device_keys: "map fst (device_values e state) = map fst device_components"
  by (simp add: device_values_def device_components_def)

lemma device_distinct: "distinct (map fst device_components)"
  by (simp add: device_components_def)

definition reads_key :: "string \<Rightarrow> pydict \<Rightarrow> bool" where
  "reads_key key c \<longleftrightarrow> pget c ''value_template'' = PStr (''{{ value_json.'' @ key @ '' }}'') \<and>
     pget c ''availability_template'' =
       PStr (''{{ 'online' if value_json.'' @ key @ '' is not none else 'offline' }}'')"

lemma sensor_reads: "reads_key key (sensor name key unit dc sc icon)"
  by (simp add: reads_key_def sensor_def pget_def)

lemma components_read: "(k, c) \<in> set (components is') \<Longrightarrow> reads_key k c"
proof -
  assume "(k, c) \<in> set (components is')"
  then have "(k, c) \<in> set device_components \<or> (\<exists>i. (k, c) \<in> set (iface_components i))"
    using updates_sub [of "concat (map iface_components is')" device_components]
    by (auto simp: components_def)
  then show ?thesis
    by (auto simp: device_components_def iface_components_def sensor_reads)
qed

text \<open>C31: the two documents of the telemetry agent agree: for any interfaces, names that collide
  included, the keys of a state document are exactly the components that were announced, each
  once, and each component reads its own key, has an identifier of its own, and is marked
  unavailable on the topic where the agent's last will is published.\<close>

theorem discovery_matches_state:
  assumes "collect e interfaces rates = (Inr payload, rates')"
  shows "fst ` set payload = fst ` set (discovered s interfaces) \<and> distinct (map fst payload) \<and>
    distinct (map (\<lambda>(k, c). pget c ''unique_id'') (discovered s interfaces)) \<and>
    list_all (\<lambda>(k, c). reads_key k c \<and> pget c ''unique_id'' = PStr (st_device_id s @ ''_'' @ k) \<and>
      pget c ''availability_topic'' = PStr (availability_topic s)) (discovered s interfaces)"
proof -
  from assms obtain state rows where
    p: "payload = updates (concat (map (iface_values rows) interfaces)) (device_values e state)"
    by (auto simp: collect_def op_defs split: sum.splits pyval.splits prod.splits)
  have dev: "fst ` set (device_values e state) = fst ` set device_components"
    using device_keys [of e state] by (metis list.set_map)
  have c: "distinct (map fst (components interfaces))"
    unfolding components_def by (rule updates_distinct [OF device_distinct])
  have "fst ` set payload = fst ` set (components interfaces)"
    unfolding p components_def updates_keys dev by (auto simp: iface_keys image_UN)
  moreover have "fst ` set (discovered s interfaces) = fst ` set (components interfaces)"
    unfolding discovered_def by (force simp: image_iff)
  moreover have "distinct (map fst payload)"
    unfolding p by (rule updates_distinct) (simp add: device_keys device_distinct)
  moreover have "map (\<lambda>(k, c). pget c ''unique_id'') (discovered s interfaces) =
      map (\<lambda>k. PStr (st_device_id s @ ''_'' @ k)) (map fst (components interfaces))"
    by (simp add: discovered_def pget_update case_prod_unfold comp_def)
  moreover have "distinct (map (\<lambda>k. PStr (st_device_id s @ ''_'' @ k)) (map fst (components interfaces)))"
    using c unfolding distinct_map [where f = "\<lambda>k. PStr (st_device_id s @ ''_'' @ k)"]
    by (simp add: inj_on_def)
  moreover have "list_all (\<lambda>(k, c). reads_key k c \<and> pget c ''unique_id'' = PStr (st_device_id s @ ''_'' @ k) \<and>
      pget c ''availability_topic'' = PStr (availability_topic s)) (discovered s interfaces)"
    using components_read by (force simp: list_all_iff discovered_def pget_update reads_key_def)
  ultimately show ?thesis by simp
qed

text \<open>Different interfaces may share their keys: the later one's values are sent for both.\<close>

lemma slug_collision: "slug ''eth0.1'' = slug ''eth0-1''"
  by (simp add: slug_def strip_by_def rstrip_by_def py_lower_def py_lower_char_def is_upper_az_def code_def
      is_lower_az_def is_ascii_digit_def)

definition idle_env :: collect_env where
  "idle_env = \<lparr>ce_now = 1, ce_counters = [(''wlan0'', \<lparr>nc_sent = 2, nc_recv = 3\<rparr>)], ce_zones = [], ce_cpu_percent = 5,
     ce_mem_percent = 6, ce_mem_used = 7, ce_disk_percent = 8, ce_disk_free = 9, ce_uptime = None,
     ce_synced = False, ce_boot_time = 0, ce_state = NoFile\<rparr>"

theorem discovery_matches_state_witness:
  "\<exists>payload rates'. collect idle_env [''wlan0''] (init_rates 0 []) = (Inr payload, rates') \<and>
     fst ` set payload = fst ` set (discovered \<lparr>st_device_id = ''pi'', st_device_name = [], st_interfaces = []\<rparr> [''wlan0''])"
proof -
  have "\<exists>payload rates'. collect idle_env [''wlan0''] (init_rates 0 []) = (Inr payload, rates')"
    by (simp add: collect_def op_defs idle_env_def load_state_def sample_def)
  then obtain payload rates' where "collect idle_env [''wlan0''] (init_rates 0 []) = (Inr payload, rates')" by blast
  from this discovery_matches_state [OF this] show ?thesis by blast
qed

section \<open>What the agent publishes\<close>

datatype payload = Raw string | Doc pydict

record message =
  m_topic :: string
  m_payload :: payload
  m_qos :: nat
  m_retain :: bool

record agent_cfg =
  ac_settings :: settings
  ac_build :: build
  ac_interfaces :: "string list"

definition publish_state :: "agent_cfg \<Rightarrow> collect_env \<Rightarrow> net_rates \<Rightarrow> message list \<times> net_rates" where
  \<comment> \<open>an exception is logged, and nothing is published\<close>
  "publish_state a e rates = (case collect e (ac_interfaces a) rates of
     (Inl _, r) \<Rightarrow> ([], r)
   | (Inr p, r) \<Rightarrow> ([\<lparr>m_topic = state_topic (ac_settings a), m_payload = Doc p, m_qos = 0, m_retain = True\<rparr>], r))"

definition availability :: "agent_cfg \<Rightarrow> string \<Rightarrow> message" where
  "availability a text = \<lparr>m_topic = availability_topic (ac_settings a), m_payload = Raw text, m_qos = 1, m_retain = True\<rparr>"

definition discovery :: "agent_cfg \<Rightarrow> message" where
  "discovery a = \<lparr>m_topic = ''homeassistant/device/'' @ st_device_id (ac_settings a) @ ''/config'',
     m_payload = Doc (discovery_payload (ac_build a) (ac_settings a) (ac_interfaces a)), m_qos = 1, m_retain = True\<rparr>"

definition last_will :: "agent_cfg \<Rightarrow> message" where
  "last_will a = availability a ''offline''"

definition keepalive_s :: "int \<Rightarrow> int" where
  "keepalive_s interval_s = max (interval_s * 2) 60"

lemma message_kinds:
  "discovery a \<noteq> availability a t" "availability a ''online'' \<noteq> last_will a"
  "m_topic m = state_topic (ac_settings a) \<Longrightarrow> m \<noteq> discovery a \<and> m \<noteq> availability a t"
  by (auto simp: discovery_def availability_def last_will_def state_topic_def availability_topic_def)

lemma publish_state_messages:
  assumes "publish_state a e rates = (ms, r)"
  shows "ms = [] \<or> (\<exists>m. ms = [m] \<and> m_topic m = state_topic (ac_settings a) \<and> m_qos m = 0 \<and> m_retain m)"
  using assms by (auto simp: publish_state_def split: prod.splits sum.splits)

definition test_agent :: agent_cfg where
  "test_agent = \<lparr>ac_settings = \<lparr>st_device_id = ''pi'', st_device_name = [], st_interfaces = []\<rparr>,
     ac_build = \<lparr>bd_version = ''1'', bd_machine = ''m'', bd_release = ''r''\<rparr>, ac_interfaces = [''wlan0'']\<rparr>"

end
