(* ===== verification/Coroutine.thy ===== *)
theory Coroutine
  imports HelperProps
begin

text \<open>
  The commands of the helper daemon as coroutines.  The daemon serves every connection in a
  task of its own on one thread (asyncio): between two \<open>await\<close>s a task runs undisturbed, and at
  an \<open>await _run(...)\<close> other tasks go on while the program runs.  A stage of a command is either
  its end or a program it waits for, together with what it does with the program's result; a
  coroutine runs the statements up to the first such stage.

  The commands are written here once more, cut at their \<open>await\<close>s, and shown to be the commands
  of \<open>Helper\<close> when nothing else runs.
\<close>

section \<open>Stages\<close>

type_synonym prog_result = "exn + (int \<times> string \<times> string)"

datatype ('x, 'a) stage =
    Over "exn + 'a"
  | Await "string list" "string option" "prog_result \<Rightarrow> 'x host \<Rightarrow> ('x, 'a) stage \<times> 'x host"

type_synonym ('x, 'a) co = "'x host \<Rightarrow> ('x, 'a) stage \<times> 'x host"

primrec then_stage :: "(exn + 'a \<Rightarrow> ('x, 'b) co) \<Rightarrow> ('x, 'a) stage \<Rightarrow> ('x, 'b) co" where
  "then_stage f (Over r) = f r"
| "then_stage f (Await argv inp k) = (\<lambda>h.
     (Await argv inp (\<lambda>r h'. case map_prod (then_stage f) id (k r h') of (g, h'') \<Rightarrow> g h''), h))"

definition andthen :: "('x, 'a) co \<Rightarrow> (exn + 'a \<Rightarrow> ('x, 'b) co) \<Rightarrow> ('x, 'b) co" where
  \<comment> \<open>the second part also runs after an exception, which it is given\<close>
  "andthen m f h = (case m h of (s, h') \<Rightarrow> then_stage f s h')"

definition sync :: "('x, 'a) hop \<Rightarrow> ('x, 'a) co" where
  \<comment> \<open>statements without an \<open>await\<close>\<close>
  "sync m h = (case m h of (r, h') \<Rightarrow> (Over r, h'))"

definition await_run :: "string list \<Rightarrow> string option \<Rightarrow> ('x, int \<times> string \<times> string) co" where
  "await_run argv inp h = (Await argv inp (\<lambda>r h'. (Over r, h')), h)"

definition bindc :: "('x, 'a) co \<Rightarrow> ('a \<Rightarrow> ('x, 'b) co) \<Rightarrow> ('x, 'b) co" where
  "bindc m f = andthen m (\<lambda>r. case r of Inl e \<Rightarrow> sync (raise e) | Inr x \<Rightarrow> f x)"

definition finallyc :: "('x, 'a) co \<Rightarrow> ('x, unit) hop \<Rightarrow> ('x, 'a) co" where
  "finallyc m c = andthen m (\<lambda>r. sync (finallym (liftr r) c))"

section \<open>The commands\<close>

definition checked_await :: "string list \<Rightarrow> string option \<Rightarrow> string \<Rightarrow> ('x, string) co" where
  "checked_await argv inp what =
     bindc (await_run argv inp) (\<lambda>(rc, out, err).
     bindc (sync (assertm (rc = 0) (HelperError (what @ '' failed: '' @ err)))) (\<lambda>_.
     sync (ret out)))"

definition co_genkey :: "'x env \<Rightarrow> jdict \<Rightarrow> ('x, jdict) co" where
  "co_genkey env req =
     bindc (checked_await [''wg'', ''genkey''] None ''wg genkey'') (\<lambda>priv.
     bindc (checked_await [''wg'', ''pubkey''] (Some priv) ''wg pubkey'') (\<lambda>pub.
     sync (ret [(''private_key'', JStr (py_strip priv)), (''public_key'', JStr (py_strip pub))])))"

definition co_create_tunnel :: "'x env \<Rightarrow> jdict \<Rightarrow> ('x, jdict) co" where
  \<comment> \<open>an \<open>async def\<close> without an \<open>await\<close>\<close>
  "co_create_tunnel env req = sync (cmd_create_tunnel env req)"

definition co_delete_tunnel :: "'x env \<Rightarrow> jdict \<Rightarrow> ('x, jdict) co" where
  "co_delete_tunnel env req =
     bindc (sync (liftr (validate_tunnel_name (jget req ''name'')))) (\<lambda>name.
     bindc (await_run [''systemctl'', ''disable'', ''--now'', unit_name name] None) (\<lambda>_.
     bindc (sync (os_unlink env (conf_path name))) (\<lambda>_.
     sync (ret []))))"

definition co_live_add :: "'x env \<Rightarrow> string list \<Rightarrow> string option \<Rightarrow> ('x, unit) co" where
  "co_live_add env args preshared_key = (case preshared_key of
     None \<Rightarrow> bindc (checked_await args None ''wg set'') (\<lambda>_. sync (ret ()))
   | Some k \<Rightarrow> finallyc
       (bindc (sync (os_open_excl env (psk_path env) 384)) (\<lambda>_.
        bindc (sync (os_write env (psk_path env) (k @ [nl]))) (\<lambda>_.
        bindc (checked_await (args @ [''preshared-key'', path_str (psk_path env)]) None ''wg set'')
          (\<lambda>_. sync (ret ())))))
       (os_unlink env (psk_path env)))"

definition add_edit :: "'x env \<Rightarrow> jdict \<Rightarrow> ('x, bool \<times> string list \<times> string option) hop" where
  \<comment> \<open>\<open>cmd_add_peer\<close> up to the test whether the interface is up: whether it is, the arguments for
      \<open>wg set\<close> and the key\<close>
  "add_edit env req =
     bindm (liftr (validate_tunnel_name (jget req ''tunnel''))) (\<lambda>tunnel.
     bindm (liftr (validate_wg_key (jget req ''public_key'') ''public_key'')) (\<lambda>public_key.
     bindm (liftr (validate_allowed_ips (jget req ''allowed_ips''))) (\<lambda>allowed_ips.
     bindm (liftr (optional_key (jget req ''preshared_key''))) (\<lambda>preshared_key.
     bindm (assertm (keepalive_ok (jget req ''keepalive'')) (HelperError ''invalid keepalive'')) (\<lambda>_.
     bindm (read_conf tunnel) (\<lambda>content.
     bindm (assertm (\<not> list_ex (has_key public_key) (snd (split_conf content)))
              (HelperError ''peer already exists'')) (\<lambda>_.
     bindm (write_conf env tunnel (rebuild_conf (fst (split_conf content))
              (snd (split_conf content) @
               [peer_block public_key preshared_key allowed_ips (jget req ''keepalive'')]))) (\<lambda>_.
     bindm (is_interface_up env tunnel) (\<lambda>up.
     ret (up, wg_set_args tunnel public_key allowed_ips (jget req ''keepalive''), preshared_key))))))))))"

definition co_add_peer :: "'x env \<Rightarrow> jdict \<Rightarrow> ('x, jdict) co" where
  "co_add_peer env req =
     bindc (sync (add_edit env req)) (\<lambda>(up, args, preshared_key).
     bindc (if up then co_live_add env args preshared_key else sync (ret ())) (\<lambda>_.
     sync (ret [])))"

definition remove_edit :: "'x env \<Rightarrow> jdict \<Rightarrow> ('x, bool \<times> string \<times> string) hop" where
  \<comment> \<open>\<open>cmd_remove_peer\<close> up to the same test: whether it is up, the tunnel and the key\<close>
  "remove_edit env req =
     bindm (liftr (validate_tunnel_name (jget req ''tunnel''))) (\<lambda>tunnel.
     bindm (liftr (validate_wg_key (jget req ''public_key'') ''public_key'')) (\<lambda>public_key.
     bindm (read_conf tunnel) (\<lambda>content.
     bindm (write_conf env tunnel (rebuild_conf (fst (split_conf content))
              (filter (\<lambda>b. \<not> has_key public_key b) (snd (split_conf content))))) (\<lambda>_.
     bindm (is_interface_up env tunnel) (\<lambda>up.
     ret (up, tunnel, public_key))))))"

definition co_remove_peer :: "'x env \<Rightarrow> jdict \<Rightarrow> ('x, jdict) co" where
  "co_remove_peer env req =
     bindc (sync (remove_edit env req)) (\<lambda>(up, tunnel, public_key).
     bindc (if up then bindc (checked_await [''wg'', ''set'', tunnel, ''peer'', public_key, ''remove'']
                        None ''wg set remove'') (\<lambda>_. sync (ret ()))
            else sync (ret ())) (\<lambda>_.
     sync (ret [])))"

fun co_entries :: "'x env \<Rightarrow> (string \<times> live_entry) list \<Rightarrow> string list \<Rightarrow> ('x, json list) co" where
  "co_entries env live [] = sync (ret [])"
| "co_entries env live (tname # ts) =
     bindc (await_run [''systemctl'', ''is-active'', unit_name tname] None) (\<lambda>(rc, out, err).
     bindc (sync (catchm (bindm (read_conf tname) (\<lambda>c. ret (parse_conf_info c)))
              (\<lambda>e. case e of HelperError _ \<Rightarrow> ret no_conf_info | PyError _ \<Rightarrow> raise e))) (\<lambda>ci.
     bindc (co_entries env live ts) (\<lambda>rest.
     sync (ret (status_entry tname (py_strip out = ''active'') (map_of live tname) ci # rest)))))"

definition co_tunnel_status :: "'x env \<Rightarrow> jdict \<Rightarrow> ('x, jdict) co" where
  "co_tunnel_status env req =
     bindc (sync (liftr (optional_name (jget req ''name'')))) (\<lambda>name.
     bindc (sync getm) (\<lambda>h.
     bindc (await_run [''wg'', ''show'', ''all'', ''dump''] None) (\<lambda>(rc, dump_out, err).
     bindc (sync (liftr (if rc = 0 then live_lines [] (py_splitlines dump_out) else Inr []))) (\<lambda>live.
     bindc (co_entries env live
              (case name of None \<Rightarrow> conf_stems h | Some n \<Rightarrow> filter (\<lambda>m. m = n) (conf_stems h))) (\<lambda>tunnels.
     sync (ret [(''tunnels'', JList tunnels)]))))))"

definition co_set_tunnel_state :: "'x env \<Rightarrow> jdict \<Rightarrow> ('x, jdict) co" where
  "co_set_tunnel_state env req =
     bindc (sync (liftr (validate_tunnel_name (jget req ''name'')))) (\<lambda>name.
     bindc (sync (liftr (action_of (jget req ''action'')))) (\<lambda>action.
     bindc (sync (exists_file (conf_path name))) (\<lambda>present.
     bindc (sync (assertm present (HelperError ''tunnel not found''))) (\<lambda>_.
     bindc (checked_await ([''systemctl''] @ state_args action @ [unit_name name]) None ''systemctl'') (\<lambda>_.
     sync (ret []))))))"

definition co_dispatch :: "string \<Rightarrow> ('x env \<Rightarrow> jdict \<Rightarrow> ('x, jdict) co) option" where
  "co_dispatch cmd =
     map_of [(''genkey'', co_genkey), (''create_tunnel'', co_create_tunnel),
       (''delete_tunnel'', co_delete_tunnel), (''add_peer'', co_add_peer),
       (''remove_peer'', co_remove_peer), (''tunnel_status'', co_tunnel_status),
       (''set_tunnel_state'', co_set_tunnel_state)] cmd"

lemma bindc_sync: "bindc (sync m) f h = (case m h of (Inl e, h') \<Rightarrow> (Over (Inl e), h') | (Inr x, h') \<Rightarrow> f x h')"
  by (simp add: bindc_def andthen_def sync_def raise_def split: prod.split sum.split)

lemma bindc_await: "bindc (await_run argv inp) f h =
    (Await argv inp (\<lambda>r h'. case r of Inl e \<Rightarrow> (Over (Inl e), h') | Inr x \<Rightarrow> f x h'), h)"
  by (auto simp: bindc_def andthen_def await_run_def sync_def raise_def fun_eq_iff split: sum.split)

lemma checked_await_eq: "bindc (checked_await argv inp w) f h = (Await argv inp (\<lambda>r h'. case r of
      Inl e \<Rightarrow> (Over (Inl e), h')
    | Inr (rc, out, err) \<Rightarrow> if rc = 0 then f out h' else (Over (Inl (HelperError (w @ '' failed: '' @ err))), h')), h)"
  by (simp add: checked_await_def bindc_await)
    (auto simp: bindc_def andthen_def sync_def raise_def ret_def assertm_def fun_eq_iff await_run_def
      split: sum.split prod.split)

section \<open>A coroutine on its own\<close>

primrec finish :: "'x env \<Rightarrow> ('x, 'a) stage \<Rightarrow> ('x, 'a) hop" where
  "finish env (Over r) = (\<lambda>h. (r, h))"
| "finish env (Await argv inp k) = (\<lambda>h. case run_prog env argv inp h of (r, h1) \<Rightarrow>
     (case map_prod (finish env) id (k r h1) of (g, h2) \<Rightarrow> g h2))"

definition alone :: "'x env \<Rightarrow> ('x, 'a) co \<Rightarrow> ('x, 'a) hop" where
  "alone env m h = (case m h of (s, h') \<Rightarrow> finish env s h')"

lemma alone_sync [simp]: "alone env (sync m) = m"
  by (simp add: fun_eq_iff alone_def sync_def split: prod.split)

lemma alone_await [simp]: "alone env (await_run argv inp) = run_prog env argv inp"
  by (simp add: fun_eq_iff alone_def await_run_def split: prod.split)

lemma alone_then_stage:
  "alone env (then_stage f s) h = (case finish env s h of (r, h') \<Rightarrow> alone env (f r) h')"
proof (induction s arbitrary: h)
  case (Over r)
  then show ?case by simp
next
  case (Await argv inp k)
  obtain r h1 where r: "run_prog env argv inp h = (r, h1)" by (meson surj_pair)
  obtain s h2 where s: "k r h1 = (s, h2)" by (meson surj_pair)
  have "alone env (then_stage f s) h2 = (case finish env s h2 of (r, h') \<Rightarrow> alone env (f r) h')"
    by (rule Await [of "k r" "(s, h2)" s]) (auto simp: s intro: rangeI [of "k r" h1, unfolded s] fsts.intros)
  then show ?case using r s by (simp add: alone_def split: prod.splits)
qed

lemma alone_andthen:
  "alone env (andthen m f) h = (case alone env m h of (r, h') \<Rightarrow> alone env (f r) h')"
proof -
  obtain s h' where m: "m h = (s, h')" by (meson surj_pair)
  have "alone env (andthen m f) h = alone env (then_stage f s) h'"
    by (simp add: alone_def andthen_def m)
  then show ?thesis using alone_then_stage [of env f s h'] by (simp add: alone_def m)
qed

lemma alone_bindc [simp]: "alone env (bindc m f) = bindm (alone env m) (\<lambda>x. alone env (f x))"
  by (auto simp: fun_eq_iff bindc_def alone_andthen bindm_def raise_def split: prod.split sum.split)

lemma alone_finallyc [simp]: "alone env (finallyc m c) = finallym (alone env m) c"
  by (auto simp: fun_eq_iff finallyc_def alone_andthen finallym_def liftr_def split: prod.split)

lemma alone_if [simp]: "alone env (if b then m else m') = (if b then alone env m else alone env m')"
  by simp

lemma alone_checked [simp]: "alone env (checked_await argv inp w) = checked_run env argv inp w"
  by (simp add: checked_await_def checked_run_def split_def)

lemma alone_live_add [simp]: "alone env (co_live_add env args psk) = live_add env args psk"
  by (cases psk) (simp_all add: co_live_add_def live_add_def)

lemma alone_entries [simp]: "alone env (co_entries env live ts) = tunnel_entries env live ts"
  by (induction ts) (simp_all add: split_def)

lemma add_split: "cmd_add_peer env req = bindm (add_edit env req) (\<lambda>(up, args, psk).
    bindm (if up then live_add env args psk else ret ()) (\<lambda>_. ret []))"
  by (simp add: cmd_add_peer_def add_edit_def bindm_assoc)

lemma remove_split: "cmd_remove_peer env req = bindm (remove_edit env req) (\<lambda>(up, tunnel, key).
    bindm (if up then bindm (checked_run env [''wg'', ''set'', tunnel, ''peer'', key, ''remove'']
        None ''wg set remove'') (\<lambda>_. ret ()) else ret ()) (\<lambda>_. ret []))"
  by (simp add: cmd_remove_peer_def remove_edit_def bindm_assoc)

lemmas co_defs = co_genkey_def co_create_tunnel_def co_delete_tunnel_def co_add_peer_def
  co_remove_peer_def co_tunnel_status_def co_set_tunnel_state_def

lemma alone_commands:
  "alone env (co_genkey env req) = cmd_genkey env req"
  "alone env (co_create_tunnel env req) = cmd_create_tunnel env req"
  "alone env (co_delete_tunnel env req) = cmd_delete_tunnel env req"
  "alone env (co_add_peer env req) = cmd_add_peer env req"
  "alone env (co_remove_peer env req) = cmd_remove_peer env req"
  "alone env (co_tunnel_status env req) = cmd_tunnel_status env req"
  "alone env (co_set_tunnel_state env req) = cmd_set_tunnel_state env req"
  by (simp_all add: co_defs cmd_genkey_def cmd_delete_tunnel_def add_split remove_split
      cmd_tunnel_status_def cmd_set_tunnel_state_def split_def cong: if_cong)

text \<open>A command that no other request interrupts is the command as one operation: for every
  command of the daemon, running its stages to the end with the programs answering at once gives
  the same answer and the same host, whatever fails.\<close>

lemma stages_are_the_command:
  "(case co_dispatch c of
      Some co \<Rightarrow> \<exists>handler. helper_dispatch c = Some handler \<and> alone env (co env req) = handler env req
    | None \<Rightarrow> helper_dispatch c = (None :: ('x env \<Rightarrow> jdict \<Rightarrow> ('x, jdict) hop) option))"
  by (auto simp: co_dispatch_def helper_dispatch_def alone_commands split: option.split)

section \<open>What a coroutine can do\<close>

text \<open>
  \<open>behaves P R A s\<close>: whatever the programs answer and whatever other tasks do in between, every
  stretch of the stage changes the host by \<open>R\<close> only, it waits for programs with arguments in \<open>A\<close>
  only, and its end satisfies \<open>P\<close>.
\<close>

inductive behaves :: "(exn + 'a \<Rightarrow> bool) \<Rightarrow> ('x host \<Rightarrow> 'x host \<Rightarrow> bool) \<Rightarrow> (string list \<Rightarrow> bool) \<Rightarrow>
    ('x, 'a) stage \<Rightarrow> bool" for P R A where
  behaves_Over: "P r \<Longrightarrow> behaves P R A (Over r)"
| behaves_Await: "A argv \<Longrightarrow> (\<And>r h. R h (snd (k r h))) \<Longrightarrow> (\<And>r h. behaves P R A (fst (k r h))) \<Longrightarrow>
    behaves P R A (Await argv inp k)"

inductive_simps behaves_Over_iff [simp]: "behaves P R A (Over r)"
inductive_cases behaves_AwaitE: "behaves P R A (Await argv inp k)"

definition stays :: "(exn + 'a \<Rightarrow> bool) \<Rightarrow> ('x host \<Rightarrow> 'x host \<Rightarrow> bool) \<Rightarrow> (string list \<Rightarrow> bool) \<Rightarrow>
    ('x, 'a) co \<Rightarrow> bool" where
  "stays P R A m \<longleftrightarrow> (\<forall>h. R h (snd (m h)) \<and> behaves P R A (fst (m h)))"

lemma behaves_resume:
  "behaves P R A (Await argv inp k) \<Longrightarrow> k r h = (s, h') \<Longrightarrow> R h h' \<and> behaves P R A s"
  by (erule behaves_AwaitE) (metis fst_conv snd_conv)

lemma behaves_waits: "behaves P R A (Await argv inp k) \<Longrightarrow> A argv"
  by (auto elim: behaves_AwaitE)

lemma behaves_mono:
  "behaves P R A s \<Longrightarrow> (\<And>r. P r \<Longrightarrow> P' r) \<Longrightarrow> (\<And>h h'. R h h' \<Longrightarrow> R' h h') \<Longrightarrow> (\<And>a. A a \<Longrightarrow> A' a) \<Longrightarrow>
   behaves P' R' A' s"
  by (induction s rule: behaves.induct) (auto intro: behaves.intros)

lemma stays_mono:
  "stays P R A m \<Longrightarrow> (\<And>r. P r \<Longrightarrow> P' r) \<Longrightarrow> (\<And>h h'. R h h' \<Longrightarrow> R' h h') \<Longrightarrow> (\<And>a. A a \<Longrightarrow> A' a) \<Longrightarrow>
   stays P' R' A' m"
  unfolding stays_def using behaves_mono by blast

lemma stays_start: "stays P R A m \<Longrightarrow> m h = (s, h') \<Longrightarrow> R h h' \<and> behaves P R A s"
  unfolding stays_def by (metis fst_conv snd_conv)

lemma stays_sync: "keeps R m \<Longrightarrow> (\<And>h. P (fst (m h))) \<Longrightarrow> stays P R A (sync m)"
  by (auto simp: stays_def keeps_def sync_def split: prod.split intro: behaves_Over) (metis fst_conv snd_conv)+

locale host_frame = frame_rel R for R :: "'x host \<Rightarrow> 'x host \<Rightarrow> bool"
begin

lemma stays_await: "A argv \<Longrightarrow> (\<And>r. P r) \<Longrightarrow> stays P R A (await_run argv inp)"
  by (auto simp: stays_def await_run_def frame_refl intro!: behaves_Await)

lemma then_stage_stays:
  assumes "behaves Q R A s" and "\<And>r. Q r \<Longrightarrow> stays P R A (f r)"
  shows "stays P R A (then_stage f s)"
  using assms(1)
proof (induction s rule: behaves.induct)
  case (behaves_Over r)
  then show ?case using assms(2) by simp
next
  case (behaves_Await argv k inp)
  let ?k = "\<lambda>r h'. case map_prod (then_stage f) id (k r h') of (g, h'') \<Rightarrow> g h''"
  have "R h (snd (?k r h)) \<and> behaves P R A (fst (?k r h))" for r h
  proof -
    obtain s h1 where s: "k r h = (s, h1)" by (meson surj_pair)
    have "R h h1" using behaves_Await.hyps(2) [of h r] s by simp
    moreover have "R h1 (snd (then_stage f s h1)) \<and> behaves P R A (fst (then_stage f s h1))"
      using behaves_Await.IH [of r h] s by (simp add: stays_def)
    ultimately show ?thesis using s frame_trans by auto
  qed
  then have "behaves P R A (Await argv inp ?k)"
    using behaves_Await.hyps(1) by (intro behaves.behaves_Await) blast+
  then show ?case by (simp add: stays_def frame_refl)
qed

lemma stays_andthen:
  assumes "stays Q R A m" and "\<And>r. Q r \<Longrightarrow> stays P R A (f r)"
  shows "stays P R A (andthen m f)"
  unfolding stays_def
proof
  fix h
  obtain s h1 where s: "m h = (s, h1)" by (meson surj_pair)
  with assms(1) have "R h h1" "behaves Q R A s" by (auto dest: stays_start)
  moreover from this have "stays P R A (then_stage f s)" by (intro then_stage_stays assms(2))
  ultimately show "R h (snd (andthen m f h)) \<and> behaves P R A (fst (andthen m f h))"
    using s frame_trans by (auto simp: andthen_def stays_def)
qed

lemma stays_bindc:
  assumes "stays Q R A m" and "\<And>x. Q (Inr x) \<Longrightarrow> stays P R A (f x)" and "\<And>e. Q (Inl e) \<Longrightarrow> P (Inl e)"
  shows "stays P R A (bindc m f)"
  unfolding bindc_def
proof (rule stays_andthen [OF assms(1)])
  fix r assume "Q r"
  then show "stays P R A (case r of Inl e \<Rightarrow> sync (raise e) | Inr x \<Rightarrow> f x)"
    using assms(2,3) by (cases r) (auto intro!: stays_sync simp: keeps_raise raise_def)
qed

lemma stays_lift_bindc:
  "(\<And>x. r = Inr x \<Longrightarrow> stays P R A (f x)) \<Longrightarrow> (\<And>e. P (Inl e)) \<Longrightarrow> stays P R A (bindc (sync (liftr r)) f)"
  by (rule stays_bindc [where Q = "\<lambda>q. q = r"]) (auto intro!: stays_sync simp: keeps_lift liftr_def)

lemma stays_sync_bindc:
  assumes "keeps R m" and "\<And>h x h'. m h = (Inr x, h') \<Longrightarrow> stays P R A (f x)" and "\<And>e. P (Inl e)"
  shows "stays P R A (bindc (sync m) f)"
  unfolding stays_def
proof
  fix h
  obtain r h1 where r: "m h = (r, h1)" by (meson surj_pair)
  then have h1: "R h h1" using assms(1) by (metis keeps_def snd_conv)
  show "R h (snd (bindc (sync m) f h)) \<and> behaves P R A (fst (bindc (sync m) f h))"
  proof (cases r)
    case (Inl e)
    with r h1 assms(3) show ?thesis by (simp add: bindc_sync)
  next
    case (Inr x)
    have "stays P R A (f x)" by (rule assms(2)) (use r Inr in simp)
    then show ?thesis using r Inr h1 frame_trans by (auto simp: bindc_sync stays_def)
  qed
qed

lemmas stays_any = stays_bindc [where Q = "\<lambda>_. True"] stays_andthen [where Q = "\<lambda>_. True"]

lemma stays_ret: "P (Inr x) \<Longrightarrow> stays P R A (sync (ret x))"
  by (auto intro!: stays_sync simp: keeps_ret ret_def)

lemma stays_checked: "A argv \<Longrightarrow> stays (\<lambda>_. True) R A (checked_await argv inp w)"
  unfolding checked_await_def
  by (auto intro!: stays_any(1) stays_await stays_sync simp: keeps_assert keeps_ret split: prod.splits)

lemma stays_finallyc: "stays (\<lambda>_. True) R A m \<Longrightarrow> keeps R c \<Longrightarrow> stays (\<lambda>_. True) R A (finallyc m c)"
  unfolding finallyc_def by (auto intro!: stays_any(2) stays_sync simp: keeps_finally keeps_lift)

lemmas stays_rules = stays_any(1) stays_await stays_ret stays_checked stays_finallyc

end

interpretation stay: host_frame "touches P A" for P A
  by unfold_locales

section \<open>The commands stay inside\<close>

abbreviation changes :: "(path \<Rightarrow> bool) \<Rightarrow> 'x host \<Rightarrow> 'x host \<Rightarrow> bool" where
  \<comment> \<open>and no program is started\<close>
  "changes Q \<equiv> touches Q (\<lambda>_. False)"

lemma changes_mono: "changes Q h h' \<Longrightarrow> (\<And>p. Q p \<Longrightarrow> Q' p) \<Longrightarrow> changes Q' h h'"
  by (rule touches_mono)

lemma stays_changes_mono:
  "stays P (changes Q) A m \<Longrightarrow> (\<And>p. Q p \<Longrightarrow> Q' p) \<Longrightarrow> stays P (changes Q') A m"
  by (erule stays_mono) (auto elim: changes_mono)

lemma confined_sync: "keeps (changes Q) m \<Longrightarrow> stays (\<lambda>_. True) (changes Q) A (sync m)"
  by (rule stays_sync) simp_all

definition takes_key :: "string list \<Rightarrow> bool" where
  \<comment> \<open>the program reads a key from the file that is its last argument\<close>
  "takes_key argv \<longleftrightarrow> 2 \<le> length argv \<and> argv ! (length argv - 2) = ''preshared-key''"

definition plain_argv :: "'x env \<Rightarrow> string list \<Rightarrow> bool" where
  "plain_argv env argv \<longleftrightarrow> argv_ok env argv \<and> \<not> takes_key argv"

lemma plain_simple:
  "plain_argv env [''wg'', ''genkey'']" "plain_argv env [''wg'', ''pubkey'']"
  "plain_argv env [''wg'', ''show'', ''all'', ''dump'']"
  "plain_argv env [''systemctl'', ''is-active'', unit_name t]"
  by (simp_all add: plain_argv_def takes_key_def argv_ok_simple)

lemma plain_systemctl:
  "valid_name n \<Longrightarrow> plain_argv env ([''systemctl''] @ state_args a @ [unit_name n])"
  "valid_name n \<Longrightarrow> plain_argv env [''systemctl'', ''disable'', ''--now'', unit_name n]"
  using argv_ok_systemctl [of n env] unfolding plain_argv_def by (simp_all add: takes_key_def state_args_def)

lemma plain_remove:
  assumes "valid_name n" and "valid_key k"
  shows "plain_argv env [''wg'', ''set'', n, ''peer'', k, ''remove'']"
proof -
  have "44 \<le> length k" using assms(2) by (auto simp: valid_key_def or_nl_def key_core_def)
  then have "k \<noteq> ''preshared-key''" by auto
  then show ?thesis using argv_ok_remove [OF assms] by (simp add: plain_argv_def takes_key_def)
qed

lemma plain_add:
  assumes "valid_name n" and "valid_key k" and "ips_arg ips" and "keepalive_ok v"
  shows "plain_argv env (wg_set_args n k ips v)"
proof -
  have "\<not> takes_key (wg_set_args n k ips v)" by (simp add: takes_key_def wg_set_args_def)
  then show ?thesis using argv_ok_add(1) [OF assms] by (simp add: plain_argv_def)
qed

lemma confined_live_add:
  assumes "A args" and "A (args @ [''preshared-key'', path_str (psk_path env)])"
  shows "stays (\<lambda>_. True) (changes (\<lambda>p. p = psk_path env)) A (co_live_add env args psk)"
  unfolding co_live_add_def using assms
  by (cases psk) (auto intro!: stay.stays_rules confined_sync touch_rules)

lemma confined_genkey: "stays (\<lambda>_. True) (changes Q) (plain_argv env) (co_genkey env req)"
  unfolding co_genkey_def by (intro stay.stays_rules plain_simple) simp_all

lemma confined_create: "stays (\<lambda>_. True) (changes (request_path env req)) A (co_create_tunnel env req)"
  unfolding co_create_tunnel_def by (intro confined_sync touch_create)

lemma confined_delete: "stays (\<lambda>_. True) (changes (request_path env req)) (plain_argv env) (co_delete_tunnel env req)"
  unfolding co_delete_tunnel_def
  by (intro stay.stays_lift_bindc stay.stays_rules confined_sync touch_rules)
    (simp_all add: validators_iff request_pathI plain_systemctl)

lemma confined_entries: "stays (\<lambda>_. True) (changes Q) (plain_argv env) (co_entries env live ts)"
proof (induction ts)
  case Nil
  then show ?case by (simp add: stay.stays_ret)
next
  case (Cons t ts)
  then show ?case
    by (auto intro!: stay.stays_rules confined_sync touch_helper plain_simple split: prod.splits exn.splits)
qed

lemma confined_status: "stays (\<lambda>_. True) (changes Q) (plain_argv env) (co_tunnel_status env req)"
  unfolding co_tunnel_status_def
  by (auto intro!: stay.stays_rules confined_sync confined_entries touch_rules plain_simple split: prod.splits)

lemma confined_state: "stays (\<lambda>_. True) (changes Q) (plain_argv env) (co_set_tunnel_state env req)"
  unfolding co_set_tunnel_state_def
  by (intro stay.stays_lift_bindc stay.stays_rules confined_sync touch_rules)
    (auto simp: validators_iff simp del: append_Cons append_Nil intro!: plain_systemctl)

lemma add_edit_result:
  assumes "add_edit env req h = (Inr (up, args, psk), h')"
  shows "\<exists>n k ips. valid_name n \<and> valid_key k \<and> ips_arg ips \<and> keepalive_ok (jget req ''keepalive'') \<and>
    optional_key (jget req ''preshared_key'') = Inr psk \<and> args = wg_set_args n k ips (jget req ''keepalive'')"
  using assms unfolding add_edit_def
  by (elim bindm_InrE)
    (auto simp: liftr_def assertm_def ret_def validate_tunnel_name_iff validate_wg_key_iff
      split: if_splits intro!: exI intro: ips_arg_validated)

lemma touch_add_edit: "keeps (changes (request_path env req)) (add_edit env req)"
  unfolding add_edit_def
  by (intro touch_steps) (auto simp: validate_tunnel_name_iff validate_wg_key_iff request_pathI)

lemma touch_remove_edit: "keeps (changes (request_path env req)) (remove_edit env req)"
  unfolding remove_edit_def
  by (intro touch_steps) (auto simp: validators_iff request_pathI)

lemma remove_edit_result:
  assumes "remove_edit env req h = (Inr (up, n, k), h')"
  shows "valid_name n \<and> valid_key k"
  using assms unfolding remove_edit_def
  by (auto elim!: bindm_InrE simp: liftr_def ret_def validate_tunnel_name_iff validate_wg_key_iff)

lemma confined_add: "stays (\<lambda>_. True) (changes (request_path env req)) (argv_ok env) (co_add_peer env req)"
  unfolding co_add_peer_def
proof (rule stay.stays_sync_bindc [OF touch_add_edit])
  fix h x h' assume "add_edit env req h = (Inr x, h')"
  moreover obtain up args psk where x: "x = (up, args, psk)" by (cases x)
  ultimately obtain n k ips where "valid_name n" "valid_key k" "ips_arg ips"
      "keepalive_ok (jget req ''keepalive'')" "args = wg_set_args n k ips (jget req ''keepalive'')"
    using add_edit_result [of env req h up args psk h'] by blast
  then have "stays (\<lambda>_. True) (changes (\<lambda>p. p = psk_path env)) (argv_ok env) (co_live_add env args psk)"
    using argv_ok_add by (intro confined_live_add) simp_all
  then have "stays (\<lambda>_. True) (changes (request_path env req)) (argv_ok env) (co_live_add env args psk)"
    by (rule stays_changes_mono) (simp add: request_pathI)
  then show "stays (\<lambda>_. True) (changes (request_path env req)) (argv_ok env) (case x of (up, args, preshared_key) \<Rightarrow>
      bindc (if up then co_live_add env args preshared_key else sync (ret ())) (\<lambda>_. sync (ret [])))"
    by (auto simp: x intro!: stay.stays_rules)
qed simp

lemma confined_remove: "stays (\<lambda>_. True) (changes (request_path env req)) (plain_argv env) (co_remove_peer env req)"
  unfolding co_remove_peer_def
proof (rule stay.stays_sync_bindc [OF touch_remove_edit])
  fix h x h' assume r: "remove_edit env req h = (Inr x, h')"
  obtain up n k where x: "x = (up, n, k)" by (cases x)
  have "valid_name n" "valid_key k" using remove_edit_result r x by blast+
  then show "stays (\<lambda>_. True) (changes (request_path env req)) (plain_argv env) (case x of (up, tunnel, public_key) \<Rightarrow>
      bindc (if up then bindc (checked_await [''wg'', ''set'', tunnel, ''peer'', public_key, ''remove''] None
            ''wg set remove'') (\<lambda>_. sync (ret ())) else sync (ret ())) (\<lambda>_. sync (ret [])))"
    by (auto simp: x intro!: stay.stays_rules plain_remove)
qed simp

lemma confined_plain:
  assumes "co_dispatch c = Some co" and "c \<noteq> ''add_peer''"
  shows "stays (\<lambda>_. True) (changes (request_path env req)) (plain_argv env) (co env req)"
  using assms confined_genkey confined_create confined_delete confined_remove confined_status confined_state
  by (auto simp: co_dispatch_def split: if_splits)

lemma confined_dispatch:
  assumes "co_dispatch c = Some co"
  shows "stays (\<lambda>_. True) (changes (request_path env req)) (argv_ok env) (co env req)"
proof (cases "c = ''add_peer''")
  case True
  then show ?thesis using assms confined_add by (simp add: co_dispatch_def)
next
  case False
  show ?thesis by (rule stays_mono [OF confined_plain [OF assms False]]) (simp_all add: plain_argv_def)
qed

end
