(* ===== verification/Interleave.thy ===== *)
theory Interleave
  imports Coroutine
begin

text \<open>
  Several requests at once.  The state of the serving daemon is the host and one job per
  connection, in the order of their arrival; an event is a request that arrives and runs to its
  first \<open>await\<close>, a program that ends, or a job that goes on with the result.  Any sequence of
  events is a schedule.  The theorems: the requests that edit tunnels are linearizable, and what
  the programs are told is not.
\<close>

section \<open>Jobs and events\<close>

datatype 'x job =
    Waiting "string list" "string option" "prog_result \<Rightarrow> 'x host \<Rightarrow> ('x, jdict) stage \<times> 'x host"
  | Resumable prog_result "prog_result \<Rightarrow> 'x host \<Rightarrow> ('x, jdict) stage \<times> 'x host"
  | Answered "exn + jdict"

record 'x serving =
  sv_host :: "'x host"
  sv_jobs :: "'x job list"

datatype sched =
    Arrive string jdict   \<comment> \<open>an authorised request, its command and fields\<close>
  | Ends nat              \<comment> \<open>the program the job waits for does its work and ends\<close>
  | Resume nat            \<comment> \<open>the job goes on to its next \<open>await\<close> or its answer\<close>

definition job_of :: "('x, jdict) stage \<Rightarrow> 'x job" where
  "job_of s = (case s of Over r \<Rightarrow> Answered r | Await argv inp k \<Rightarrow> Waiting argv inp k)"

definition job_env :: "'x env \<Rightarrow> (nat \<Rightarrow> nat) \<Rightarrow> nat \<Rightarrow> 'x env" where
  \<comment> \<open>\<open>id(req)\<close> differs between requests\<close>
  "job_env env ids i = env\<lparr>e_reqid := ids i\<rparr>"

fun sched_step :: "'x env \<Rightarrow> (nat \<Rightarrow> nat) \<Rightarrow> sched \<Rightarrow> 'x serving \<Rightarrow> 'x serving" where
  "sched_step env ids (Arrive c req) d = (case co_dispatch c of
     None \<Rightarrow> d\<lparr>sv_jobs := sv_jobs d @ [Answered (Inl (HelperError ''unknown command''))]\<rparr>
   | Some co \<Rightarrow> (case co (job_env env ids (length (sv_jobs d))) req (sv_host d) of
       (s, h) \<Rightarrow> \<lparr>sv_host = h, sv_jobs = sv_jobs d @ [job_of s]\<rparr>))"
| "sched_step env ids (Ends i) d =
     (if i < length (sv_jobs d)
      then (case sv_jobs d ! i of
          Waiting argv inp k \<Rightarrow> (case run_prog env argv inp (sv_host d) of
            (r, h) \<Rightarrow> \<lparr>sv_host = h, sv_jobs = (sv_jobs d)[i := Resumable r k]\<rparr>)
        | _ \<Rightarrow> d)
      else d)"
| "sched_step env ids (Resume i) d =
     (if i < length (sv_jobs d)
      then (case sv_jobs d ! i of
          Resumable r k \<Rightarrow> (case k r (sv_host d) of
            (s, h) \<Rightarrow> \<lparr>sv_host = h, sv_jobs = (sv_jobs d)[i := job_of s]\<rparr>)
        | _ \<Rightarrow> d)
      else d)"

definition idle :: "'x host \<Rightarrow> 'x serving" where
  "idle h = \<lparr>sv_host = h, sv_jobs = []\<rparr>"

definition schedule :: "'x env \<Rightarrow> (nat \<Rightarrow> nat) \<Rightarrow> sched list \<Rightarrow> 'x host \<Rightarrow> 'x serving" where
  "schedule env ids evs h = fold (sched_step env ids) evs (idle h)"

fun arrivals :: "sched list \<Rightarrow> (string \<times> jdict) list" where
  "arrivals [] = []"
| "arrivals (Arrive c req # evs) = (c, req) # arrivals evs"
| "arrivals (_ # evs) = arrivals evs"

definition acts :: "'x serving \<Rightarrow> sched \<Rightarrow> nat option" where
  \<comment> \<open>the job that runs statements of its own in an event\<close>
  "acts d e = (case e of
     Arrive _ _ \<Rightarrow> Some (length (sv_jobs d))
   | Ends _ \<Rightarrow> None
   | Resume i \<Rightarrow> if i < length (sv_jobs d) \<and> (\<exists>r k. sv_jobs d ! i = Resumable r k) then Some i else None)"

section \<open>Histories\<close>

definition after :: "tunnels \<Rightarrow> (nat \<times> hreq) list \<Rightarrow> tunnels" where
  "after T hist = fold (\<lambda>(i, a) T. abs_step T a) hist T"

definition fits :: "tunnels \<Rightarrow> (nat \<times> hreq) list \<Rightarrow> nat \<Rightarrow> hreq \<Rightarrow> exn + jdict \<Rightarrow> bool" where
  \<comment> \<open>the answer a request may get for its place in the history, or without one\<close>
  "fits T hist i a r \<longleftrightarrow>
     (if (i, a) \<in> set hist
      then (\<forall>k<length hist. hist ! k = (i, a) \<longrightarrow> (case refused (after T (take k hist)) a of
              Some e \<Rightarrow> r = Inl e | None \<Rightarrow> \<forall>x. r = Inr x \<longrightarrow> x = []))
      else (\<exists>e. r = Inl e))"

definition explains :: "tunnels \<Rightarrow> (string \<times> jdict) list \<Rightarrow> 'x serving \<Rightarrow> (nat \<times> hreq) list \<Rightarrow> bool" where
  "explains T reqs d hist \<longleftrightarrow>
     represents (after T hist) (sv_host d) \<and> distinct (map fst hist) \<and>
     (\<forall>(i, a)\<in>set hist. i < length reqs \<and> clean (fst (reqs ! i)) (snd (reqs ! i)) a) \<and>
     (\<forall>i<length reqs. \<forall>a r. clean (fst (reqs ! i)) (snd (reqs ! i)) a \<longrightarrow>
        sv_jobs d ! i = Answered r \<longrightarrow> fits T hist i a r) \<and>
     (\<forall>i<length reqs. \<forall>e. invalid (fst (reqs ! i)) (snd (reqs ! i)) = Some e \<longrightarrow>
        sv_jobs d ! i = Answered (Inl e))"

lemma after_snoc [simp]: "after T (hist @ [(i, a)]) = abs_step (after T hist) a"
  by (simp add: after_def)

lemma after_Nil [simp]: "after T [] = T"
  by (simp add: after_def)

lemma fits_other: "j \<noteq> i \<Longrightarrow> fits T (hist @ [(j, b)]) i a r = fits T hist i a r"
  by (auto simp: fits_def nth_append less_Suc_eq)

lemma fits_new:
  assumes "i \<notin> fst ` set hist"
  shows "fits T (hist @ [(i, a)]) i a r \<longleftrightarrow> (case refused (after T hist) a of
    Some e \<Rightarrow> r = Inl e | None \<Rightarrow> \<forall>x. r = Inr x \<longrightarrow> x = [])"
proof -
  have "hist ! k \<noteq> (i, a)" if "k < length hist" for k
    using assms that by (metis fst_conv image_eqI nth_mem)
  then show ?thesis by (auto simp: fits_def nth_append less_Suc_eq)
qed

lemma fits_none: "(i, a) \<notin> set hist \<Longrightarrow> fits T hist i a r \<longleftrightarrow> (\<exists>e. r = Inl e)"
  by (simp add: fits_def)

section \<open>The edits of one request\<close>

definition same_confs :: "'x host \<Rightarrow> 'x host \<Rightarrow> bool" where
  "same_confs h h' \<longleftrightarrow> (\<forall>n. file_at (tmp_path n) h' = file_at (tmp_path n) h \<and>
     file_at (conf_path n) h' = file_at (conf_path n) h)"

interpretation conf_frame: host_frame same_confs
  by unfold_locales (auto simp: same_confs_def)

lemma represents_same: "represents T h \<Longrightarrow> same_confs h h' \<Longrightarrow> represents T h'"
  by (rule represents_cong) (simp_all add: same_confs_def)

lemma changes_same:
  assumes "changes Q h h'" and "\<And>n. \<not> Q (tmp_path n)" and "\<And>n. \<not> Q (conf_path n)"
  shows "same_confs h h'"
  using assms unfolding touches_def same_confs_def by blast

abbreviation any_args :: "string list \<Rightarrow> bool" where
  "any_args \<equiv> \<lambda>_. True"

lemma stays_same:
  assumes "stays P (changes Q) A m" and "\<And>n. \<not> Q (tmp_path n)" and "\<And>n. \<not> Q (conf_path n)"
  shows "stays P same_confs any_args m"
  by (rule stays_mono [OF assms(1)]) (auto intro: changes_same [OF _ assms(2,3)])

lemma stays_live_add: "stays (\<lambda>_. True) same_confs any_args (co_live_add env args psk)"
proof (rule stays_same [OF confined_live_add])
qed simp_all

definition empty_or_error :: "exn + jdict \<Rightarrow> bool" where
  "empty_or_error r \<longleftrightarrow> (\<forall>x. r = Inr x \<longrightarrow> x = [])"

lemma stays_tail:
  "stays (\<lambda>_. True) same_confs any_args m \<Longrightarrow> stays empty_or_error same_confs any_args (bindc m (\<lambda>_. sync (ret [])))"
  by (erule conf_frame.stays_bindc) (auto intro!: conf_frame.stays_ret simp: empty_or_error_def)

definition down :: "'x env \<Rightarrow> 'x env" where
  \<comment> \<open>the same machine with every interface down: there a peer command is its edit alone\<close>
  "down env = env\<lparr>e_if_up := \<lambda>_ _. False\<rparr>"

lemma down_files:
  "e_if_up (down env) n x = False" "write_conf (down env) n c = write_conf env n c" "never_fails (down env) = never_fails env"
  by (simp_all add: fun_eq_iff write_conf_def bindm_def catchm_def raise_def os_defs down_def never_fails_def
      split: option.split)

lemma add_down:
  "cmd_add_peer (down env) req h = (case add_edit env req h of (Inl e, h') \<Rightarrow> (Inl e, h') | (Inr _, h') \<Rightarrow> (Inr [], h'))"
  by (auto simp: cmd_add_peer_def add_edit_def down_files is_interface_up_def bindm_def getm_def ret_def
      split: prod.split sum.split)

lemma remove_down:
  "cmd_remove_peer (down env) req h = (case remove_edit env req h of (Inl e, h') \<Rightarrow> (Inl e, h') | (Inr _, h') \<Rightarrow> (Inr [], h'))"
  by (auto simp: cmd_remove_peer_def remove_edit_def down_files is_interface_up_def bindm_def getm_def ret_def
      split: prod.split sum.split)

lemma delete_stage:
  assumes "never_fails env" and "valid_name n" and "jget req ''name'' = JStr n"
  shows "co_delete_tunnel env req h =
    (Await [''systemctl'', ''disable'', ''--now'', unit_name n] None (\<lambda>r h'. case r of
        Inl e \<Rightarrow> (Over (Inl e), h') | Inr _ \<Rightarrow> (Over (Inr []), del_file (conf_path n) (tick h'))), h)"
  unfolding co_delete_tunnel_def using assms
  by (simp add: validate_name_ok liftr_Inr bindc_sync ret_def bindc_await sync_def os_defs never_fails_def
      fun_eq_iff split: sum.split)

definition pending_delete :: "string \<Rightarrow> (prog_result \<Rightarrow> ('x, jdict) co) \<Rightarrow> bool" where
  "pending_delete n k \<longleftrightarrow> (\<forall>h. (\<forall>e. k (Inl e) h = (Over (Inl e), h)) \<and>
     (\<forall>x. k (Inr x) h = (Over (Inr []), del_file (conf_path n) (tick h))))"

definition decided :: "tunnels \<Rightarrow> hreq \<Rightarrow> exn + jdict \<Rightarrow> bool" where
  "decided T a r \<longleftrightarrow> (case refused T a of Some e \<Rightarrow> r = Inl e | None \<Rightarrow> empty_or_error r)"

lemma refused_unchanged: "refused T a \<noteq> None \<Longrightarrow> abs_step T a = T"
  by (cases a) (auto split: option.splits if_splits)

lemma edit_stretch:
  assumes "refines T a (case r of Inl e \<Rightarrow> (Inl e, h1) | Inr _ \<Rightarrow> (Inr [], h1))"
    and "(s, h') = (case r of Inl e \<Rightarrow> (Over (Inl e), h1) | Inr x \<Rightarrow> m x h1)"
    and "\<And>x. stays empty_or_error same_confs any_args (m x)"
  shows "represents (abs_step T a) h' \<and> behaves (decided T a) same_confs any_args s \<or>
    represents T h' \<and> (\<exists>e. s = Over (Inl e))"
proof (cases r)
  case (Inl e)
  with assms(1,2) show ?thesis
    by (auto simp: refines_def decided_def empty_or_error_def refused_unchanged split: option.splits)
next
  case (Inr x)
  with assms(1) have none: "refused T a = None" and r: "represents (abs_step T a) h1"
    by (auto simp: refines_def split: option.splits)
  have "(\<lambda>r. decided T a r) = empty_or_error" by (simp add: fun_eq_iff decided_def none)
  moreover have "same_confs h1 h'" "behaves empty_or_error same_confs any_args s"
    using assms(2) Inr assms(3) [of x] by (auto simp: stays_def prod_eq_iff)
  ultimately show ?thesis using represents_same [OF r] by simp
qed

lemma stays_empty: "stays empty_or_error same_confs any_args (sync (ret []))"
  by (auto intro!: conf_frame.stays_ret simp: empty_or_error_def)

lemma clean_stretch:
  assumes "never_fails env" and "represents T h" and "clean c req a" and "co_dispatch c = Some co"
    and "co env req h = (s, h')"
  shows "represents (abs_step T a) h' \<and> behaves (decided T a) same_confs any_args s \<or>
    represents T h' \<and> (\<exists>e. s = Over (Inl e)) \<or>
    (\<exists>n argv inp k. a = Delete n \<and> h' = h \<and> s = Await argv inp k \<and> pending_delete n k)"
proof (cases a)
  case (Create n t)
  then have co: "co = co_create_tunnel" and cl: "clean_create req n t"
    using assms(3,4) by (auto simp: co_dispatch_def)
  obtain r h1 where r: "cmd_create_tunnel env req h = (r, h1)" by (meson surj_pair)
  have ref: "refines T a (r, h1)" using create_refines [OF assms(1,2) cl] Create r by simp
  then have d: "r = Inr x \<Longrightarrow> x = []" for x by (auto simp: refines_def split: option.splits)
  have "(case r of Inl e \<Rightarrow> (Inl e, h1) | Inr _ \<Rightarrow> (Inr [], h1)) = (r, h1)"
    using d by (cases r) auto
  then have ref': "refines T a (case r of Inl e \<Rightarrow> (Inl e, h1) | Inr _ \<Rightarrow> (Inr [], h1))" using ref by simp
  have "(s, h') = (case r of Inl e \<Rightarrow> (Over (Inl e), h1) | Inr _ \<Rightarrow> sync (ret []) h1)"
    using assms(5) co r d by (cases r) (auto simp: co_create_tunnel_def sync_def ret_def)
  from edit_stretch [OF ref' this stays_empty] show ?thesis by blast
next
  case (Delete n)
  then have co: "co = co_delete_tunnel" and cl: "jget req ''name'' = JStr n" "valid_name n"
    using assms(3,4) by (auto simp: co_dispatch_def)
  have "\<exists>argv inp k. co_delete_tunnel env req h = (Await argv inp k, h) \<and> pending_delete n k"
    using delete_stage [OF assms(1) cl(2,1)] by (auto simp: pending_delete_def)
  then show ?thesis using assms(5) co Delete by auto
next
  case (AddPeer n p)
  then have co: "co = co_add_peer" and cl: "clean_add req n p"
    using assms(3,4) by (auto simp: co_dispatch_def)
  obtain r h1 where r: "add_edit env req h = (r, h1)" by (meson surj_pair)
  let ?m = "\<lambda>(up, args, psk). bindc (if up then co_live_add env args psk else sync (ret ())) (\<lambda>_. sync (ret []))"
  have "refines T a (case r of Inl e \<Rightarrow> (Inl e, h1) | Inr _ \<Rightarrow> (Inr [], h1))"
    using add_refines [of "down env" T h req n p] assms(1,2) cl AddPeer by (simp add: down_files add_down r)
  moreover have "(s, h') = (case r of Inl e \<Rightarrow> (Over (Inl e), h1) | Inr x \<Rightarrow> ?m x h1)"
    using assms(5) co by (simp add: co_add_peer_def bindc_sync r)
  moreover have "stays empty_or_error same_confs any_args (?m x)" for x
    by (cases x) (auto intro!: stays_tail stays_live_add conf_frame.stays_ret)
  ultimately show ?thesis using edit_stretch [where r = r and m = ?m] by blast
next
  case (RemovePeer n k)
  then have co: "co = co_remove_peer" and cl: "clean ''remove_peer'' req (RemovePeer n k)"
    using assms(3,4) by (auto simp: co_dispatch_def)
  obtain r h1 where r: "remove_edit env req h = (r, h1)" by (meson surj_pair)
  let ?m = "\<lambda>(up, tunnel, public_key).
     bindc (if up then bindc (checked_await [''wg'', ''set'', tunnel, ''peer'', public_key, ''remove'']
                        None ''wg set remove'') (\<lambda>_. sync (ret ()))
            else sync (ret ())) (\<lambda>_. sync (ret []))"
  have "refines T a (case r of Inl e \<Rightarrow> (Inl e, h1) | Inr _ \<Rightarrow> (Inr [], h1))"
    using remove_refines [of "down env" T h req n k] assms(1,2) cl RemovePeer by (simp add: down_files remove_down r)
  moreover have "(s, h') = (case r of Inl e \<Rightarrow> (Over (Inl e), h1) | Inr x \<Rightarrow> ?m x h1)"
    using assms(5) co by (simp add: co_remove_peer_def bindc_sync r)
  moreover have "stays empty_or_error same_confs any_args (?m x)" for x
    by (cases x) (auto intro!: stays_tail conf_frame.stays_rules)
  ultimately show ?thesis using edit_stretch [where r = r and m = ?m] by blast
qed

lemma other_stays:
  assumes "c \<in> {''genkey'', ''tunnel_status'', ''set_tunnel_state''}" and "co_dispatch c = Some co"
  shows "stays (\<lambda>_. True) same_confs any_args (co env req)"
proof -
  have "stays (\<lambda>_. True) (changes (\<lambda>_. False)) (plain_argv env) (co env req)"
    using assms confined_genkey confined_status confined_state by (auto simp: co_dispatch_def)
  then show ?thesis by (rule stays_same) simp_all
qed

section \<open>Every schedule has a history\<close>

lemma json_networks_inject: "map json_network es = map Some ns \<Longrightarrow> map json_network es = map Some ms \<Longrightarrow> ns = ms"
  by (metis inj_Some map_injective)

lemma opt_str_inject [simp]: "opt_str x = opt_str y \<longleftrightarrow> x = y"
  by (cases x; cases y) (simp_all add: opt_str_def)

lemma clean_unique: "clean c req a \<Longrightarrow> clean c req b \<Longrightarrow> a = b"
  by (cases a; cases b)
    (auto simp: clean_create_def clean_add_def intro!: tunnel.equality tun_peer.equality
      dest: json_networks_inject)

fun job_ok :: "(exn + jdict \<Rightarrow> bool) \<Rightarrow> 'x job \<Rightarrow> bool" where
  "job_ok P (Waiting argv inp k) = behaves P same_confs any_args (Await argv inp k)"
| "job_ok P (Resumable r k) = behaves P same_confs any_args (Await [] None k)"
| "job_ok P (Answered r) = P r"

definition undecided :: "hreq \<Rightarrow> 'x job \<Rightarrow> bool" where
  "undecided a j \<longleftrightarrow> (\<exists>e. j = Answered (Inl e)) \<or> (\<exists>n argv inp k. a = Delete n \<and> pending_delete n k \<and>
     (j = Waiting argv inp k \<or> (\<exists>r. j = Resumable r k)))"

definition job_inv :: "tunnels \<Rightarrow> (nat \<times> hreq) list \<Rightarrow> string \<times> jdict \<Rightarrow> nat \<Rightarrow> 'x job \<Rightarrow> bool" where
  "job_inv T hist req i j \<longleftrightarrow>
     (if \<exists>a. clean (fst req) (snd req) a
      then \<exists>a. clean (fst req) (snd req) a \<and>
        ((i, a) \<in> set hist \<and> job_ok (fits T hist i a) j \<or> i \<notin> fst ` set hist \<and> undecided a j)
      else i \<notin> fst ` set hist \<and> (case invalid (fst req) (snd req) of
        None \<Rightarrow> job_ok (\<lambda>_. True) j | Some e \<Rightarrow> j = Answered (Inl e)))"

definition serving_inv :: "tunnels \<Rightarrow> (string \<times> jdict) list \<Rightarrow> 'x serving \<Rightarrow> (nat \<times> hreq) list \<Rightarrow> bool" where
  "serving_inv T reqs d hist \<longleftrightarrow>
     represents (after T hist) (sv_host d) \<and> distinct (map fst hist) \<and> length (sv_jobs d) = length reqs \<and>
     (\<forall>(i, a)\<in>set hist. i < length reqs \<and> clean (fst (reqs ! i)) (snd (reqs ! i)) a) \<and>
     (\<forall>i<length reqs. job_inv T hist (reqs ! i) i (sv_jobs d ! i))"

definition admissible :: "string \<times> jdict \<Rightarrow> bool" where
  \<comment> \<open>no field takes a form that the validators let through by accident\<close>
  "admissible req \<longleftrightarrow> \<not> odd_form (fst req) (snd req)"

lemma clean_valid: "clean c req a \<Longrightarrow> invalid c req = None"
proof (cases a)
  case (AddPeer n p)
  assume "clean c req a"
  with AddPeer have c: "c = ''add_peer''" and cl: "clean_add req n p" by simp_all
  note cl = cl [unfolded clean_add_def wf_peer_def]
  from cl obtain es where es: "jget req ''allowed_ips'' = JList es" "map json_network es = map Some (tp_nets p)"
    by blast
  have "keepalive_ok (jget req ''keepalive'')" using cl by (auto simp: keepalive_ok_def)
  moreover have "validate_allowed_ips (jget req ''allowed_ips'') = Inr (nets_text (tp_nets p))"
    using es allowed_clean [OF es(2)] cl by simp
  ultimately show ?thesis
    using cl by (simp add: invalid_def c validate_name_ok validate_key_core optional_key_clean)
qed (auto simp: invalid_def clean_create_def validate_name_ok validate_key_core port_of_def)

lemma invalid_over:
  assumes "invalid c req = Some e" and "co_dispatch c = Some co"
  shows "co env req h = (Over (Inl e), h)"
proof -
  obtain handler :: "'a env \<Rightarrow> jdict \<Rightarrow> ('a, jdict) hop" where d: "helper_dispatch c = Some handler"
    using assms(2) by (auto simp: co_dispatch_def helper_dispatch_def split: if_splits)
  note r = invalid_refused [OF assms(1) d]
  from d show ?thesis
  proof (cases rule: command_cases)
    case 1
    then show ?thesis using assms(2) r [of env h] by (auto simp: co_dispatch_def co_create_tunnel_def sync_def)
  next
    case 2
    then show ?thesis using assms
      by (cases "validate_tunnel_name (jget req ''name'')")
        (auto simp: co_dispatch_def co_delete_tunnel_def invalid_def bindc_sync liftr_def)
  next
    case 3
    then have "add_edit env req h = (Inl e, h)"
      using r [of "down env" h] by (auto simp: add_down split: prod.splits sum.splits)
    then show ?thesis using assms(2) 3 by (auto simp: co_dispatch_def co_add_peer_def bindc_sync)
  next
    case 4
    then have "remove_edit env req h = (Inl e, h)"
      using r [of "down env" h] by (auto simp: remove_down split: prod.splits sum.splits)
    then show ?thesis using assms(2) 4 by (auto simp: co_dispatch_def co_remove_peer_def bindc_sync)
  qed (use assms(1) in \<open>auto simp: invalid_def\<close>)
qed

lemma invalid_dispatched: "invalid c req = Some e \<Longrightarrow> co_dispatch c \<noteq> None"
  by (auto simp: invalid_def co_dispatch_def split: if_splits)

lemma job_ok_of: "behaves P same_confs any_args s \<Longrightarrow> job_ok P (job_of s)"
  by (cases s) (simp_all add: job_of_def)

lemma job_inv_other: "j \<noteq> i \<Longrightarrow> job_inv T (hist @ [(i, a)]) req j x = job_inv T hist req j x"
proof -
  assume "j \<noteq> i"
  then have "fits T (hist @ [(i, a)]) j b = fits T hist j b" for b
    by (simp add: fun_eq_iff fits_other)
  with \<open>j \<noteq> i\<close> show ?thesis by (simp add: job_inv_def)
qed

lemma serving_inv_explains:
  assumes "serving_inv T reqs (d :: 'x serving) hist"
  shows "explains T reqs d hist"
proof -
  have "fits T hist i a r" if i: "i < length reqs" and a: "clean (fst (reqs ! i)) (snd (reqs ! i)) a"
      and r: "sv_jobs d ! i = Answered r" for i a r
  proof -
    have "job_inv T hist (reqs ! i) i (sv_jobs d ! i)" using assms i by (simp add: serving_inv_def)
    then have "job_inv T hist (reqs ! i) i (Answered r :: 'x job)" by (simp only: r)
    then obtain a' where "clean (fst (reqs ! i)) (snd (reqs ! i)) a'" and
        c: "(i, a') \<in> set hist \<and> fits T hist i a' r \<or> i \<notin> fst ` set hist \<and> (\<exists>e. r = Inl e)"
      using a unfolding job_inv_def undecided_def by (auto split: if_splits)
    then have "a' = a" using clean_unique [OF _ a] by blast
    moreover have "(i, a) \<notin> set hist" if "i \<notin> fst ` set hist" using that by force
    ultimately show ?thesis using c fits_none by blast
  qed
  moreover have "sv_jobs d ! i = Answered (Inl e)"
    if i: "i < length reqs" and e: "invalid (fst (reqs ! i)) (snd (reqs ! i)) = Some e" for i e
  proof -
    have "job_inv T hist (reqs ! i) i (sv_jobs d ! i)" using assms i by (simp add: serving_inv_def)
    moreover have "\<not> (\<exists>a. clean (fst (reqs ! i)) (snd (reqs ! i)) a)" using clean_valid e by fastforce
    ultimately show ?thesis using e by (simp add: job_inv_def)
  qed
  ultimately show ?thesis using assms by (auto simp: explains_def serving_inv_def)
qed

lemma serving_inv_commit:
  assumes inv: "serving_inv T reqs d hist" and i: "i < length reqs"
    and a: "clean (fst (reqs ! i)) (snd (reqs ! i)) a" and new: "i \<notin> fst ` set hist"
    and rep: "represents (abs_step (after T hist) a) h'" and ok: "job_ok (decided (after T hist) a) j"
  shows "serving_inv T reqs \<lparr>sv_host = h', sv_jobs = (sv_jobs d)[i := j]\<rparr> (hist @ [(i, a)])"
proof -
  have "fits T (hist @ [(i, a)]) i a = decided (after T hist) a"
    using new by (auto simp: fun_eq_iff fits_new decided_def empty_or_error_def split: option.split)
  then have ji: "job_inv T (hist @ [(i, a)]) (reqs ! i) i j" using a ok unfolding job_inv_def by auto
  have "job_inv T (hist @ [(i, a)]) (reqs ! m) m ((sv_jobs d)[i := j] ! m)" if "m < length reqs" for m
    using ji inv that by (cases "m = i") (auto simp: serving_inv_def job_inv_other)
  moreover have "distinct (map fst (hist @ [(i, a)]))" using inv new by (auto simp: serving_inv_def)
  ultimately show ?thesis
    using inv rep a i unfolding serving_inv_def by auto
qed

lemma serving_inv_quiet:
  assumes inv: "serving_inv T reqs d hist" and i: "i < length reqs"
    and rep: "represents (after T hist) h'" and ok: "job_inv T hist (reqs ! i) i j"
  shows "serving_inv T reqs \<lparr>sv_host = h', sv_jobs = (sv_jobs d)[i := j]\<rparr> hist"
proof -
  have "job_inv T hist (reqs ! m) m ((sv_jobs d)[i := j] ! m)" if "m < length reqs" for m
    using ok inv that by (cases "m = i") (auto simp: serving_inv_def)
  then show ?thesis using inv rep unfolding serving_inv_def by auto
qed

text \<open>A request arrives: the jobs grow by one that has no answer yet, which then acts.\<close>

lemma serving_inv_grow:
  assumes "serving_inv T reqs d hist"
    and "job_inv T hist req (length reqs) j"
  shows "serving_inv T (reqs @ [req]) (d\<lparr>sv_jobs := sv_jobs d @ [j]\<rparr>) hist"
  using assms unfolding serving_inv_def by (auto simp: nth_append less_Suc_eq split_def)

lemma fresh_job: "serving_inv T reqs d hist \<Longrightarrow> length reqs \<notin> fst ` set hist"
  unfolding serving_inv_def by fastforce

lemma job_env_fails [simp]: "never_fails (job_env env ids i) = never_fails env"
  by (simp add: never_fails_def job_env_def)

definition advances :: "'x serving \<Rightarrow> sched \<Rightarrow> (nat \<times> hreq) list \<Rightarrow> (nat \<times> hreq) list \<Rightarrow> bool" where
  \<comment> \<open>the history grows only by an operation of the job that acts\<close>
  "advances d e hist hist' \<longleftrightarrow> hist' = hist \<or> (\<exists>i a. acts d e = Some i \<and> hist' = hist @ [(i, a)])"

lemma clean_dispatched: "clean c req a \<Longrightarrow> co_dispatch c \<noteq> None"
  by (cases a) (auto simp: co_dispatch_def)

lemma clean_not_other: "clean c req a \<Longrightarrow> c \<notin> {''genkey'', ''tunnel_status'', ''set_tunnel_state''}"
  by (cases a) auto

lemma serving_inv_grown:
  assumes "serving_inv T (reqs @ [req]) \<lparr>sv_host = h, sv_jobs = (sv_jobs d @ [j0])[length reqs := j]\<rparr> hist"
    and "length (sv_jobs d) = length reqs"
  shows "serving_inv T (reqs @ [req]) \<lparr>sv_host = h, sv_jobs = sv_jobs d @ [j]\<rparr> hist"
  using assms by (metis list_update_length)

lemma arrive_inv:
  assumes inv: "serving_inv T reqs (d :: 'x serving) hist" and nf: "never_fails env" and adm: "admissible (c, req)"
  shows "\<exists>hist'. advances d (Arrive c req) hist hist' \<and>
    serving_inv T (reqs @ [(c, req)]) (sched_step env ids (Arrive c req) d) hist'"
proof -
  let ?i = "length reqs"
  let ?j0 = "Answered (Inl (case invalid c req of None \<Rightarrow> HelperError ''unknown command'' | Some e \<Rightarrow> e)) :: 'x job"
  have len: "length (sv_jobs d) = ?i" and rep: "represents (after T hist) (sv_host d)"
    using inv by (simp_all add: serving_inv_def)
  note new = fresh_job [OF inv]
  have j0: "job_inv T hist (c, req) ?i ?j0" using new clean_valid [of c req] by (auto simp: job_inv_def undecided_def split: option.split)
  note grown = serving_inv_grow [OF inv j0]
  show ?thesis
  proof (cases "co_dispatch c :: ('x env \<Rightarrow> jdict \<Rightarrow> ('x, jdict) co) option")
    case None
    then have "invalid c req = None" using invalid_dispatched by (metis option.exhaust)
    then show ?thesis using grown None by (auto simp: advances_def)
  next
    case (Some co)
    obtain s h where s: "co (job_env env ids ?i) req (sv_host d) = (s, h)" by (meson surj_pair)
    have step: "sched_step env ids (Arrive c req) d = \<lparr>sv_host = h, sv_jobs = sv_jobs d @ [job_of s]\<rparr>"
      using Some s len by simp
    note quiet = serving_inv_grown [OF serving_inv_quiet [OF grown, simplified] len]
    note commit = serving_inv_grown [OF serving_inv_commit [OF grown, simplified] len]
    show ?thesis
    proof (cases "\<exists>a. clean c req a")
      case True
      then obtain a where a: "clean c req a" by blast
      from clean_stretch [OF _ rep a Some s] nf
      consider (applied) "represents (abs_step (after T hist) a) h" "behaves (decided (after T hist) a) same_confs any_args s"
        | (kept) "represents (after T hist) h" "undecided a (job_of s)"
        using rep by (fastforce simp: undecided_def job_of_def)
      then show ?thesis
      proof cases
        case applied
        then have "serving_inv T (reqs @ [(c, req)]) \<lparr>sv_host = h, sv_jobs = sv_jobs d @ [job_of s]\<rparr> (hist @ [(?i, a)])"
          using new a by (intro commit) (simp_all add: job_ok_of)
        then show ?thesis using step len by (auto simp: advances_def acts_def)
      next
        case kept
        then have "job_inv T hist (c, req) ?i (job_of s)" using new a by (auto simp: job_inv_def)
        then have "serving_inv T (reqs @ [(c, req)]) \<lparr>sv_host = h, sv_jobs = sv_jobs d @ [job_of s]\<rparr> hist"
          using kept by (intro quiet) simp_all
        then show ?thesis using step by (auto simp: advances_def)
      qed
    next
      case False
      show ?thesis
      proof (cases "invalid c req")
        case e: (Some e)
        then have "represents (after T hist) h" "job_inv T hist (c, req) ?i (job_of s)"
          using invalid_over [OF e Some] s rep False new by (auto simp: job_inv_def job_of_def)
        then have "serving_inv T (reqs @ [(c, req)]) \<lparr>sv_host = h, sv_jobs = sv_jobs d @ [job_of s]\<rparr> hist"
          by (intro quiet) simp_all
        then show ?thesis using step by (auto simp: advances_def)
      next
        case valid: None
        have "c \<notin> {''create_tunnel'', ''delete_tunnel'', ''add_peer'', ''remove_peer''}"
          using clean_or_invalid [of c req] adm False valid by (auto simp: admissible_def)
        then have "c \<in> {''genkey'', ''tunnel_status'', ''set_tunnel_state''}"
          using Some by (auto simp: co_dispatch_def split: if_splits)
        from other_stays [OF this Some] have "same_confs (sv_host d) h" "behaves (\<lambda>_. True) same_confs any_args s"
          using s by (auto dest: stays_start)
        then have "represents (after T hist) h" "job_inv T hist (c, req) ?i (job_of s)"
          using represents_same [OF rep] False valid new job_ok_of by (auto simp: job_inv_def)
        then have "serving_inv T (reqs @ [(c, req)]) \<lparr>sv_host = h, sv_jobs = sv_jobs d @ [job_of s]\<rparr> hist"
          by (intro quiet) simp_all
        then show ?thesis using step by (auto simp: advances_def)
      qed
    qed
  qed
qed

lemma behaves_argv: "behaves P R A (Await argv inp k) \<Longrightarrow> A argv' \<Longrightarrow> behaves P R A (Await argv' inp' k)"
  by (auto elim!: behaves_AwaitE intro!: behaves_Await)

lemma run_same: "same_confs h (snd (run_prog env argv inp h))"
  by (simp add: same_confs_def run_prog_files)

lemma serving_inv_job:
  "serving_inv T reqs d hist \<Longrightarrow> i < length reqs \<Longrightarrow> job_inv T hist (reqs ! i) i (sv_jobs d ! i)"
  by (simp add: serving_inv_def)

lemma ends_inv:
  assumes inv: "serving_inv T reqs d hist"
  shows "serving_inv T reqs (sched_step env ids (Ends i) d) hist"
proof (cases "i < length (sv_jobs d) \<and> (\<exists>argv inp k. sv_jobs d ! i = Waiting argv inp k)")
  case True
  then obtain argv inp k where i: "i < length reqs" and j: "sv_jobs d ! i = Waiting argv inp k"
    using inv by (auto simp: serving_inv_def)
  obtain r h where r: "run_prog env argv inp (sv_host d) = (r, h)" by (meson surj_pair)
  have "represents (after T hist) h"
    using inv run_same [of "sv_host d" env argv inp] r by (auto simp: serving_inv_def intro: represents_same)
  moreover have "job_inv T hist (reqs ! i) i (Waiting argv inp k)"
    using serving_inv_job [OF inv i] by (simp only: j)
  then have "job_inv T hist (reqs ! i) i (Resumable r k)"
    unfolding job_inv_def undecided_def by (auto split: if_splits option.splits dest: behaves_argv)
  ultimately show ?thesis
    using serving_inv_quiet [OF inv i] True j r by simp
next
  case False
  then show ?thesis using inv by (auto split: job.split)
qed

lemma represents_delete:
  "represents T h \<Longrightarrow> represents (abs_step T (Delete n)) (del_file (conf_path n) (tick h))"
  by (auto simp: represents_def)

lemma resume_inv:
  assumes inv: "serving_inv T reqs d hist"
  shows "\<exists>hist'. advances d (Resume i) hist hist' \<and> serving_inv T reqs (sched_step env ids (Resume i) d) hist'"
proof (cases "i < length (sv_jobs d) \<and> (\<exists>r k. sv_jobs d ! i = Resumable r k)")
  case True
  then obtain r k where i: "i < length reqs" and j: "sv_jobs d ! i = Resumable r k"
    using inv by (auto simp: serving_inv_def)
  have rep: "represents (after T hist) (sv_host d)" using inv by (simp add: serving_inv_def)
  obtain s h where s: "k r (sv_host d) = (s, h)" by (meson surj_pair)
  have step: "sched_step env ids (Resume i) d = \<lparr>sv_host = h, sv_jobs = (sv_jobs d)[i := job_of s]\<rparr>"
    using True j s by simp
  have acts: "acts d (Resume i) = Some i" using True by (simp add: acts_def)
  have ji: "job_inv T hist (reqs ! i) i (Resumable r k)" using serving_inv_job [OF inv i] by (simp only: j)
  have quiet: ?thesis if "represents (after T hist) h" "job_inv T hist (reqs ! i) i (job_of s)"
    using serving_inv_quiet [OF inv i that] step by (auto simp: advances_def)
  have ok: "represents (after T hist) h \<and> job_ok P (job_of s)" if "job_ok P (Resumable r k)" for P
    using that behaves_resume s represents_same [OF rep] job_ok_of by (metis job_ok.simps(2))
  show ?thesis
  proof (cases "\<exists>a. clean (fst (reqs ! i)) (snd (reqs ! i)) a")
    case False
    with ji have "i \<notin> fst ` set hist" "job_ok (\<lambda>_. True) (Resumable r k)"
        "invalid (fst (reqs ! i)) (snd (reqs ! i)) = None"
      by (auto simp: job_inv_def split: option.splits)
    with ok False show ?thesis by (intro quiet) (auto simp: job_inv_def)
  next
    case True
    with ji obtain a where a: "clean (fst (reqs ! i)) (snd (reqs ! i)) a" and
        c: "(i, a) \<in> set hist \<and> job_ok (fits T hist i a) (Resumable r k) \<or>
          i \<notin> fst ` set hist \<and> undecided a (Resumable r k)"
      by (auto simp: job_inv_def)
    from c show ?thesis
    proof
      assume "(i, a) \<in> set hist \<and> job_ok (fits T hist i a) (Resumable r k)"
      with ok a show ?thesis by (intro quiet) (auto simp: job_inv_def)
    next
      assume u: "i \<notin> fst ` set hist \<and> undecided a (Resumable r k)"
      then obtain n where n: "a = Delete n" "pending_delete n k" by (auto simp: undecided_def)
      show ?thesis
      proof (cases r)
        case (Inl e)
        then have "s = Over (Inl e)" "h = sv_host d" using n(2) s by (auto simp: pending_delete_def)
        with rep a u show ?thesis by (intro quiet) (auto simp: job_inv_def undecided_def job_of_def)
      next
        case (Inr x)
        then have h: "s = Over (Inr [])" "h = del_file (conf_path n) (tick (sv_host d))"
          using n(2) s by (cases x; auto simp: pending_delete_def)+
        have "represents (abs_step (after T hist) a) h" using represents_delete [OF rep] h n by simp
        moreover have "job_ok (decided (after T hist) a) (job_of s)"
          using h n by (simp add: job_of_def decided_def empty_or_error_def)
        ultimately show ?thesis
          using serving_inv_commit [OF inv i a] u step acts by (auto simp: advances_def)
      qed
    qed
  qed
next
  case False
  then show ?thesis using inv by (auto simp: advances_def split: job.split)
qed

lemma arrivals_append: "arrivals (evs @ fs) = arrivals evs @ arrivals fs"
  by (induction evs rule: arrivals.induct) simp_all

lemma step_inv:
  assumes "serving_inv T reqs d hist" and "never_fails env" and "list_all admissible (arrivals [e])"
  shows "\<exists>hist'. advances d e hist hist' \<and> serving_inv T (reqs @ arrivals [e]) (sched_step env ids e d) hist'"
proof (cases e)
  case (Arrive c req)
  with arrive_inv [OF assms(1,2)] assms(3) show ?thesis by simp
next
  case (Ends i)
  have "serving_inv T (reqs @ arrivals [e]) (sched_step env ids e d) hist"
    using ends_inv [OF assms(1)] by (simp add: Ends del: sched_step.simps)
  then show ?thesis unfolding advances_def by blast
next
  case (Resume i)
  with resume_inv [OF assms(1)] show ?thesis by (simp del: sched_step.simps)
qed

lemma schedule_snoc: "schedule env ids (evs @ [e]) h = sched_step env ids e (schedule env ids evs h)"
  by (simp add: schedule_def)

lemma histories:
  assumes "never_fails env" and "represents T h" and "list_all admissible (arrivals evs)"
  shows "\<exists>hist. hist 0 = [] \<and>
    (\<forall>m<length evs. advances (schedule env ids (take m evs) h) (evs ! m) (hist m) (hist (Suc m))) \<and>
    (\<forall>m\<le>length evs. serving_inv T (arrivals (take m evs)) (schedule env ids (take m evs) h) (hist m))"
  using assms(3)
proof (induction evs rule: rev_induct)
  case Nil
  have "serving_inv T [] (idle h) []" using assms(2) by (simp add: serving_inv_def idle_def)
  then show ?case by (intro exI [of _ "\<lambda>_. []"]) (simp add: schedule_def)
next
  case (snoc e evs)
  from snoc.prems have adm: "list_all admissible (arrivals evs)" "list_all admissible (arrivals [e])"
    by (simp_all add: arrivals_append)
  from snoc.IH [OF adm(1)] obtain hist where hist: "hist 0 = []"
      "\<And>m. m < length evs \<Longrightarrow> advances (schedule env ids (take m evs) h) (evs ! m) (hist m) (hist (Suc m))"
      "\<And>m. m \<le> length evs \<Longrightarrow> serving_inv T (arrivals (take m evs)) (schedule env ids (take m evs) h) (hist m)"
    by blast
  from hist(3) [of "length evs"] have "serving_inv T (arrivals evs) (schedule env ids evs h) (hist (length evs))" by simp
  from step_inv [OF this assms(1) adm(2), of ids] obtain last where
      l: "advances (schedule env ids evs h) e (hist (length evs)) last"
        "serving_inv T (arrivals (evs @ [e])) (schedule env ids (evs @ [e]) h) last"
    by (auto simp: arrivals_append schedule_snoc)
  let ?hist = "hist(Suc (length evs) := last)"
  have "?hist 0 = []" using hist(1) by simp
  moreover have "advances (schedule env ids (take m (evs @ [e])) h) ((evs @ [e]) ! m) (?hist m) (?hist (Suc m))"
    if "m < Suc (length evs)" for m
    using that hist(2) [of m] l(1) by (cases "m = length evs") (auto simp: nth_append)
  moreover have "serving_inv T (arrivals (take m (evs @ [e]))) (schedule env ids (take m (evs @ [e])) h) (?hist m)"
    if "m \<le> Suc (length evs)" for m
    using that hist(3) [of m] l(2) by (cases "m = Suc (length evs)") auto
  ultimately show ?case by (intro exI [of _ ?hist]) auto
qed

text \<open>C2: requests that overlap are linearizable.  In any schedule of requests that arrive, programs
  that end and jobs that go on, where no request is in one of the odd forms of \<open>odd_form\<close> and no system
  call fails: each edit of a tunnel can be given one moment at which its own
  job runs, so that the files are at every moment the text of the tunnels that the edits made so
  far give one after the other; a valid edit is refused exactly for the state at its moment, and
  one that has no moment was answered with an error; one that a validator refuses is answered with
  its error at once and has no moment.  An edit whose accepted fields hold a key with a final line break, an IPv6 scope or
  a boolean keepalive is not covered (\<open>HelperGaps\<close> shows what it can do to a file).\<close>

theorem overlapping_requests_linearize:
  assumes "never_fails env" and "represents T h" and "list_all admissible (arrivals evs)"
  shows "\<exists>hist. hist 0 = [] \<and>
    (\<forall>m<length evs. hist (Suc m) = hist m \<or>
       (\<exists>i a. acts (schedule env ids (take m evs) h) (evs ! m) = Some i \<and> hist (Suc m) = hist m @ [(i, a)])) \<and>
    (\<forall>m\<le>length evs. explains T (arrivals (take m evs)) (schedule env ids (take m evs) h) (hist m))"
proof -
  from histories [OF assms, of ids] obtain hist where hist: "hist 0 = []"
      "\<forall>m<length evs. advances (schedule env ids (take m evs) h) (evs ! m) (hist m) (hist (Suc m))"
      "\<forall>m\<le>length evs. serving_inv T (arrivals (take m evs)) (schedule env ids (take m evs) h) (hist m)"
    by (elim exE conjE)
  then show ?thesis
    unfolding advances_def by (intro exI [of _ hist] conjI) (simp_all add: serving_inv_explains)
qed

theorem overlapping_requests_linearize_witness:
  "\<exists>hist. hist 0 = [] \<and> (\<forall>m\<le>3. explains (\<lambda>_. None)
      (arrivals (take m [Arrive ''create_tunnel'' create_req_a, Arrive ''create_tunnel'' refused_req_a,
         Arrive ''delete_tunnel'' [(''name'', JStr ''wg0'')]]))
      (schedule quiet_env id (take m [Arrive ''create_tunnel'' create_req_a, Arrive ''create_tunnel'' refused_req_a,
         Arrive ''delete_tunnel'' [(''name'', JStr ''wg0'')]]) empty_host) (hist m))"
proof -
  let ?evs = "[Arrive ''create_tunnel'' create_req_a, Arrive ''create_tunnel'' refused_req_a,
    Arrive ''delete_tunnel'' [(''name'', JStr ''wg0'')]]"
  have "\<not> odd_form ''delete_tunnel'' [(''name'', JStr ''wg0'')]" by (simp add: odd_form_def)
  then have adm: "list_all admissible (arrivals ?evs)"
    using tidy_requests by (simp add: admissible_def)
  from overlapping_requests_linearize [OF quiet_never_fails represents_empty adm, of id]
  obtain hist where "hist 0 = []" "\<forall>m\<le>length ?evs. explains (\<lambda>_. None) (arrivals (take m ?evs))
      (schedule quiet_env id (take m ?evs) empty_host) (hist m)"
    by blast
  then show ?thesis by (intro exI [of _ hist] conjI) (simp_all del: take_Suc_Cons)
qed

end
