(* ===== verification/KeyFiles.thy ===== *)
theory KeyFiles
  imports Interleave
begin

text \<open>
  Overlapping requests and the files: in any schedule the daemon stays inside the frame it has
  for single requests, and the temporary files through which pre-shared keys reach \<open>wg set\<close> are
  never mixed up between requests.
\<close>

section \<open>The frame of a schedule\<close>

definition goes_on :: "('x host \<Rightarrow> 'x host \<Rightarrow> bool) \<Rightarrow> (string list \<Rightarrow> bool) \<Rightarrow>
    (prog_result \<Rightarrow> ('x, 'a) co) \<Rightarrow> bool" where
  "goes_on R A k \<longleftrightarrow> (\<forall>r. stays (\<lambda>_. True) R A (k r))"

fun fenced :: "('x host \<Rightarrow> 'x host \<Rightarrow> bool) \<Rightarrow> (string list \<Rightarrow> bool) \<Rightarrow> 'x job \<Rightarrow> bool" where
  "fenced R A (Waiting argv inp k) \<longleftrightarrow> A argv \<and> goes_on R A k"
| "fenced R A (Resumable r k) \<longleftrightarrow> goes_on R A k"
| "fenced R A (Answered r) \<longleftrightarrow> True"

lemma fenced_of: "behaves (\<lambda>_. True) R A s \<Longrightarrow> fenced R A (job_of s)"
  by (cases s) (auto simp: job_of_def goes_on_def stays_def elim: behaves_AwaitE)

lemma goes_on_start: "goes_on R A k \<Longrightarrow> k r h = (s, h') \<Longrightarrow> R h h' \<and> fenced R A (job_of s)"
  using stays_start [of "\<lambda>_. True" R A "k r" h s h'] fenced_of by (auto simp: goes_on_def)

definition job_path :: "'x env \<Rightarrow> (nat \<Rightarrow> nat) \<Rightarrow> (string \<times> jdict) list \<Rightarrow> nat \<Rightarrow> path \<Rightarrow> bool" where
  "job_path env ids reqs i = request_path (job_env env ids i) (snd (reqs ! i))"

definition pool_inv :: "'x env \<Rightarrow> (nat \<Rightarrow> nat) \<Rightarrow> (string \<times> jdict) list \<Rightarrow> 'x serving \<Rightarrow> bool" where
  "pool_inv env ids reqs d \<longleftrightarrow> length (sv_jobs d) = length reqs \<and>
     (\<forall>i<length reqs. fenced (changes (job_path env ids reqs i)) (argv_ok (job_env env ids i)) (sv_jobs d ! i))"

lemma job_path_append [simp]:
  "i < length reqs \<Longrightarrow> job_path env ids (reqs @ rs) i = job_path env ids reqs i"
  "job_path env ids (reqs @ [(c, req)]) (length reqs) = request_path (job_env env ids (length reqs)) req"
  by (simp_all add: job_path_def nth_append)

definition pool_touches :: "'x env \<Rightarrow> (nat \<Rightarrow> nat) \<Rightarrow> (string \<times> jdict) list \<Rightarrow> 'x host \<Rightarrow> 'x host \<Rightarrow> bool" where
  "pool_touches env ids reqs = touches (\<lambda>p. \<exists>i<length reqs. job_path env ids reqs i p)
     (\<lambda>a. \<exists>i<length reqs. argv_ok (job_env env ids i) a)"

lemma pool_touches_changes:
  "i < length reqs \<Longrightarrow> changes (job_path env ids reqs i) h h' \<Longrightarrow> pool_touches env ids reqs h h'"
  unfolding pool_touches_def by (erule touches_mono) auto

lemma pool_touches_refl: "pool_touches env ids reqs h h"
  unfolding pool_touches_def by (rule touch.frame_refl)

lemma pool_touches_grow: "pool_touches env ids reqs h h' \<Longrightarrow> pool_touches env ids (reqs @ rs) h h'"
  unfolding pool_touches_def by (erule touches_mono) (auto, metis job_path_append(1) trans_less_add1, meson trans_less_add1)

lemma pool_update:
  assumes "pool_inv env ids reqs d" and "i < length reqs"
    and "fenced (changes (job_path env ids reqs i)) (argv_ok (job_env env ids i)) j"
  shows "pool_inv env ids reqs \<lparr>sv_host = h, sv_jobs = (sv_jobs d)[i := j]\<rparr>"
  using assms by (auto simp: pool_inv_def nth_list_update)

lemma pool_grow:
  assumes "pool_inv env ids reqs d"
    and "fenced (changes (request_path (job_env env ids (length reqs)) req)) (argv_ok (job_env env ids (length reqs))) j"
  shows "pool_inv env ids (reqs @ [(c, req)]) \<lparr>sv_host = h, sv_jobs = sv_jobs d @ [j]\<rparr>"
  using assms by (auto simp: pool_inv_def nth_append less_Suc_eq)

lemma pool_job:
  assumes "pool_inv env ids reqs d" and "i < length (sv_jobs d)"
  shows "i < length reqs" "fenced (changes (job_path env ids reqs i)) (argv_ok (job_env env ids i)) (sv_jobs d ! i)"
  using assms by (auto simp: pool_inv_def)

lemma arrive_fence:
  assumes "co_dispatch c = Some co" and "co (job_env env ids i) req h = (s, h')"
  shows "changes (request_path (job_env env ids i) req) h h' \<and>
    fenced (changes (request_path (job_env env ids i) req)) (argv_ok (job_env env ids i)) (job_of s)"
  using stays_start [OF confined_dispatch [OF assms(1)] assms(2)] fenced_of by blast

lemma run_touch: "A argv \<Longrightarrow> touches Q A h (snd (run_prog env argv inp h))"
  using touch_run [of A argv Q env inp] by (simp add: keeps_def)

lemma pool_step:
  assumes inv: "pool_inv env ids reqs (d :: 'x serving)"
  shows "pool_inv env ids (reqs @ arrivals [e]) (sched_step env ids e d) \<and>
    pool_touches env ids (reqs @ arrivals [e]) (sv_host d) (sv_host (sched_step env ids e d))"
proof (cases e)
  case (Arrive c req)
  have len: "length (sv_jobs d) = length reqs" using inv by (simp add: pool_inv_def)
  show ?thesis
  proof (cases "co_dispatch c :: ('x env \<Rightarrow> jdict \<Rightarrow> ('x, jdict) co) option")
    case None
    then have "sched_step env ids e d =
        \<lparr>sv_host = sv_host d, sv_jobs = sv_jobs d @ [Answered (Inl (HelperError ''unknown command''))]\<rparr>"
      by (simp add: Arrive)
    then show ?thesis using pool_grow [OF inv] Arrive by (simp add: pool_touches_refl)
  next
    case (Some co)
    obtain s h where s: "co (job_env env ids (length reqs)) req (sv_host d) = (s, h)" by (meson surj_pair)
    then have "sched_step env ids e d = \<lparr>sv_host = h, sv_jobs = sv_jobs d @ [job_of s]\<rparr>"
      using Some len by (simp add: Arrive)
    then show ?thesis
      using pool_grow [OF inv] arrive_fence [OF Some s] Arrive
        pool_touches_changes [of "length reqs" "reqs @ [(c, req)]" env ids "sv_host d" h] by simp
  qed
next
  case (Ends i)
  show ?thesis
  proof (cases "i < length (sv_jobs d) \<and> (\<exists>argv inp k. sv_jobs d ! i = Waiting argv inp k)")
    case True
    then obtain argv inp k where j: "sv_jobs d ! i = Waiting argv inp k" by blast
    obtain r h where r: "run_prog env argv inp (sv_host d) = (r, h)" by (meson surj_pair)
    from True have i: "i < length (sv_jobs d)" by blast
    note f = pool_job [OF inv i, unfolded j]
    have "touches (\<lambda>p. \<exists>i<length reqs. job_path env ids reqs i p) (\<lambda>a. \<exists>i<length reqs. argv_ok (job_env env ids i) a)
        (sv_host d) (snd (run_prog env argv inp (sv_host d)))"
      using f by (intro run_touch) auto
    then show ?thesis
      using pool_update [OF inv f(1)] f True j r by (simp add: Ends pool_touches_def)
  next
    case False
    then show ?thesis using inv by (auto simp: Ends pool_touches_refl split: job.split)
  qed
next
  case (Resume i)
  show ?thesis
  proof (cases "i < length (sv_jobs d) \<and> (\<exists>r k. sv_jobs d ! i = Resumable r k)")
    case True
    then obtain r k where j: "sv_jobs d ! i = Resumable r k" by blast
    obtain s h where s: "k r (sv_host d) = (s, h)" by (meson surj_pair)
    from True have i: "i < length (sv_jobs d)" by blast
    note f = pool_job [OF inv i, unfolded j]
    from f(2) have g: "changes (job_path env ids reqs i) (sv_host d) h"
        "fenced (changes (job_path env ids reqs i)) (argv_ok (job_env env ids i)) (job_of s)"
      using goes_on_start s by fastforce+
    then show ?thesis
      using pool_update [OF inv f(1) g(2)] pool_touches_changes [OF f(1) g(1)] True j s by (simp add: Resume)
  next
    case False
    then show ?thesis using inv by (auto simp: Resume pool_touches_refl split: job.split)
  qed
qed

lemma pool_schedule:
  "pool_inv env ids (arrivals evs) (schedule env ids evs h) \<and>
   pool_touches env ids (arrivals evs) h (sv_host (schedule env ids evs h))"
proof (induction evs rule: rev_induct)
  case Nil
  show ?case by (simp add: schedule_def idle_def pool_inv_def pool_touches_refl)
next
  case (snoc e evs)
  then have inv: "pool_inv env ids (arrivals evs) (schedule env ids evs h)" and
      t: "pool_touches env ids (arrivals evs @ arrivals [e]) h (sv_host (schedule env ids evs h))"
    using pool_touches_grow by blast+
  from pool_step [OF inv, of e] t show ?case
    unfolding pool_touches_def schedule_snoc arrivals_append by (blast intro: touch.frame_trans)
qed

text \<open>C10: overlapping requests stay inside the frame of single ones: whatever requests arrive, in
  whatever order they are served, programs end and jobs go on, and whatever fails, only the
  configuration files of the validated names in the requests, their temporary files and the
  requests' own key files change, and only programs on the whitelist are started.\<close>

theorem overlapping_requests_confined:
  "touches
    (\<lambda>p. \<exists>i<length (arrivals evs). request_path (job_env env ids i) (snd (arrivals evs ! i)) p)
    (\<lambda>a. \<exists>i<length (arrivals evs). argv_ok (job_env env ids i) a)
    h (sv_host (schedule env ids evs h))"
  using pool_schedule [of env ids evs h] by (simp add: pool_touches_def job_path_def)

section \<open>Key files\<close>

definition answered :: "'x job \<Rightarrow> bool" where
  "answered j \<longleftrightarrow> (\<exists>r. j = Answered r)"

definition fresh_ids :: "'x env \<Rightarrow> (nat \<Rightarrow> nat) \<Rightarrow> sched list \<Rightarrow> 'x host \<Rightarrow> bool" where
  \<comment> \<open>what Python promises of \<open>id\<close>: a new object has none that a living one has\<close>
  "fresh_ids env ids evs h \<longleftrightarrow> (\<forall>m<length evs. \<forall>c req. evs ! m = Arrive c req \<longrightarrow>
     (let js = sv_jobs (schedule env ids (take m evs) h)
      in \<forall>i<length js. \<not> answered (js ! i) \<longrightarrow> ids i \<noteq> ids (length js)))"

definition key_file :: "'x env \<Rightarrow> jdict \<Rightarrow> string list \<Rightarrow> 'x host \<Rightarrow> bool" where
  \<comment> \<open>the program is told of the request's own key\<close>
  "key_file env req argv h \<longleftrightarrow> (\<exists>args key. jget req ''preshared_key'' = JStr key \<and> valid_key key \<and>
     argv = args @ [''preshared-key'', path_str (psk_path env)] \<and>
     file_at (psk_path env) h = Some \<lparr>fdata = key @ [nl], fmode = 384\<rparr>)"

fun keyed :: "'x env \<Rightarrow> jdict \<Rightarrow> 'x host \<Rightarrow> 'x job \<Rightarrow> bool" where
  \<comment> \<open>it waits for a program that needs a key at most once, and then with its file in place\<close>
  "keyed env req h (Waiting argv inp k) \<longleftrightarrow>
     goes_on (\<lambda>_ _. True) (\<lambda>a. \<not> takes_key a) k \<and> (takes_key argv \<longrightarrow> key_file env req argv h)"
| "keyed env req h (Resumable r k) \<longleftrightarrow> goes_on (\<lambda>_ _. True) (\<lambda>a. \<not> takes_key a) k"
| "keyed env req h (Answered r) \<longleftrightarrow> True"

lemma goes_on_mono:
  assumes "goes_on R A k" and "\<And>h h'. R h h' \<Longrightarrow> R' h h'" and "\<And>a. A a \<Longrightarrow> A' a"
  shows "goes_on R' A' k"
  unfolding goes_on_def
proof
  fix r
  from assms(1) have "stays (\<lambda>_. True) R A (k r)" by (simp add: goes_on_def)
  then show "stays (\<lambda>_. True) R' A' (k r)" by (rule stays_mono) (simp_all add: assms(2,3))
qed

lemma goes_on_plain: "goes_on R (\<lambda>a. \<not> takes_key a) k \<Longrightarrow> goes_on (\<lambda>_ _. True) (\<lambda>a. \<not> takes_key a) k"
  by (erule goes_on_mono) simp_all

lemma keyed_plain: "fenced R (\<lambda>a. \<not> takes_key a) j \<Longrightarrow> keyed env req h j"
  by (cases j) (auto intro: goes_on_plain)

lemma andthen_Over: "m h = (Over r, h1) \<Longrightarrow> andthen m f h = f r h1"
  by (simp add: andthen_def)

lemma andthen_Await:
  "m h = (Await argv inp k, h1) \<Longrightarrow> andthen m f h = (Await argv inp (\<lambda>r. andthen (k r) f), h1)"
  by (auto simp: andthen_def fun_eq_iff split: prod.split)

lemma bindc_Await:
  "m h = (Await argv inp k, h1) \<Longrightarrow> bindc m f h = (Await argv inp (\<lambda>r. bindc (k r) f), h1)"
  unfolding bindc_def by (rule andthen_Await)

lemma bindc_Over: "m h = (Over r, h1) \<Longrightarrow> bindc m f h = (case r of Inl e \<Rightarrow> (Over (Inl e), h1) | Inr x \<Rightarrow> f x h1)"
  by (simp add: bindc_def andthen_Over sync_def raise_def split: sum.split)

lemma bindc_over:
  "(\<And>h. \<exists>r. fst (m h) = Over r) \<Longrightarrow> (\<And>x h. \<exists>r. fst (f x h) = Over r) \<Longrightarrow> \<exists>r. fst (bindc m f h) = Over r"
proof -
  assume m: "\<And>h. \<exists>r. fst (m h) = Over r" and f: "\<And>x h. \<exists>r. fst (f x h) = Over r"
  obtain r h1 where "m h = (Over r, h1)" using m by (metis prod.collapse)
  then show ?thesis using f by (cases r) (simp_all add: bindc_Over)
qed

lemma sync_over: "\<exists>r. fst (sync m h) = Over r"
  by (simp add: sync_def split: prod.split)

text \<open>A key is put into its file right before the program is started, in the same stretch.\<close>

lemma live_add_stage:
  "(\<exists>r h'. co_live_add env args (Some key) h = (Over r, h')) \<or>
   (\<exists>k h'. co_live_add env args (Some key) h =
      (Await (args @ [''preshared-key'', path_str (psk_path env)]) None k, h') \<and>
      (\<forall>r h. \<exists>q. fst (k r h) = Over q) \<and>
      file_at (psk_path env) h' = Some \<lparr>fdata = key @ [nl], fmode = 384\<rparr>)"
proof -
  let ?cmd = "args @ [''preshared-key'', path_str (psk_path env)]"
  let ?body = "bindc (sync (os_open_excl env (psk_path env) 384)) (\<lambda>_.
        bindc (sync (os_write env (psk_path env) (key @ [nl]))) (\<lambda>_.
        bindc (checked_await ?cmd None ''wg set'') (\<lambda>_. sync (ret ()))))"
  let ?tidy = "\<lambda>r. sync (finallym (liftr r) (os_unlink env (psk_path env)))"
  have co: "co_live_add env args (Some key) = andthen ?body ?tidy"
    by (simp add: co_live_add_def finallyc_def)
  have over: ?thesis if b: "?body h = (Over r, h1)" for r h1
  proof -
    have "co_live_add env args (Some key) h = ?tidy r h1" unfolding co by (rule andthen_Over) (rule b)
    then show ?thesis using sync_over [of "finallym (liftr r) (os_unlink env (psk_path env))" h1] by (metis prod.collapse)
  qed
  obtain r1 h1 where op: "os_open_excl env (psk_path env) 384 h = (r1, h1)" by (meson surj_pair)
  show ?thesis
  proof (cases r1)
    case (Inl e)
    then show ?thesis using op by (intro over [of "Inl e"]) (simp add: bindc_sync)
  next
    case (Inr u)
    with op have f1: "file_at (psk_path env) h1 = Some \<lparr>fdata = [], fmode = 384\<rparr>"
      by (auto simp: os_defs split: option.splits if_splits)
    obtain r2 h2 where w: "os_write env (psk_path env) (key @ [nl]) h1 = (r2, h2)" by (meson surj_pair)
    show ?thesis
    proof (cases r2)
      case (Inl e)
      then show ?thesis using op w Inr by (intro over [of "Inl e"]) (simp add: bindc_sync)
    next
      case r2: (Inr v)
      have f2: "file_at (psk_path env) h2 = Some \<lparr>fdata = key @ [nl], fmode = 384\<rparr>"
        using w r2 f1 by (auto simp: os_write_def split: option.splits)
      obtain k where k: "?body h = (Await ?cmd None k, h2)" "\<And>r h. \<exists>q. fst (k r h) = Over q"
        using op w Inr r2
        by (auto simp: bindc_sync checked_await_eq sync_def ret_def split: sum.split)
      have "\<exists>q. fst (andthen (k r) ?tidy h) = Over q" for r h
        using k(2) [of r h] sync_over by (cases "k r h") (auto simp: andthen_Over)
      then show ?thesis using andthen_Await [where m = ?body and h = h and f = ?tidy] k(1) f2 unfolding co by auto
    qed
  qed
qed

lemma over_stays: "(\<And>h. \<exists>q. fst (m h) = Over q) \<Longrightarrow> stays (\<lambda>_. True) (\<lambda>_ _. True) A m"
  unfolding stays_def using behaves_Over [of "\<lambda>_. True"] by metis

interpretation any_frame: host_frame "\<lambda>_ _. True"
  by unfold_locales simp_all

lemma add_keyed:
  assumes "co_add_peer env req h = (s, h')"
  shows "keyed env req h' (job_of s)"
proof -
  obtain r h1 where r: "add_edit env req h = (r, h1)" by (meson surj_pair)
  show ?thesis
  proof (cases r)
    case (Inl e)
    then show ?thesis using assms r by (auto simp: co_add_peer_def bindc_sync job_of_def)
  next
    case (Inr x)
    obtain up args psk where x: "x = (up, args, psk)" by (cases x)
    let ?live = "if up then co_live_add env args psk else sync (ret ())"
    have co: "bindc ?live (\<lambda>_. sync (ret [])) h1 = (s, h')"
      using assms r Inr x by (simp add: co_add_peer_def bindc_sync)
    obtain n k ips where e: "valid_name n" "valid_key k" "ips_arg ips" "keepalive_ok (jget req ''keepalive'')"
        "optional_key (jget req ''preshared_key'') = Inr psk" "args = wg_set_args n k ips (jget req ''keepalive'')"
      using add_edit_result [of env req h up args psk h1] r Inr x by blast
    show ?thesis
    proof (cases "up \<and> psk \<noteq> None")
      case False
      have "\<not> takes_key args" using plain_add [OF e(1-4), of env] e(6) by (simp add: plain_argv_def)
      then have "stays (\<lambda>_. True) (\<lambda>_ _. True) (\<lambda>a. \<not> takes_key a) (bindc ?live (\<lambda>_. sync (ret [])))"
        using False by (cases psk) (auto simp: co_live_add_def intro!: any_frame.stays_rules)
      from stays_start [OF this co] show ?thesis by (intro keyed_plain fenced_of) simp
    next
      case True
      then obtain key where key: "psk = Some key" and up: "up" by auto
      then have j: "jget req ''preshared_key'' = JStr key" "valid_key key"
        using e(5) by (auto simp: optional_key_def validate_wg_key_iff split: if_splits sum.splits)
      from live_add_stage [of env args key h1] show ?thesis
      proof (elim disjE exE conjE)
        fix q h2 assume "co_live_add env args (Some key) h1 = (Over q, h2)"
        then show ?thesis
          using co up key by (auto simp: bindc_Over sync_def ret_def job_of_def split: sum.splits)
      next
        fix k h2
        let ?argv = "args @ [''preshared-key'', path_str (psk_path env)]"
        assume k: "co_live_add env args (Some key) h1 = (Await ?argv None k, h2)"
          "\<forall>r h. \<exists>q. fst (k r h) = Over q" "file_at (psk_path env) h2 = Some \<lparr>fdata = key @ [nl], fmode = 384\<rparr>"
        have "\<exists>q. fst (bindc (k r) (\<lambda>_. sync (ret ([] :: jdict))) h) = Over q" for r and h :: "'a host"
          by (rule bindc_over) (use k(2) sync_over in blast)+
        then have "goes_on (\<lambda>_ _. True) (\<lambda>a. \<not> takes_key a) (\<lambda>r. bindc (k r) (\<lambda>_. sync (ret ([] :: jdict))))"
          unfolding goes_on_def by (intro allI over_stays)
        moreover have "s = Await ?argv None (\<lambda>r. bindc (k r) (\<lambda>_. sync (ret ([] :: jdict))))" "h' = h2"
          using co up key bindc_Await [where m = "co_live_add env args (Some key)" and h = h1 and
            f = "\<lambda>_. sync (ret ([] :: jdict))"] k(1) by simp_all
        ultimately show ?thesis using j k(3) by (auto simp: job_of_def key_file_def)
      qed
    qed
  qed
qed

lemma dispatch_keyed:
  assumes "co_dispatch c = Some co" and "co env req h = (s, h')"
  shows "keyed env req h' (job_of s)"
proof (cases "c = ''add_peer''")
  case True
  then show ?thesis using assms add_keyed by (simp add: co_dispatch_def)
next
  case False
  from stays_start [OF confined_plain [OF assms(1) False] assms(2)]
  have "behaves (\<lambda>_. True) (changes (request_path env req)) (plain_argv env) s" by blast
  then have "behaves (\<lambda>_. True) (changes (request_path env req)) (\<lambda>a. \<not> takes_key a) s"
    by (rule behaves_mono) (simp_all add: plain_argv_def)
  then show ?thesis by (intro keyed_plain fenced_of)
qed

section \<open>Keys in a schedule\<close>

lemma psk_apart:
  "ids i \<noteq> ids j \<Longrightarrow> \<not> request_path (job_env env ids j) req (psk_path (job_env env ids i))"
  by (auto simp: request_path_def name_paths_def) (simp add: psk_path_def job_env_def)

lemma keyed_cong:
  "keyed env req h j \<Longrightarrow> file_at (psk_path env) h' = file_at (psk_path env) h \<Longrightarrow> keyed env req h' j"
  by (cases j) (auto simp: key_file_def)

definition keys_inv :: "'x env \<Rightarrow> (nat \<Rightarrow> nat) \<Rightarrow> (string \<times> jdict) list \<Rightarrow> 'x serving \<Rightarrow> bool" where
  "keys_inv env ids reqs d \<longleftrightarrow>
     (\<forall>i<length reqs. keyed (job_env env ids i) (snd (reqs ! i)) (sv_host d) (sv_jobs d ! i)) \<and>
     (\<forall>i<length reqs. \<forall>j<length reqs. i \<noteq> j \<longrightarrow> \<not> answered (sv_jobs d ! i) \<longrightarrow> \<not> answered (sv_jobs d ! j) \<longrightarrow> ids i \<noteq> ids j)"

text \<open>A job acts: its own files change, and it was not answered before.\<close>

lemma keys_update:
  assumes "keys_inv env ids reqs d" and "length (sv_jobs d) = length reqs" and "i < length reqs"
    and "\<not> answered (sv_jobs d ! i)" and "changes (job_path env ids reqs i) (sv_host d) h"
    and "keyed (job_env env ids i) (snd (reqs ! i)) h j"
  shows "keys_inv env ids reqs \<lparr>sv_host = h, sv_jobs = (sv_jobs d)[i := j]\<rparr>"
proof -
  have "keyed (job_env env ids m) (snd (reqs ! m)) h ((sv_jobs d)[i := j] ! m)" if m: "m < length reqs" for m
  proof (cases "m = i \<or> answered (sv_jobs d ! m)")
    case True
    then show ?thesis using assms(2,3,6) by (auto simp: answered_def nth_list_update)
  next
    case False
    then have "ids m \<noteq> ids i" using assms(1,3,4) m unfolding keys_inv_def by blast
    then have "\<not> job_path env ids reqs i (psk_path (job_env env ids m))"
      unfolding job_path_def by (rule psk_apart)
    then have "file_at (psk_path (job_env env ids m)) h = file_at (psk_path (job_env env ids m)) (sv_host d)"
      using assms(5) unfolding touches_def by blast
    then show ?thesis using assms(1) m False by (auto simp: keys_inv_def elim: keyed_cong)
  qed
  moreover have "\<not> answered (sv_jobs d ! m)" if "\<not> answered ((sv_jobs d)[i := j] ! m)" "m < length reqs" for m
    using that assms(2,4) by (cases "m = i") simp_all
  ultimately show ?thesis using assms(1) unfolding keys_inv_def by simp
qed

lemma keys_arrive:
  assumes "keys_inv env ids reqs d" and "length (sv_jobs d) = length reqs"
    and "\<forall>i<length reqs. \<not> answered (sv_jobs d ! i) \<longrightarrow> ids i \<noteq> ids (length reqs)"
    and "changes (request_path (job_env env ids (length reqs)) req) (sv_host d) h"
    and "keyed (job_env env ids (length reqs)) req h j"
  shows "keys_inv env ids (reqs @ [(c, req)]) \<lparr>sv_host = h, sv_jobs = sv_jobs d @ [j]\<rparr>"
proof -
  have "keyed (job_env env ids m) (snd (reqs ! m)) h (sv_jobs d ! m)" if m: "m < length reqs" for m
  proof (cases "answered (sv_jobs d ! m)")
    case True
    then show ?thesis by (auto simp: answered_def)
  next
    case False
    then have "ids m \<noteq> ids (length reqs)" using assms(3) m by blast
    then have "\<not> request_path (job_env env ids (length reqs)) req (psk_path (job_env env ids m))"
      by (rule psk_apart)
    then have "file_at (psk_path (job_env env ids m)) h = file_at (psk_path (job_env env ids m)) (sv_host d)"
      using assms(4) unfolding touches_def by blast
    then show ?thesis using assms(1) m by (auto simp: keys_inv_def elim: keyed_cong)
  qed
  then show ?thesis
    using assms unfolding keys_inv_def by (auto simp: nth_append less_Suc_eq)
qed

lemma keys_step:
  assumes inv: "pool_inv env ids reqs (d :: 'x serving)" and keys: "keys_inv env ids reqs d"
    and fresh: "\<And>c req. e = Arrive c req \<Longrightarrow>
      \<forall>i<length reqs. \<not> answered (sv_jobs d ! i) \<longrightarrow> ids i \<noteq> ids (length reqs)"
  shows "keys_inv env ids (reqs @ arrivals [e]) (sched_step env ids e d)"
proof (cases e)
  case (Arrive c req)
  have len: "length (sv_jobs d) = length reqs" using inv by (simp add: pool_inv_def)
  note arr = keys_arrive [OF keys len fresh [OF Arrive]]
  show ?thesis
  proof (cases "co_dispatch c :: ('x env \<Rightarrow> jdict \<Rightarrow> ('x, jdict) co) option")
    case None
    then have "sched_step env ids e d =
        \<lparr>sv_host = sv_host d, sv_jobs = sv_jobs d @ [Answered (Inl (HelperError ''unknown command''))]\<rparr>"
      by (simp add: Arrive)
    then show ?thesis using arr Arrive by (simp add: touch.frame_refl)
  next
    case (Some co)
    obtain s h where s: "co (job_env env ids (length reqs)) req (sv_host d) = (s, h)" by (meson surj_pair)
    then have "sched_step env ids e d = \<lparr>sv_host = h, sv_jobs = sv_jobs d @ [job_of s]\<rparr>"
      using Some len by (simp add: Arrive)
    then show ?thesis using arr arrive_fence [OF Some s] dispatch_keyed [OF Some s] Arrive by simp
  qed
next
  case (Ends i)
  show ?thesis
  proof (cases "i < length (sv_jobs d) \<and> (\<exists>argv inp k. sv_jobs d ! i = Waiting argv inp k)")
    case True
    then obtain argv inp k where j: "sv_jobs d ! i = Waiting argv inp k" by blast
    obtain r h where r: "run_prog env argv inp (sv_host d) = (r, h)" by (meson surj_pair)
    from True have i: "i < length (sv_jobs d)" by blast
    have f: "file_at p h = file_at p (sv_host d)" for p
      using run_prog_files [of p env argv inp "sv_host d"] r by simp
    have k: "goes_on (\<lambda>_ _. True) (\<lambda>a. \<not> takes_key a) k"
      using keys j i inv unfolding keys_inv_def pool_inv_def by (metis keyed.simps(1))
    have "keyed (job_env env ids m) (snd (reqs ! m)) h ((sv_jobs d)[i := Resumable r k] ! m)"
      if "m < length reqs" for m
      using that keys k i by (cases "m = i") (auto simp: keys_inv_def intro: keyed_cong [OF _ f])
    moreover have "\<not> answered (sv_jobs d ! m)" if "\<not> answered ((sv_jobs d)[i := Resumable r k] ! m)" for m
      using that j by (cases "m = i") (auto simp: answered_def)
    ultimately show ?thesis
      using keys i j r by (simp add: Ends keys_inv_def)
  next
    case False
    then show ?thesis using keys by (auto simp: Ends split: job.split)
  qed
next
  case (Resume i)
  show ?thesis
  proof (cases "i < length (sv_jobs d) \<and> (\<exists>r k. sv_jobs d ! i = Resumable r k)")
    case True
    then obtain r k where j: "sv_jobs d ! i = Resumable r k" by blast
    obtain s h where s: "k r (sv_host d) = (s, h)" by (meson surj_pair)
    from True have i: "i < length (sv_jobs d)" by blast
    note f = pool_job [OF inv i, unfolded j]
    from f(2) have g: "changes (job_path env ids reqs i) (sv_host d) h"
      using goes_on_start s by fastforce
    have "keyed (job_env env ids i) (snd (reqs ! i)) (sv_host d) (sv_jobs d ! i)"
      using keys f(1) by (simp add: keys_inv_def)
    then have "goes_on (\<lambda>_ _. True) (\<lambda>a. \<not> takes_key a) k" by (simp add: j)
    from goes_on_start [OF this s] have "keyed (job_env env ids i) (snd (reqs ! i)) h (job_of s)"
      by (blast intro: keyed_plain)
    then have "keys_inv env ids reqs \<lparr>sv_host = h, sv_jobs = (sv_jobs d)[i := job_of s]\<rparr>"
      using inv j f(1) by (intro keys_update [OF keys _ _ _ g]) (simp_all add: pool_inv_def answered_def)
    then show ?thesis using i j s by (simp add: Resume)
  next
    case False
    then show ?thesis using keys by (auto simp: Resume split: job.split)
  qed
qed

lemma fresh_ids_snoc:
  assumes "fresh_ids env ids (evs @ [e]) h"
  shows "fresh_ids env ids evs h"
    and "e = Arrive c req \<Longrightarrow> \<forall>i<length (sv_jobs (schedule env ids evs h)).
      \<not> answered (sv_jobs (schedule env ids evs h) ! i) \<longrightarrow> ids i \<noteq> ids (length (sv_jobs (schedule env ids evs h)))"
proof -
  show "fresh_ids env ids evs h"
    unfolding fresh_ids_def
  proof (intro allI impI)
    fix m c req assume "m < length evs" "evs ! m = Arrive c req"
    then show "let js = sv_jobs (schedule env ids (take m evs) h)
        in \<forall>i<length js. \<not> answered (js ! i) \<longrightarrow> ids i \<noteq> ids (length js)"
      using assms unfolding fresh_ids_def by (auto simp: nth_append dest: spec [of _ m])
  qed
next
  assume "e = Arrive c req"
  then show "\<forall>i<length (sv_jobs (schedule env ids evs h)).
      \<not> answered (sv_jobs (schedule env ids evs h) ! i) \<longrightarrow> ids i \<noteq> ids (length (sv_jobs (schedule env ids evs h)))"
    using assms [unfolded fresh_ids_def, rule_format, of "length evs" c req] by (simp add: Let_def)
qed

lemma keys_schedule:
  "fresh_ids env ids evs h \<Longrightarrow> keys_inv env ids (arrivals evs) (schedule env ids evs h)"
proof (induction evs rule: rev_induct)
  case Nil
  show ?case by (simp add: keys_inv_def)
next
  case (snoc e evs)
  have inv: "pool_inv env ids (arrivals evs) (schedule env ids evs h)" using pool_schedule by blast
  then have len: "length (sv_jobs (schedule env ids evs h)) = length (arrivals evs)" by (simp add: pool_inv_def)
  have "keys_inv env ids (arrivals evs) (schedule env ids evs h)" using snoc fresh_ids_snoc(1) by blast
  then have "keys_inv env ids (arrivals evs @ arrivals [e]) (sched_step env ids e (schedule env ids evs h))"
    using fresh_ids_snoc(2) [OF snoc.prems] len by (intro keys_step inv) simp_all
  then show ?case by (simp only: schedule_snoc arrivals_append)
qed

text \<open>C6: pre-shared keys are never mixed up: in any schedule, whenever a request waits for a program
  that was given a key file, that file holds exactly the key of that request, readable by root
  alone, whatever other requests have written or removed in the meantime.\<close>

theorem key_files_kept_apart:
  assumes "fresh_ids env ids evs h" and "d = schedule env ids evs h" and "i < length (sv_jobs d)"
    and "sv_jobs d ! i = Waiting (args @ [''preshared-key'', p]) inp k"
  shows "p = path_str (psk_path (job_env env ids i)) \<and>
    (\<exists>key. jget (snd (arrivals evs ! i)) ''preshared_key'' = JStr key \<and>
       file_at (psk_path (job_env env ids i)) (sv_host d) = Some \<lparr>fdata = key @ [nl], fmode = 384\<rparr>)"
proof -
  have "length (sv_jobs d) = length (arrivals evs)"
    using pool_schedule [of env ids evs h] by (simp add: assms(2) pool_inv_def)
  then have "keyed (job_env env ids i) (snd (arrivals evs ! i)) (sv_host d) (sv_jobs d ! i)"
    using keys_schedule [OF assms(1)] assms(2,3) by (simp add: keys_inv_def)
  moreover have "takes_key (args @ [''preshared-key'', p])" by (simp add: takes_key_def nth_append)
  ultimately show ?thesis using assms(4) by (auto simp: key_file_def)
qed

definition psk_req :: jdict where
  "psk_req = [(''tunnel'', JStr ''wg0''), (''public_key'', JStr key_b), (''preshared_key'', JStr key_a),
     (''allowed_ips'', JList [JStr ''10.0.0.2/32'']), (''keepalive'', JInt 25)]"

definition key_host :: "unit host" where
  "key_host = \<lparr>h_fs = [(conf_path ''wg0'', \<lparr>fdata = ''[Interface]'' @ [nl], fmode = 384\<rparr>)],
     h_dirs = [(wg_dir, 448), (run_dir, 493)], h_tick = 0, h_ran = [], h_ext = ()\<rparr>"

definition key_wait :: "unit serving" where
  \<comment> \<open>a request with a pre-shared key, while \<open>wg set\<close> runs\<close>
  "key_wait = schedule quiet_env id [Arrive ''add_peer'' psk_req] key_host"

theorem key_files_kept_apart_witness:
  "file_at (psk_path (job_env quiet_env id 0)) (sv_host key_wait) = Some \<lparr>fdata = key_a @ [nl], fmode = 384\<rparr>"
proof -
  have "case sv_jobs key_wait of [Waiting argv inp k] \<Rightarrow>
      argv = [''wg'', ''set'', ''wg0'', ''peer'', key_b, ''allowed-ips'', ''10.0.0.2/32'', ''persistent-keepalive'', ''25''] @
        [''preshared-key'', path_str (psk_path (job_env quiet_env id 0))]
    | _ \<Rightarrow> False"
    by code_simp
  then obtain args p inp k where j: "sv_jobs key_wait = [Waiting (args @ [''preshared-key'', p]) inp k]"
    by (fastforce split: list.splits job.splits)
  have "fresh_ids quiet_env id [Arrive ''add_peer'' psk_req] key_host"
    by (simp add: fresh_ids_def schedule_def idle_def)
  from key_files_kept_apart [OF this key_wait_def, of 0 args p inp k] j show ?thesis
    by (auto simp: psk_req_def jget_def)
qed

end
