(* ===== verification/Races.thy ===== *)
theory Races
  imports Interleave
begin

text \<open>
  What overlapping requests can do to each other through the programs.  The files are
  linearizable (\<open>Interleave\<close>), but the daemon holds no lock across an \<open>await\<close>, so the services
  and the live interfaces can end in a state that no order of the requests gives.  The two
  schedules here are for models of \<open>systemctl\<close> and \<open>wg set\<close> that do what their manuals say.
\<close>

section \<open>A deleted tunnel that runs\<close>

definition unit_conf :: "string \<Rightarrow> path" where
  \<comment> \<open>the file \<open>wg-quick@NAME\<close> reads when it is started\<close>
  "unit_conf u = conf_path (drop 9 u)"

definition systemd :: "string list \<Rightarrow> string option \<Rightarrow> fs \<Rightarrow> string list \<Rightarrow> (int \<times> string \<times> string) option \<times> string list" where
  \<comment> \<open>\<open>systemctl\<close> over the list of the running units; a unit starts if its file is there\<close>
  "systemd argv inp files units =
     (if argv = [''systemctl'', ''enable'', ''--now'', last argv]
      then (if map_of files (unit_conf (last argv)) \<noteq> None
            then (Some (0, [], []), last argv # units) else (Some (1, [], []), units))
      else if argv = [''systemctl'', ''disable'', ''--now'', last argv]
        \<or> argv = [''systemctl'', ''stop'', last argv]
      then (Some (0, [], []), removeAll (last argv) units)
      else (Some (0, [], []), units))"






lemma systemd_units:
  "e_run env = systemd \<Longrightarrow> run_prog env [''systemctl'', ''disable'', ''--now'', u] None h =
     (Inr (0, [], []), h\<lparr>h_ext := removeAll u (h_ext h), h_ran := h_ran h @ [([''systemctl'', ''disable'', ''--now'', u], None, h_fs h)]\<rparr>)"
  "e_run env = systemd \<Longrightarrow> file_at (unit_conf u) h \<noteq> None \<Longrightarrow>
   run_prog env [''systemctl'', ''enable'', ''--now'', u] None h =
     (Inr (0, [], []), h\<lparr>h_ext := u # h_ext h, h_ran := h_ran h @ [([''systemctl'', ''enable'', ''--now'', u], None, h_fs h)]\<rparr>)"
  by (simp_all add: run_prog_def systemd_def file_at_def)

lemma unit_conf_name [simp]: "unit_conf (unit_name n) = conf_path n"
  by (simp add: unit_conf_def unit_name_def)



definition units_env :: "string list env" where
  "units_env = \<lparr>e_run = systemd, e_if_up = (\<lambda>_ _. False), e_fault = (\<lambda>_. None), e_pid = 7, e_reqid = 0\<rparr>"

definition two_steps_host :: "string list host" where
  \<comment> \<open>the host with the one tunnel \<open>wg0\<close>, which is down\<close>
  "two_steps_host = \<lparr>h_fs = [(conf_path ''wg0'', tunnel_file tunnel_a)], h_dirs = [(wg_dir, 448)],
     h_tick = 0, h_ran = [], h_ext = []\<rparr>"



section \<open>One request at a time\<close>

text \<open>The same daemon and the same \<open>systemctl\<close>, without overlap.\<close>

definition backed :: "string list host \<Rightarrow> bool" where
  \<comment> \<open>every service that runs has its configuration\<close>
  "backed h \<longleftrightarrow> (\<forall>n. unit_name n \<in> set (h_ext h) \<longrightarrow> file_at (conf_path n) h \<noteq> None)"

definition backing :: "string list host \<Rightarrow> string list host \<Rightarrow> bool" where
  "backing h h' \<longleftrightarrow> (backed h \<longrightarrow> backed h') \<and>
     (\<forall>n. file_at (conf_path n) h \<noteq> None \<longrightarrow> file_at (conf_path n) h' \<noteq> None)"

interpretation backing: frame_rel backing
  by unfold_locales (simp_all add: backing_def)

lemma backing_files:
  "h_ext h' = h_ext h \<Longrightarrow> (\<And>n. file_at (conf_path n) h \<noteq> None \<Longrightarrow> file_at (conf_path n) h' \<noteq> None) \<Longrightarrow>
   backing h h'"
  by (simp add: backing_def backed_def)

lemma h_ext_dirs [simp]: "h_ext (h_dirs_update f h) = h_ext h"
  by (cases h) simp

lemma backing_fs:
  "keeps backing (exists_file p)" "keeps backing (os_mkdir env d mode)"
  "keeps backing (os_chmod_dir env d mode)" "keeps backing (os_open_trunc env p mode)"
  "keeps backing (os_open_excl env p mode)" "keeps backing (os_write env p s)"
  "\<forall>n. p \<noteq> conf_path n \<Longrightarrow> keeps backing (os_replace env p q)"
  "\<forall>n. p \<noteq> conf_path n \<Longrightarrow> keeps backing (os_unlink env p)"
  by (auto simp: keeps_def os_defs split: option.splits intro!: backing_files)

lemma unit_name_inject [simp]: "unit_name n = unit_name m \<longleftrightarrow> n = m"
  by (simp add: unit_name_def)

lemma systemd_backed:
  assumes "systemd argv inp (h_fs h) (h_ext h) = (r, x)" and "backed h"
  shows "backed (h\<lparr>h_ext := x, h_ran := l\<rparr>)"
proof -
  have "x = last argv # h_ext h \<and> file_at (unit_conf (last argv)) h \<noteq> None \<or> set x \<subseteq> set (h_ext h)"
    using assms(1) by (auto simp: systemd_def file_at_def split: if_splits)
  moreover have "file_at p (h\<lparr>h_ext := x, h_ran := l\<rparr>) = file_at p h" for p by (simp add: file_at_def)
  ultimately show ?thesis
    using assms(2) by (auto simp: backed_def) (metis unit_conf_name option.distinct(1))
qed

lemma backing_run:
  assumes "e_run env = systemd"
  shows "keeps backing (run_prog env argv inp)"
  unfolding keeps_def
proof
  fix h :: "string list host"
  obtain r x where r: "systemd argv inp (h_fs h) (h_ext h) = (r, x)" by (meson surj_pair)
  have "snd (run_prog env argv inp h) = h\<lparr>h_ext := x, h_ran := h_ran h @ [(argv, inp, h_fs h)]\<rparr>"
    by (simp add: run_prog_def assms r Let_def split: option.split)
  then show "backing h (snd (run_prog env argv inp h))"
    using systemd_backed [OF r] run_prog_files [of _ env argv inp h] by (simp add: backing_def)
qed

lemmas backing_basic = backing.keeps_basic backing.keeps_bind backing.keeps_catch
  backing.keeps_finally backing.keeps_if backing_fs backing_run

lemma backing_checked: "e_run env = systemd \<Longrightarrow> keeps backing (checked_run env argv inp w)"
  unfolding checked_run_def by (intro backing_basic) (auto split: prod.splits intro!: backing_basic)

lemma other_paths: "\<forall>n. psk_path env \<noteq> conf_path n" "\<forall>n. tmp_path m \<noteq> conf_path n"
  by (simp_all)

lemma backing_live: "e_run env = systemd \<Longrightarrow> keeps backing (live_add env args psk)"
  unfolding live_add_def by (cases psk) (auto intro!: backing_basic backing_checked simp: other_paths)

lemma backing_read: "keeps backing (read_conf n)"
  unfolding read_conf_def by (intro backing_basic)

lemma backing_entries: "e_run env = systemd \<Longrightarrow> keeps backing (tunnel_entries env live ts)"
  by (induction ts)
    (auto intro!: backing_basic backing_read split: prod.splits exn.splits)

lemma backing_write: "keeps backing (write_conf env n c)"
  unfolding write_conf_def by (intro backing_basic other_paths)

lemma backing_put:
  assumes "never_fails env"
  shows "keeps backing (catchm (os_write env p c) (\<lambda>e. bindm (os_unlink env p) (\<lambda>_. raise e)))"
proof -
  have "catchm (os_write env p c) (\<lambda>e. bindm (os_unlink env p) (\<lambda>_. raise e)) = os_write env p c"
    using assms by (simp add: fun_eq_iff catchm_def os_write_def never_fails_def)
  then show ?thesis by (simp add: backing_fs)
qed

lemma backing_commands:
  assumes "e_run env = systemd" and "never_fails env"
  shows "keeps backing (cmd_genkey env req)" "keeps backing (cmd_create_tunnel env req)"
    "keeps backing (cmd_add_peer env req)" "keeps backing (cmd_remove_peer env req)"
    "keeps backing (cmd_tunnel_status env req)" "keeps backing (cmd_set_tunnel_state env req)"
  unfolding cmd_genkey_def cmd_create_tunnel_def cmd_add_peer_def cmd_remove_peer_def cmd_tunnel_status_def
    cmd_set_tunnel_state_def is_interface_up_def
  using assms
  by (auto intro!: backing_basic backing_checked backing_live backing_entries backing_read backing_write
      backing_put split: prod.splits)

lemma delete_backed:
  assumes "e_run env = systemd" and "never_fails env" and "backed h"
  shows "backed (snd (cmd_delete_tunnel env req h))"
proof (cases "validate_tunnel_name (jget req ''name'')")
  case (Inl e)
  then show ?thesis using assms(3) by (simp add: cmd_delete_tunnel_def liftr_bind)
next
  case (Inr n)
  then have "snd (cmd_delete_tunnel env req h) = del_file (conf_path n) (tick
      (h\<lparr>h_ext := removeAll (unit_name n) (h_ext h),
         h_ran := h_ran h @ [([''systemctl'', ''disable'', ''--now'', unit_name n], None, h_fs h)]\<rparr>))"
    using assms(2)
    by (simp add: cmd_delete_tunnel_def liftr_Inr bindm_def systemd_units(1) [OF assms(1)] os_defs
        never_fails_def ret_def)
  then show ?thesis using assms(3) by (auto simp: backed_def) (simp add: file_at_def)
qed

definition one_by_one :: "'x env \<Rightarrow> (string \<times> jdict) list \<Rightarrow> 'x host \<Rightarrow> 'x host" where
  "one_by_one env reqs h = fold (\<lambda>(c, req) h. case helper_dispatch c of
     None \<Rightarrow> h | Some handler \<Rightarrow> snd (handler env req h)) reqs h"

text \<open>C19: without overlap this cannot happen: whatever requests the daemon serves one after the
  other, every service that runs has its configuration, if that was so before.\<close>

theorem one_by_one_stays_backed:
  assumes "e_run env = systemd" and "never_fails env" and "backed h"
  shows "backed (one_by_one env reqs h)"
  using assms(3)
proof (induction reqs arbitrary: h)
  case Nil
  then show ?case by (simp add: one_by_one_def)
next
  case (Cons r reqs)
  obtain c req where r: "r = (c, req)" by (cases r)
  have "backed (snd (handler env req h))" if d: "helper_dispatch c = Some handler" for handler
    using d
  proof (cases rule: dispatch_cases)
    case 3
    then show ?thesis using delete_backed [OF assms(1,2) Cons.prems] by simp
  qed (use backing_commands [OF assms(1,2)] Cons.prems in \<open>auto simp: keeps_def backing_def\<close>)
  then have "backed (one_by_one env [r] h)"
    using Cons.prems by (auto simp: one_by_one_def r split: option.split)
  from Cons.IH [OF this] show ?case by (simp add: one_by_one_def)
qed

theorem one_by_one_stays_backed_witness:
  "backed (one_by_one units_env [(''set_tunnel_state'', [(''name'', JStr ''wg0''), (''action'', JStr ''activate'')]),
     (''delete_tunnel'', [(''name'', JStr ''wg0'')])] two_steps_host)"
  by (rule one_by_one_stays_backed) (simp_all add: units_env_def never_fails_def backed_def two_steps_host_def)

end
