(* ===== verification/Turns.thy ===== *)
theory Turns
  imports KeyFiles "HOL-Library.Sublist"
begin

text \<open>
  Every request is answered.  A command waits for a bounded number of programs, so its job ends
  when its programs have ended and it has been resumed that many times, whatever the other jobs
  do in between.
\<close>

section \<open>The number of programs a command waits for\<close>

inductive ends_in :: "nat \<Rightarrow> ('x, 'a) stage \<Rightarrow> bool" where
  ends_Over: "ends_in n (Over r)"
| ends_Await: "(\<And>r h. ends_in n (fst (k r h))) \<Longrightarrow> ends_in (Suc n) (Await argv inp k)"

inductive_simps ends_0_iff: "ends_in 0 (Await argv inp k)"
inductive_cases ends_AwaitE: "ends_in n (Await argv inp k)"

definition short :: "nat \<Rightarrow> ('x, 'a) co \<Rightarrow> bool" where
  "short n m \<longleftrightarrow> (\<forall>h. ends_in n (fst (m h)))"

lemma ends_mono: "ends_in n s \<Longrightarrow> n \<le> m \<Longrightarrow> ends_in m s"
proof (induction arbitrary: m rule: ends_in.induct)
  case (ends_Await n k argv inp)
  then obtain m' where "m = Suc m'" "n \<le> m'" by (cases m) auto
  with ends_Await.IH show ?case by (auto intro: ends_in.ends_Await)
qed (rule ends_Over)

lemma short_mono: "short n m \<Longrightarrow> n \<le> n' \<Longrightarrow> short n' m"
  unfolding short_def using ends_mono by blast

lemma short_sync: "short 0 (sync m)"
  by (auto simp: short_def sync_def split: prod.split intro: ends_Over)

lemma ends_then:
  assumes "ends_in a s" and "\<And>r. short b (f r)"
  shows "ends_in (a + b) (fst (then_stage f s h))"
  using assms(1)
proof (induction arbitrary: h rule: ends_in.induct)
  case (ends_Over n r)
  have "ends_in b (fst (f r h))" using assms(2) by (simp add: short_def)
  then show ?case using ends_mono by fastforce
next
  case (ends_Await n k argv inp)
  have "ends_in (n + b) (fst (case map_prod (then_stage f) id (k r h') of (g, h'') \<Rightarrow> g h''))" for r h'
    using ends_Await.IH [of r h'] by (cases "k r h'") simp
  then show ?case by (auto intro: ends_in.ends_Await)
qed

lemma short_andthen: "short a m \<Longrightarrow> (\<And>r. short b (f r)) \<Longrightarrow> short (a + b) (andthen m f)"
  unfolding short_def andthen_def
  by (auto split: prod.split intro!: ends_then [unfolded short_def]) (metis fst_conv)

lemma short_bindc: "short a m \<Longrightarrow> (\<And>x. short b (f x)) \<Longrightarrow> short (a + b) (bindc m f)"
  unfolding bindc_def
  by (rule short_andthen) (auto split: sum.split intro: short_mono [OF short_sync])

lemma short_finallyc: "short a m \<Longrightarrow> short a (finallyc m c)"
  unfolding finallyc_def using short_andthen [OF _ short_sync, of a m] by simp

lemma short_if: "short a m \<Longrightarrow> short a m' \<Longrightarrow> short a (if b then m else m')"
  by simp

lemma short_await: "short (Suc 0) (await_run argv inp)"
  by (auto simp: short_def await_run_def intro!: ends_Await ends_Over)

lemma short_after_sync: "(\<And>x. short n (f x)) \<Longrightarrow> short n (bindc (sync m) f)"
  using short_bindc [OF short_sync] by fastforce

lemma short_then: "short n m \<Longrightarrow> (\<And>x. short 0 (f x)) \<Longrightarrow> short n (bindc m f)"
  using short_bindc [of n m 0 f] by simp

lemma short_next: "(\<And>x. short n (f x)) \<Longrightarrow> short (Suc n) (bindc (await_run argv inp) f)"
  using short_bindc [OF short_await] by fastforce

lemma short_checked: "short (Suc 0) (checked_await argv inp w)"
  unfolding checked_await_def by (auto intro!: short_next short_after_sync short_sync)

lemma short_checked_next: "(\<And>x. short n (f x)) \<Longrightarrow> short (Suc n) (bindc (checked_await argv inp w) f)"
  using short_bindc [OF short_checked] by fastforce

lemmas short_rules = short_after_sync short_next short_checked_next short_sync

lemma short_live_add: "short (Suc 0) (co_live_add env args psk)"
  unfolding co_live_add_def by (cases psk) (auto intro!: short_rules short_finallyc)

lemma short_entries: "short (length ts) (co_entries env live ts)"
  by (induction ts) (auto intro!: short_rules short_then split: prod.split)

definition programs_of :: "string \<Rightarrow> 'x host \<Rightarrow> nat" where
  \<comment> \<open>how many programs a command waits for at most; for the status of a host this depends on the
      configurations it has when the request arrives\<close>
  "programs_of c h = (if c = ''genkey'' then 2 else if c = ''create_tunnel'' then 0
     else if c = ''tunnel_status'' then 1 + length (conf_stems h) else 1)"

lemma status_turns: "ends_in (1 + length (conf_stems h)) (fst (co_tunnel_status env req h))"
proof (cases "optional_name (jget req ''name'')")
  case (Inl e)
  then show ?thesis
    by (simp add: co_tunnel_status_def bindc_sync liftr_def ends_Over)
next
  case (Inr name)
  let ?ts = "case name of None \<Rightarrow> conf_stems h | Some n \<Rightarrow> filter (\<lambda>m. m = n) (conf_stems h)"
  have "short (length (conf_stems h)) (co_entries env live ?ts)" for live
    by (rule short_mono [OF short_entries]) (auto split: option.split)
  then have "short (Suc (length (conf_stems h))) (bindc (await_run [''wg'', ''show'', ''all'', ''dump''] None) (\<lambda>(rc, dump_out, err).
     bindc (sync (liftr (if rc = 0 then live_lines [] (py_splitlines dump_out) else Inr []))) (\<lambda>live.
     bindc (co_entries env live ?ts) (\<lambda>tunnels. sync (ret [(''tunnels'', JList tunnels)])))))"
    by (auto intro!: short_rules short_then split: prod.split)
  then show ?thesis
    using Inr by (simp add: co_tunnel_status_def bindc_sync liftr_def getm_def short_def)
qed

lemma short_commands:
  "short (Suc (Suc 0)) (co_genkey env req)" "short 0 (co_create_tunnel env req)"
  "short (Suc 0) (co_delete_tunnel env req)" "short (Suc 0) (co_set_tunnel_state env req)"
  "short (Suc 0) (co_add_peer env req)" "short (Suc 0) (co_remove_peer env req)"
  unfolding co_defs
  by (auto intro!: short_rules short_then short_live_add short_mono [OF short_sync] split: prod.split)

lemma command_turns:
  assumes "co_dispatch c = Some co"
  shows "ends_in (programs_of c h) (fst (co env req h))"
  using assms status_turns [of h env req] short_commands [of env req]
  by (auto simp: co_dispatch_def programs_of_def short_def numeral_2_eq_2 split: if_splits)

section \<open>Jobs\<close>

definition goes :: "nat \<Rightarrow> (prog_result \<Rightarrow> 'x host \<Rightarrow> ('x, jdict) stage \<times> 'x host) \<Rightarrow> bool" where
  "goes n k \<longleftrightarrow> (\<exists>m<n. \<forall>r h. ends_in m (fst (k r h)))"

definition turns_left :: "nat \<Rightarrow> 'x job \<Rightarrow> bool" where
  "turns_left n j \<longleftrightarrow> (case j of Answered _ \<Rightarrow> True | Waiting _ _ k \<Rightarrow> goes n k | Resumable _ k \<Rightarrow> goes n k)"

definition resumes :: "nat \<Rightarrow> 'x job \<Rightarrow> bool" where
  \<comment> \<open>the program has ended, or the job is one turn further already\<close>
  "resumes n j \<longleftrightarrow> turns_left n j \<or> (\<exists>r k. j = Resumable r k \<and> goes (Suc n) k)"

lemma goes_mono: "goes n k \<Longrightarrow> n \<le> m \<Longrightarrow> goes m k"
  unfolding goes_def using less_le_trans by blast

lemma turns_mono: "turns_left n j \<Longrightarrow> n \<le> m \<Longrightarrow> turns_left m j"
  by (auto simp: turns_left_def goes_mono split: job.splits)

lemma no_turns: "turns_left 0 j \<longleftrightarrow> answered j"
  by (auto simp: turns_left_def goes_def answered_def split: job.split)

lemma job_turns: "ends_in n s \<Longrightarrow> turns_left n (job_of s)"
proof (cases s)
  case (Await argv inp k)
  assume "ends_in n s"
  then obtain m where "n = Suc m" "\<And>r h. ends_in m (fst (k r h))"
    using Await by (auto elim: ends_AwaitE)
  then show ?thesis using Await by (auto simp: turns_left_def job_of_def goes_def)
qed (simp add: turns_left_def job_of_def)

lemma goes_job: "goes (Suc n) k \<Longrightarrow> turns_left n (job_of (fst (k r h)))"
  unfolding goes_def less_Suc_eq_le by (blast intro: turns_mono job_turns)

lemma step_length: "length (sv_jobs d) \<le> length (sv_jobs (sched_step env ids e d))"
  by (cases e) (auto split: option.split prod.split job.split)

lemma step_job:
  assumes "i < length (sv_jobs d)"
  shows "sv_jobs (sched_step env ids e d) ! i = (case e of
      Arrive _ _ \<Rightarrow> sv_jobs d ! i
    | Ends j \<Rightarrow> (case sv_jobs d ! i of
        Waiting argv inp k \<Rightarrow> if j = i then Resumable (fst (run_prog env argv inp (sv_host d))) k else sv_jobs d ! i
      | x \<Rightarrow> x)
    | Resume j \<Rightarrow> (case sv_jobs d ! i of
        Resumable r k \<Rightarrow> if j = i then job_of (fst (k r (sv_host d))) else sv_jobs d ! i
      | x \<Rightarrow> x))"
  using assms
  by (cases e) (auto simp: nth_append nth_list_update split: option.split prod.split job.split)

lemma step_turns:
  assumes "i < length (sv_jobs d)"
  shows "turns_left n (sv_jobs d ! i) \<Longrightarrow> turns_left n (sv_jobs (sched_step env ids e d) ! i)"
    and "resumes n (sv_jobs d ! i) \<Longrightarrow> resumes n (sv_jobs (sched_step env ids e d) ! i)"
    and "turns_left (Suc n) (sv_jobs d ! i) \<Longrightarrow> resumes n (sv_jobs (sched_step env ids (Ends i) d) ! i)"
    and "resumes n (sv_jobs d ! i) \<Longrightarrow> turns_left n (sv_jobs (sched_step env ids (Resume i) d) ! i)"
proof -
  have goes: "goes n k \<Longrightarrow> turns_left n (job_of (fst (k r h)))" for n k r h
    by (rule goes_job) (erule goes_mono, simp)
  show "turns_left n (sv_jobs d ! i) \<Longrightarrow> turns_left n (sv_jobs (sched_step env ids e d) ! i)"
    unfolding step_job [OF assms]
    by (auto simp: turns_left_def [of n "_ ! _"] goes split: sched.split job.split)
      (simp_all add: turns_left_def)
  show "resumes n (sv_jobs d ! i) \<Longrightarrow> resumes n (sv_jobs (sched_step env ids e d) ! i)"
    unfolding step_job [OF assms]
    by (auto simp: resumes_def turns_left_def [of n "_ ! _"] goes goes_job split: sched.split job.split)
      (simp_all add: turns_left_def)
  show "turns_left (Suc n) (sv_jobs d ! i) \<Longrightarrow> resumes n (sv_jobs (sched_step env ids (Ends i) d) ! i)"
    unfolding step_job [OF assms] by (auto simp: resumes_def turns_left_def split: job.splits)
  show "resumes n (sv_jobs d ! i) \<Longrightarrow> turns_left n (sv_jobs (sched_step env ids (Resume i) d) ! i)"
    unfolding step_job [OF assms]
    by (auto simp: resumes_def turns_left_def [of n "_ ! _"] goes goes_job split: job.split)
      (simp_all add: turns_left_def)
qed

section \<open>Schedules\<close>

definition turns :: "nat \<Rightarrow> nat \<Rightarrow> sched list" where
  \<comment> \<open>the program of job \<open>i\<close> ends, and the job goes on, \<open>n\<close> times\<close>
  "turns n i = concat (replicate n [Ends i, Resume i])"

lemma fold_turns:
  assumes "i < length (sv_jobs d)"
  shows "turns_left n (sv_jobs d ! i) \<and> subseq (turns n i) evs \<or>
      resumes n (sv_jobs d ! i) \<and> subseq (Resume i # turns n i) evs \<Longrightarrow>
    answered (sv_jobs (fold (sched_step env ids) evs d) ! i)"
  using assms
proof (induction evs arbitrary: d n)
  case Nil
  then show ?case by (cases n) (auto simp: turns_def no_turns)
next
  case (Cons e evs)
  let ?d = "sched_step env ids e d"
  have len: "i < length (sv_jobs ?d)"
    using Cons.prems(2) step_length [of d env ids e] by simp
  note st = step_turns [OF Cons.prems(2), where env = env and ids = ids]
  have "turns_left n (sv_jobs ?d ! i) \<and> subseq (turns n i) evs \<or>
      resumes n (sv_jobs ?d ! i) \<and> subseq (Resume i # turns n i) evs \<or>
      (\<exists>m. n = Suc m \<and> resumes m (sv_jobs ?d ! i) \<and> subseq (Resume i # turns m i) evs)"
    using Cons.prems(1)
  proof (elim disjE conjE)
    assume t: "turns_left n (sv_jobs d ! i)" and q: "subseq (turns n i) (e # evs)"
    show ?thesis
    proof (cases n)
      case 0
      then show ?thesis using st(1) [OF t] by (simp add: turns_def)
    next
      case (Suc m)
      show ?thesis
      proof (cases "e = Ends i")
        case True
        then show ?thesis using st(3) [of m] t q Suc by (simp add: turns_def)
      next
        case False
        then have "subseq (turns n i) evs" using q Suc by (simp add: turns_def)
        then show ?thesis using st(1) [OF t] by blast
      qed
    qed
  next
    assume r: "resumes n (sv_jobs d ! i)" and q: "subseq (Resume i # turns n i) (e # evs)"
    show ?thesis
    proof (cases "e = Resume i")
      case True
      then show ?thesis using st(4) [OF r] q by simp
    next
      case False
      then show ?thesis using st(2) [OF r] q by simp
    qed
  qed
  then show ?case using Cons.IH [OF _ len] by (simp, blast)
qed

lemma jobs_arrivals: "length (sv_jobs (schedule env ids evs h)) = length (arrivals evs)"
  using pool_schedule [of env ids evs h] by (simp add: pool_inv_def)

text \<open>C7: every request is answered: whatever requests have arrived before and come later, and whatever
  fails, a request has its answer as soon as its programs have ended and its job has gone on twice
  for a pair of keys, once for an edit, a deletion or a change of state, and once more than there
  were configurations on its arrival for a status, with any events of other jobs in between.\<close>

theorem requests_are_answered:
  assumes "subseq (turns (programs_of c (sv_host (schedule env ids evs h))) (length (arrivals evs))) evs'"
  shows "\<exists>r. sv_jobs (schedule env ids (evs @ Arrive c req # evs') h) ! length (arrivals evs) = Answered r"
proof -
  let ?d = "schedule env ids evs h" and ?i = "length (arrivals evs)"
  let ?d' = "sched_step env ids (Arrive c req) ?d"
  have len: "length (sv_jobs ?d) = ?i" by (rule jobs_arrivals)
  have "turns_left (programs_of c (sv_host ?d)) (sv_jobs ?d' ! ?i)"
  proof (cases "co_dispatch c :: ('a env \<Rightarrow> jdict \<Rightarrow> ('a, jdict) co) option")
    case None
    then show ?thesis using len by (simp add: turns_left_def nth_append)
  next
    case (Some co)
    from job_turns [OF command_turns [OF this, of "sv_host ?d"]] Some len show ?thesis
      by (auto simp: nth_append split: prod.split) (metis fst_conv)
  qed
  moreover have "?i < length (sv_jobs ?d')" using len by (simp split: option.split prod.split)
  ultimately have "answered (sv_jobs (fold (sched_step env ids) evs' ?d') ! ?i)"
    using assms by (intro fold_turns) auto
  then show ?thesis by (simp add: schedule_def answered_def split: job.splits)
qed

theorem requests_are_answered_witness:
  "\<exists>r. sv_jobs (schedule quiet_env id ([Arrive ''genkey'' [], Ends 0] @
      Arrive ''set_tunnel_state'' [] # [Resume 0, Ends 1, Ends 0, Resume 1]) empty_host) ! 1 = Answered r"
  using requests_are_answered [of "''set_tunnel_state''" quiet_env id "[Arrive ''genkey'' [], Ends 0]" empty_host
      "[Resume 0, Ends 1, Ends 0, Resume 1]" "[]"]
  by (simp add: programs_of_def turns_def)

end
