(* ===== verification/SystemInv.thy ===== *)
theory SystemInv
  imports EndToEnd
begin

text \<open>
  An invariant of the device that no request breaks.  The handlers of src/app/wireguard.py talk to
  the modelled daemon; the state is the metadata file and the daemon's host.  Whatever the
  programs answer, whether saving works, and whatever name or identifier is in the URL, the
  daemon's files stay the text of some map of sound tunnels, the metadata stays consistent, and
  the keys recorded in it are such that the daemon finds the peers by them.
\<close>

section \<open>The invariant\<close>

definition files_good :: "'x host \<Rightarrow> bool" where
  "files_good h \<longleftrightarrow> (\<exists>T. represents T h \<and> sound T)"

definition tidy_key :: "json \<Rightarrow> bool" where
  \<comment> \<open>a string without a line break at its end, as \<open>strip\<close> leaves it\<close>
  "tidy_key v \<longleftrightarrow> (\<exists>k. v = JStr k \<and> (valid_key k \<longrightarrow> key_core k))"

definition tidy_keys :: "metadata \<Rightarrow> bool" where
  "tidy_keys m \<longleftrightarrow> (\<forall>n t. (n, t) \<in> set m \<longrightarrow> (\<forall>p\<in>set (tm_peers t). tidy_key (pm_public_key p)))"

definition device_ok :: "'x host wgapp \<Rightarrow> bool" where
  "device_ok s \<longleftrightarrow> files_good (wa_world s) \<and>
     (case wa_meta s of Meta m \<Rightarrow> meta_ok m \<and> tidy_keys m | _ \<Rightarrow> True)"

definition keeps_device :: "'x host wgapp \<Rightarrow> 'x host wgapp \<Rightarrow> bool" where
  "keeps_device s s' \<longleftrightarrow> (device_ok s \<longrightarrow> device_ok s')"

interpretation device: frame_rel keeps_device
  by unfold_locales (auto simp: keeps_device_def)

lemma device_on_world:
  "(\<And>h. files_good h \<Longrightarrow> files_good (snd (m h))) \<Longrightarrow> keeps keeps_device (on_world m)"
  by (auto simp: keeps_def keeps_device_def on_world_def device_ok_def split: prod.splits) (metis snd_conv)

lemma device_save: "meta_ok m \<Longrightarrow> tidy_keys m \<Longrightarrow> keeps keeps_device (save_metadata env m)"
  by (auto simp: keeps_def keeps_device_def save_metadata_def device_ok_def)

lemma device_load_bind:
  assumes "\<And>m. meta_ok m \<Longrightarrow> tidy_keys m \<Longrightarrow> keeps keeps_device (f m)"
  shows "keeps keeps_device (bindm load_metadata f)"
  unfolding keeps_def keeps_device_def
proof (intro allI impI)
  fix s :: "'a host wgapp"
  assume s: "device_ok s"
  show "device_ok (snd (bindm load_metadata f s))"
  proof (cases rule: load_cases [of s])
    case (1 e)
    with s show ?thesis by (simp add: bindm_def)
  next
    case (2 m)
    then have "meta_ok m" "tidy_keys m" using s by (auto simp: device_ok_def meta_ok_def tidy_keys_def)
    then show ?thesis using assms [of m] s 2(1) by (simp add: bindm_def keeps_def keeps_device_def)
  qed
qed

section \<open>Calls to the daemon\<close>

lemma strip_tidy: "tidy_key (JStr (py_strip s))"
proof -
  have "key_core (py_strip s)" if v: "valid_key (py_strip s)"
  proof (rule ccontr)
    assume "\<not> key_core (py_strip s)"
    with v obtain u where "py_strip s = u @ [nl]" by (auto simp: valid_key_def or_nl_def)
    then have "last (py_strip s) = nl" "py_strip s \<noteq> []" by simp_all
    then show False
      using rstrip_by_last [of py_isspace "py_lstrip s"] by (simp add: py_strip_def py_rstrip_def)
  qed
  then show ?thesis by (simp add: tidy_key_def)
qed

lemma good_call:
  assumes "plain_json (JObj ((''cmd'', JStr c) # params))" and "helper_dispatch c = Some handler"
    and "\<And>h. files_good h \<Longrightarrow> files_good (snd (handler env ((''cmd'', JStr c) # params) h))" and "files_good h"
  shows "files_good (snd (helper_call (daemon_send env (Some uid) uid) c params h))"
  by (rule daemon_call_keeps [where P = files_good, OF assms(1,2) assms(3) [OF assms(4)] assms(4)])

lemma good_quiet:
  assumes "c \<in> {''genkey'', ''tunnel_status'', ''set_tunnel_state''}"
    and "plain_json (JObj ((''cmd'', JStr c) # params))" and "files_good h"
  shows "files_good (snd (helper_call (daemon_send env (Some uid) uid) c params h))"
  using assms daemon_quiet unfolding files_good_def by blast

lemma good_edit:
  assumes "never_fails env" and "clean c req a" and "helper_dispatch c = Some handler" and "files_good h"
  shows "files_good (snd (handler env req h))"
proof -
  obtain T where T: "represents T h" "sound T" using assms(4) by (auto simp: files_good_def)
  from refines_cases [OF clean_dispatch_refines [OF assms(1) T(1) assms(2,3)]]
  show ?thesis using T(2) sound_step [OF T(2) assms(2)] unfolding files_good_def by blast
qed

text \<open>What the daemon answers to \<open>genkey\<close>: two strings without spaces around them.\<close>

lemma genkey_answer:
  assumes "client_genkey (daemon_send env (Some uid) uid) h = (Inr v, h')"
  shows "\<exists>priv pub. v = JObj [(''private_key'', JStr (py_strip priv)), (''public_key'', JStr (py_strip pub))]"
proof -
  let ?req = "[(''cmd'', JStr ''genkey'')]"
  have p: "plain_json (JObj ?req)" "length (dumps (JObj ?req)) \<le> stream_limit"
    by (simp_all add: stream_limit_def dump_str_def esc_char_def code_def)
  have d: "helper_dispatch ''genkey'' = Some (cmd_genkey :: 'a env \<Rightarrow> jdict \<Rightarrow> ('a, jdict) hop)"
    by (simp add: helper_dispatch_def)
  obtain r h1 where r: "cmd_genkey env ?req h = (r, h1)" by (meson surj_pair)
  have nil: "read_response [] = Inl op_failed" by (simp add: read_response_def)
  show ?thesis
  proof (cases r)
    case (Inl e)
    with assms r show ?thesis
      by (auto simp: client_genkey_def helper_call_daemon [OF p d] run_command_def read_error_reply
          split: exn.splits if_splits)
  next
    case (Inr dct)
    with r obtain priv pub where "dct = [(''private_key'', JStr (py_strip priv)), (''public_key'', JStr (py_strip pub))]"
      by (auto simp: cmd_genkey_def ret_def elim!: bindm_InrE)
    moreover from this have "read_response (ok_reply dct) = Inr (JObj dct)" by (intro read_ok_reply) simp
    ultimately show ?thesis
      using assms r Inr by (auto simp: client_genkey_def helper_call_daemon [OF p d] run_command_def split: if_splits)
  qed
qed

section \<open>The edits the application asks for\<close>

lemma unchanged: "m h = (Inl e, h) \<Longrightarrow> files_good h \<Longrightarrow> files_good (snd (m h))"
  by simp

lemma invalid_key: "\<not> valid_key k \<Longrightarrow> validate_wg_key (JStr k) f = Inl (HelperError (''invalid '' @ f))"
proof (cases "validate_wg_key (JStr k) f")
  case (Inl e)
  then show ?thesis using validate_wg_key_err by simp
next
  case (Inr x)
  then have "valid_key k" by (auto simp: validate_wg_key_iff)
  then show "\<not> valid_key k \<Longrightarrow> ?thesis" by simp
qed

lemma good_create:
  assumes "tunnel_create_ok p" and "never_fails env" and "tidy_key (JStr k)" and "files_good h"
  shows "files_good (snd (cmd_create_tunnel env ((''cmd'', JStr ''create_tunnel'') #
    create_params (tc_name p) (str_iface (tc_address p)) (tc_listen_port p) k) h))"
proof (cases "valid_key k")
  case True
  then have "key_core k" using assms(3) by (simp add: tidy_key_def)
  from create_call_clean [OF assms(1) this] show ?thesis
    by (intro good_edit [OF assms(2) _ _ assms(4), of "''create_tunnel''" _ "Create _ _"])
      (simp_all add: helper_dispatch_def)
next
  case False
  have n: "valid_name (tc_name p)" using assms(1) tunnel_name_valid by (simp add: tunnel_create_ok_def)
  have "validate_wg_key (JStr k) ''private_key'' = Inl (HelperError (''invalid '' @ ''private_key''))"
    using invalid_key [OF False] .
  then show ?thesis
    using n assms(4) by (simp add: cmd_create_tunnel_def create_params_def jget_def validate_name_ok liftr_bind)
qed

lemma invalid_name: "\<not> valid_name n \<Longrightarrow> validate_tunnel_name (JStr n) = Inl (HelperError ''invalid tunnel name'')"
  by (simp add: validate_tunnel_name_def Let_def) (use validate_tunnel_name_iff [of "JStr n" n] in \<open>auto simp: validate_tunnel_name_def split: if_splits\<close>)

lemma good_delete:
  assumes "never_fails env" and "files_good h"
  shows "files_good (snd (cmd_delete_tunnel env ((''cmd'', JStr ''delete_tunnel'') # [(''name'', JStr n)]) h))"
proof (cases "valid_name n")
  case True
  then show ?thesis
    by (intro good_edit [OF assms(1) _ _ assms(2), of "''delete_tunnel''" _ "Delete n"])
      (simp_all add: helper_dispatch_def jget_def)
next
  case False
  then show ?thesis using assms(2) by (simp add: cmd_delete_tunnel_def jget_def invalid_name liftr_bind)
qed

lemma good_add:
  assumes "never_fails env" and "files_good h" and "tidy_key (JStr pub)"
    and "\<forall>k. psk = Some k \<longrightarrow> tidy_key (JStr k)" and "\<forall>k. keep = Some k \<longrightarrow> 0 \<le> k \<and> k \<le> 3600"
    and "aver a = V4" and "ascope a = None" and "wf_addr a"
  shows "files_good (snd (cmd_add_peer env ((''cmd'', JStr ''add_peer'') #
    add_params n pub (str_addr a @ ''/32'') psk keep) h))"
proof (cases "valid_name n \<and> valid_key pub \<and> (\<forall>k. psk = Some k \<longrightarrow> valid_key k)")
  case True
  then have "key_core pub" "\<forall>k. psk = Some k \<longrightarrow> key_core k" "valid_name n"
    using assms(3,4) by (auto simp: tidy_key_def)
  from add_call_clean [OF this(3,1,2) assms(5-8)] show ?thesis
    by (intro good_edit [OF assms(1) _ _ assms(2), of "''add_peer''" _ "AddPeer _ _"])
      (simp_all add: helper_dispatch_def)
next
  case False
  let ?req = "(''cmd'', JStr ''add_peer'') # add_params n pub (str_addr a @ ''/32'') psk keep"
  have "\<exists>e. cmd_add_peer env ?req h = (Inl e, h)"
  proof (cases "valid_name n \<and> valid_key pub")
    case True
    with False obtain k where k: "psk = Some k" "\<not> valid_key k" by auto
    then have "optional_key (opt_str psk) = Inl (HelperError (''invalid '' @ ''preshared_key''))"
      by (simp add: optional_key_def opt_str_def invalid_key)
    then show ?thesis
      using True by (simp add: cmd_add_peer_def add_params_def jget_def validate_name_ok liftr_bind
          validate_wg_key_iff [THEN iffD2] split: sum.split)
  next
    case False
    then show ?thesis
      by (cases "valid_name n") (simp_all add: cmd_add_peer_def add_params_def jget_def invalid_name validate_name_ok
          invalid_key liftr_bind)
  qed
  then show ?thesis using assms(2) by auto
qed

lemma good_remove:
  assumes "never_fails env" and "files_good h" and "tidy_key (JStr k)"
  shows "files_good (snd (cmd_remove_peer env ((''cmd'', JStr ''remove_peer'') #
    [(''tunnel'', JStr n), (''public_key'', JStr k)]) h))"
proof (cases "valid_name n \<and> valid_key k")
  case True
  then have "key_core k" using assms(3) by (simp add: tidy_key_def)
  with True show ?thesis
    by (intro good_edit [OF assms(1) _ _ assms(2), of "''remove_peer''" _ "RemovePeer n k"])
      (simp_all add: helper_dispatch_def jget_def)
next
  case False
  then show ?thesis
    using assms(2) by (cases "valid_name n") (simp_all add: cmd_remove_peer_def jget_def invalid_name
        validate_name_ok invalid_key liftr_bind)
qed

section \<open>The handlers\<close>

definition deployed :: "'x env \<Rightarrow> int \<Rightarrow> 'x host wgenv \<Rightarrow> bool" where
  \<comment> \<open>the socket leads to the daemon, as the right user, and no system call of the daemon fails\<close>
  "deployed henv uid env \<longleftrightarrow> we_send env = daemon_send henv (Some uid) uid \<and> never_fails henv"

lemma snd_bind_ret: "snd (bindm m (\<lambda>_. ret x) h) = snd (m h)"
  by (simp add: bindm_def ret_def split: prod.split sum.split)

lemma device_quiet:
  assumes "deployed henv uid env"
  shows "keeps keeps_device (on_world (client_genkey (we_send env)))"
    and "keeps keeps_device (on_world (client_tunnel_status (we_send env) name))"
    and "keeps keeps_device (on_world (client_set_tunnel_state (we_send env) n act))"
  using assms unfolding client_genkey_def client_tunnel_status_def client_set_tunnel_state_def deployed_def
  by (auto intro!: device_on_world good_quiet simp: snd_bind_ret opt_str_def split: option.split)

lemma device_create:
  assumes "deployed henv uid env" and "tunnel_create_ok p" and "tidy_key v"
  shows "keeps keeps_device (on_world (client_create_tunnel (we_send env) (tc_name p) (str_iface (tc_address p))
    (tc_listen_port p) v))"
proof -
  obtain k where k: "v = JStr k" using assms(3) by (auto simp: tidy_key_def)
  have d: "helper_dispatch ''create_tunnel'' = Some (cmd_create_tunnel :: 'a env \<Rightarrow> jdict \<Rightarrow> ('a, jdict) hop)"
    by (simp add: helper_dispatch_def)
  show ?thesis
    unfolding client_create_tunnel_def k
    by (rule device_on_world, unfold snd_bind_ret create_params_def [symmetric])
      (use assms k in \<open>auto simp: deployed_def create_params_def [of "tc_name p"]
        intro!: good_call [OF _ d] good_create [unfolded create_params_def]\<close>)
qed

lemma device_delete:
  assumes "deployed henv uid env"
  shows "keeps keeps_device (on_world (client_delete_tunnel (we_send env) n))"
proof -
  have d: "helper_dispatch ''delete_tunnel'' = Some (cmd_delete_tunnel :: 'a env \<Rightarrow> jdict \<Rightarrow> ('a, jdict) hop)"
    by (simp add: helper_dispatch_def)
  show ?thesis
    unfolding client_delete_tunnel_def
    by (rule device_on_world, unfold snd_bind_ret)
      (use assms in \<open>auto simp: deployed_def intro!: good_call [OF _ d] good_delete\<close>)
qed

lemma device_remove:
  assumes "deployed henv uid env" and "tidy_key v"
  shows "keeps keeps_device (on_world (client_remove_peer (we_send env) n v))"
proof -
  obtain k where k: "v = JStr k" using assms(2) by (auto simp: tidy_key_def)
  have d: "helper_dispatch ''remove_peer'' = Some (cmd_remove_peer :: 'a env \<Rightarrow> jdict \<Rightarrow> ('a, jdict) hop)"
    by (simp add: helper_dispatch_def)
  show ?thesis
    unfolding client_remove_peer_def
    by (rule device_on_world, unfold snd_bind_ret)
      (use assms k in \<open>auto simp: deployed_def intro!: good_call [OF _ d] good_remove\<close>)
qed

lemma device_add:
  assumes "deployed henv uid env" and "tidy_key pub" and "psk = JNull \<or> tidy_key psk"
    and "\<forall>k. keep = Some k \<longrightarrow> 0 \<le> k \<and> k \<le> 3600" and "aver a = V4" and "ascope a = None" and "wf_addr a"
  shows "keeps keeps_device (on_world (client_add_peer (we_send env) n pub [str_addr a @ ''/32''] psk keep))"
proof -
  obtain k where k: "pub = JStr k" using assms(2) by (auto simp: tidy_key_def)
  obtain q where q: "psk = opt_str q" "\<forall>k. q = Some k \<longrightarrow> tidy_key (JStr k)"
  proof (cases "psk = JNull")
    case True
    then show ?thesis by (intro that [of None]) (simp_all add: opt_str_def)
  next
    case False
    then obtain x where "psk = JStr x" "tidy_key psk" using assms(3) by (auto simp: tidy_key_def)
    then show ?thesis by (intro that [of "Some x"]) (simp_all add: opt_str_def)
  qed
  have d: "helper_dispatch ''add_peer'' = Some (cmd_add_peer :: 'a env \<Rightarrow> jdict \<Rightarrow> ('a, jdict) hop)"
    by (simp add: helper_dispatch_def)
  have ps: "[(''tunnel'', JStr n), (''public_key'', pub), (''allowed_ips'', JList (map JStr [str_addr a @ ''/32''])),
      (''preshared_key'', psk), (''keepalive'', opt_int keep)] = add_params n k (str_addr a @ ''/32'') q keep"
    by (simp add: add_params_def k q(1))
  have plain: "plain_json (JObj ((''cmd'', JStr ''add_peer'') # add_params n k (str_addr a @ ''/32'') q keep))"
    by (simp add: add_params_def opt_str_def opt_int_def split: option.splits)
  show ?thesis
    unfolding client_add_peer_def ps
    by (rule device_on_world, unfold snd_bind_ret)
      (use assms k q(2) plain in \<open>auto simp: deployed_def intro!: good_call [OF _ d] good_add\<close>)
qed

definition tidy_pair :: "json \<Rightarrow> bool" where
  "tidy_pair v \<longleftrightarrow> (\<forall>j. jindex v ''private_key'' = Inr j \<longrightarrow> tidy_key j) \<and>
     (\<forall>j. jindex v ''public_key'' = Inr j \<longrightarrow> tidy_key j)"

lemma genkey_tidy:
  assumes "deployed henv uid env" and "on_world (client_genkey (we_send env)) s = (Inr v, s')"
  shows "tidy_pair v"
proof -
  have "client_genkey (daemon_send henv (Some uid) uid) (wa_world s) = (Inr v, wa_world s')"
    using on_worldE [OF assms(2)] assms(1) by (simp add: deployed_def)
  from genkey_answer [OF this] show ?thesis by (auto simp: tidy_pair_def jindex_def strip_tidy)
qed

lemma device_genkey_bind:
  assumes "deployed henv uid env" and "\<And>v. tidy_pair v \<Longrightarrow> keeps keeps_device (f v)"
  shows "keeps keeps_device (bindm (on_world (client_genkey (we_send env))) f)"
  by (rule device.keeps_bind_Inr) (auto intro: device_quiet(1) [OF assms(1)] assms(2) genkey_tidy [OF assms(1)])

lemma tidy_update: "tidy_keys m \<Longrightarrow> \<forall>p\<in>set (tm_peers t). tidy_key (pm_public_key p) \<Longrightarrow> tidy_keys (AList.update n t m)"
  unfolding tidy_keys_def by (metis update_mem)

lemma tidy_delete: "tidy_keys m \<Longrightarrow> tidy_keys (AList.delete n m)"
  by (auto simp: tidy_keys_def AList.delete_eq)

lemma tidy_lookup: "tidy_keys m \<Longrightarrow> map_of m n = Some t \<Longrightarrow> p \<in> set (tm_peers t) \<Longrightarrow> tidy_key (pm_public_key p)"
  unfolding tidy_keys_def by (metis map_of_SomeD)

lemma device_overlap: "keeps keeps_device (check_overlap env msg cands)"
  by (simp add: check_overlap_def Let_def device.keeps_assert)

lemmas device_rules = device.keeps_basic device.keeps_bind device.keeps_lift_bind device_overlap
  device_load_bind device_save

lemma new_tunnel_ok:
  assumes "tunnel_create_ok p"
  shows "tun_ok \<lparr>tm_address = str_iface (tc_address p), tm_endpoint = tc_endpoint p,
    tm_listen_port = tc_listen_port p, tm_peers = []\<rparr>"
  using assms by (simp add: tun_ok_def tunnel_create_ok_def v4_iface_ok_def ip_interface_str_iface)

lemma system_create_tunnel:
  assumes "deployed henv uid env" and "tunnel_create_ok p"
  shows "keeps keeps_device (create_tunnel env p)"
  using new_tunnel_ok [OF assms(2)]
  unfolding create_tunnel_def
  by (intro device_rules device_genkey_bind [OF assms(1)] device_create [OF assms] meta_ok_update tidy_update)
    (auto simp: tidy_pair_def device_rules)

lemma system_delete_tunnel: "deployed henv uid env \<Longrightarrow> keeps keeps_device (delete_tunnel env name)"
  unfolding delete_tunnel_def
  by (intro device_rules device_delete meta_ok_delete tidy_delete)

lemma system_state: "deployed henv uid env \<Longrightarrow> keeps keeps_device (set_tunnel_state env name p)"
  unfolding set_tunnel_state_def
  by (intro device_rules device_quiet) (auto intro!: device_rules)

lemma system_lists:
  assumes "deployed henv uid env"
  shows "keeps keeps_device (list_tunnels env)" and "keeps keeps_device (list_peers env name)"
    and "keeps keeps_device (status_snapshot env)"
  unfolding list_tunnels_def list_peers_def status_snapshot_def
  by (intro device_rules device_quiet [OF assms])+

lemma device_peer_add:
  assumes "deployed henv uid env" and "peer_create_ok payload" and "tun_ok t"
    and "allocate_peer_address t = Inr addr" and "tidy_key pub" and "psk = JNull \<or> tidy_key psk"
  shows "keeps keeps_device (on_world (client_add_peer (we_send env) name pub [addr] psk (pc_keepalive payload)))"
proof -
  have keep: "\<forall>k. pc_keepalive payload = Some k \<longrightarrow> 0 \<le> k \<and> k \<le> 3600"
    using assms(2) by (simp add: peer_create_ok_def)
  obtain iface h where h: "ip_interface (tm_address t) = Some iface" "addr = str_addr h @ ''/32''"
      "h \<in> set (hosts (inet iface))" using allocate_free [OF assms(4)] by blast
  have v4: "is_v4_iface iface" using assms(3) h(1) by (auto simp: tun_ok_def)
  note hv = hosts_v4 [OF v4 ip_interface_wf [OF h(1)] h(3)]
  show ?thesis unfolding h(2) by (rule device_add [OF assms(1,5,6) keep hv(1-3)])
qed

lemma device_peer_store:
  assumes "meta_ok m" "tidy_keys m" "map_of m name = Some t" "allocate_peer_address t = Inr (pk_address ks)"
    and "tidy_pair (pk_keypair ks)"
  shows "keeps keeps_device (peer_store env name payload m t ks)"
proof -
  have "meta_ok (add_meta_peer name t (new_peer env n payload (pk_address ks) k) m)" for n k
    unfolding add_meta_peer_def using meta_ok_lookup [OF assms(1,3)] assms
    by (intro meta_ok_update tun_ok_add [where s = "pk_address ks"]) (simp_all add: new_peer_def)
  moreover have "tidy_keys (add_meta_peer name t (new_peer env n payload (pk_address ks) k) m)" if "tidy_key k" for n k
    unfolding add_meta_peer_def using tidy_lookup [OF assms(2,3)] that
    by (intro tidy_update assms(2)) (auto simp: new_peer_def)
  ultimately show ?thesis
    using assms(5) unfolding peer_store_def tidy_pair_def
    by (intro device_rules device.keeps_get) (auto intro: device_save)
qed

lemma device_peer_reply: "keeps keeps_device (peer_reply payload t k ks)"
  unfolding peer_reply_def by (intro device_rules)

lemma system_create_peer:
  assumes "deployed henv uid env" and "peer_create_ok payload"
  shows "keeps keeps_device (create_peer env name payload)"
proof -
  have psk: "keeps keeps_device (bindm (if pc_preshared_key payload
      then bindm (on_world (client_genkey (we_send env))) (\<lambda>k. liftr (jindex k ''private_key''))
      else ret JNull) f)" if "\<And>psk. psk = JNull \<or> tidy_key psk \<Longrightarrow> keeps keeps_device (f psk)" for f :: "json \<Rightarrow> ('a host, 'c) wop"
    using that by (auto simp: bindm_assoc tidy_pair_def intro!: device_genkey_bind [OF assms(1)] device.keeps_lift_bind)
  have rest: "keeps keeps_device (bindm (peer_add env name payload t) (\<lambda>ks.
      bindm (peer_store env name payload m t ks) (\<lambda>_. peer_reply payload t k ks)))"
    if "meta_ok m" "tidy_keys m" "map_of m name = Some t" for m t k
    unfolding peer_add_def bindm_assoc bindm_ret
    by (intro device.keeps_lift_bind device_genkey_bind [OF assms(1)] psk device.keeps_bind
        device_peer_add [OF assms meta_ok_lookup [OF that(1,3)]] device_peer_store [OF that] device_peer_reply)
      (auto simp: tidy_pair_def)
  show ?thesis
    unfolding create_peer_def peer_begin_def bindm_assoc bindm_ret
    by (intro device_load_bind device.keeps_lift_bind device.keeps_bind device_quiet [OF assms(1)]
        device.keeps_assert) (auto intro!: rest split: option.splits)
qed

lemma device_delete_peer:
  assumes "meta_ok m" "tidy_keys m" "map_of m name = Some t"
  shows "keeps keeps_device (save_metadata env (AList.update name (t\<lparr>tm_peers := filter P (tm_peers t)\<rparr>) m))"
  using assms by (intro device_save meta_ok_update tidy_update tun_ok_filter) (auto dest: meta_ok_lookup tidy_lookup)

lemma found_peer_tidy:
  "tidy_keys m \<Longrightarrow> map_of m name = Some t \<Longrightarrow> find P (tm_peers t) = Some p \<Longrightarrow> tidy_key (pm_public_key p)"
  by (auto simp: find_Some_iff intro: tidy_lookup)

lemma system_delete_peer:
  assumes "deployed henv uid env"
  shows "keeps keeps_device (delete_peer env name peer_id)"
  unfolding delete_peer_def
  by (intro device_load_bind device.keeps_lift_bind device.keeps_bind device_remove [OF assms] device_delete_peer
      device.keeps_ret) (auto intro: found_peer_tidy split: option.splits)

end
