(* ===== verification/App.thy ===== *)
theory App
  imports SystemInv StatusTypes Network Routing Web Monitor
begin

text \<open>
  The whole web application: the endpoints of all routers of src/app/main.py over the state of the
  device.  \<open>endpoint\<close> is the table of the decorators (method and path), \<open>run_endpoint\<close> calls the
  handler of each module on its part of the device, and \<open>device_site\<close> makes this the API of the
  application frame in \<open>Web\<close>.

  What pydantic makes of a body, what FastAPI makes of an answer, and the identity provider's
  library are parameters; the library works on the session and on a state of its own, not on the
  device.  What psutil and the kernel show at the moment of a request comes with the request.
\<close>

section \<open>The device\<close>

record ('x, 'p, 'l) device =
  dv_wg :: "'x host wgapp"        \<comment> \<open>the metadata file, and the root helper with its host\<close>
  dv_programs :: 'p               \<comment> \<open>what \<open>nmcli\<close> and \<open>systemctl\<close> act on\<close>
  dv_kernel :: 'l                 \<comment> \<open>the routing tables\<close>
  dv_monitor :: monitor_state
  dv_alert :: json_file

record ('x, 'p, 'l) surroundings =
  rq_wg :: "'x host wgenv"
  rq_exec :: "'p exec"
  rq_netlink :: "'l netlink"
  rq_if_stats :: "(string \<times> bool) list"
  rq_stats :: stats_env
  rq_alert_denied :: bool

type_synonym ('x, 'p, 'l, 'a) dop = "(('x, 'p, 'l) device, aexn, 'a) op"

definition on_wg :: "('x host, 'a) wop \<Rightarrow> ('x, 'p, 'l, 'a) dop" where
  "on_wg m d = (case m (dv_wg d) of (r, w) \<Rightarrow> (r, d\<lparr>dv_wg := w\<rparr>))"

definition on_programs :: "('p, aexn, 'a) op \<Rightarrow> ('x, 'p, 'l, 'a) dop" where
  "on_programs m d = (case m (dv_programs d) of (r, w) \<Rightarrow> (r, d\<lparr>dv_programs := w\<rparr>))"

definition on_kernel :: "('l, aexn, 'a) op \<Rightarrow> ('x, 'p, 'l, 'a) dop" where
  "on_kernel m d = (case m (dv_kernel d) of (r, w) \<Rightarrow> (r, d\<lparr>dv_kernel := w\<rparr>))"

definition on_monitor :: "(monitor_state, aexn, 'a) op \<Rightarrow> ('x, 'p, 'l, 'a) dop" where
  "on_monitor m d = (case m (dv_monitor d) of (r, w) \<Rightarrow> (r, d\<lparr>dv_monitor := w\<rparr>))"

definition on_alert :: "(json_file, aexn, 'a) op \<Rightarrow> ('x, 'p, 'l, 'a) dop" where
  "on_alert m d = (case m (dv_alert d) of (r, w) \<Rightarrow> (r, d\<lparr>dv_alert := w\<rparr>))"

section \<open>The endpoints\<close>

datatype endpoint =
    List_Interfaces | Configure_Interface | List_Known_Wifi | Scan_Wifi | Wifi_Connect
  | List_Routes | Add_Route | Delete_Route
  | Stats | Dismiss_Rollback_Alert
  | Reboot | Shutdown
  | List_Tunnels | Create_Tunnel | Delete_Tunnel string | Set_Tunnel_State string
  | List_Peers string | Create_Peer string | Delete_Peer string string | Status_Snapshot

type_synonym endpoints = "((string \<times> string) \<times> endpoint) list"

definition network_endpoints :: endpoints where
  "network_endpoints =
     [((''GET'', ''/api/network/interfaces''), List_Interfaces),
      ((''POST'', ''/api/network/configure''), Configure_Interface),
      ((''GET'', ''/api/network/wifi/known''), List_Known_Wifi),
      ((''GET'', ''/api/network/wifi/scan''), Scan_Wifi),
      ((''POST'', ''/api/network/wifi/connect''), Wifi_Connect)]"

definition routing_endpoints :: endpoints where
  "routing_endpoints =
     [((''GET'', ''/api/routing''), List_Routes), ((''POST'', ''/api/routing''), Add_Route),
      ((''DELETE'', ''/api/routing''), Delete_Route)]"

definition monitor_endpoints :: endpoints where
  "monitor_endpoints =
     [((''GET'', ''/api/monitor/stats''), Stats),
      ((''POST'', ''/api/monitor/rollback-alert/dismiss''), Dismiss_Rollback_Alert)]"

definition system_endpoints :: endpoints where
  "system_endpoints =
     [((''POST'', ''/api/system/reboot''), Reboot), ((''POST'', ''/api/system/shutdown''), Shutdown)]"

definition wireguard_endpoints :: endpoints where
  "wireguard_endpoints =
     [((''GET'', ''/api/wireguard/tunnels''), List_Tunnels),
      ((''POST'', ''/api/wireguard/tunnels''), Create_Tunnel),
      ((''GET'', ''/api/wireguard/status''), Status_Snapshot)]"

definition fixed_endpoints :: endpoints where
  "fixed_endpoints = network_endpoints @ routing_endpoints @ monitor_endpoints @ system_endpoints @ wireguard_endpoints"

lemmas endpoint_tables = fixed_endpoints_def network_endpoints_def routing_endpoints_def
  monitor_endpoints_def system_endpoints_def wireguard_endpoints_def

definition tunnel_endpoint :: "string \<Rightarrow> string list \<Rightarrow> endpoint option" where
  \<comment> \<open>the paths with parameters, below \<open>/api/wireguard/tunnels/\<close>; a parameter is one non-empty
      segment\<close>
  "tunnel_endpoint meth segments = (case segments of
     [name] \<Rightarrow> if name = [] then None else if meth = ''DELETE'' then Some (Delete_Tunnel name) else None
   | [name, what] \<Rightarrow>
       if name = [] then None
       else if what = ''state'' \<and> meth = ''POST'' then Some (Set_Tunnel_State name)
       else if what = ''peers'' \<and> meth = ''GET'' then Some (List_Peers name)
       else if what = ''peers'' \<and> meth = ''POST'' then Some (Create_Peer name)
       else None
   | [name, what, peer_id] \<Rightarrow>
       if name = [] \<or> peer_id = [] then None
       else if what = ''peers'' \<and> meth = ''DELETE'' then Some (Delete_Peer name peer_id) else None
   | _ \<Rightarrow> None)"

definition tunnels_prefix :: string where
  "tunnels_prefix = ''/api/wireguard/tunnels/''"

definition endpoint :: "string \<Rightarrow> string \<Rightarrow> endpoint option" where
  "endpoint meth path = (case map_of fixed_endpoints (meth, path) of
     Some e \<Rightarrow> Some e
   | None \<Rightarrow> if prefix tunnels_prefix path
             then tunnel_endpoint meth (py_split (CHR ''/'') (drop (length tunnels_prefix) path)) else None)"

section \<open>Bodies and answers\<close>

datatype 'a reading =
    Malformed      \<comment> \<open>not JSON: answered by the framework before any dependency runs\<close>
  | Invalid        \<comment> \<open>JSON, but refused by the model: answered with 422 after the dependencies\<close>
  | Body 'a

record bodies =
  bd_net :: "net_config reading"
  bd_wifi :: "wifi_connect_req reading"
  bd_route :: "route_req reading"
  bd_route_delete :: "route_delete_req reading"
  bd_table :: "int option reading"
  bd_tunnel :: "tunnel_create reading"
  bd_state :: "tunnel_state reading"
  bd_peer :: "peer_create reading"

datatype answer =
    AJson json | APy pyval | AJsons "json list" | AInterfaces "(string \<times> bool \<times> string list) list"
  | AKnown "(string \<times> string) list" | AScan "wifi_net list" | AStats stats_report
  | APeerFile peer_response

definition with_body :: "'a reading \<Rightarrow> ('a \<Rightarrow> ('s, aexn, 'b) op) \<Rightarrow> ('s, aexn, 'b) op" where
  "with_body r f = (case r of Body p \<Rightarrow> f p | _ \<Rightarrow> raise (HTTPExc 422 ''Unprocessable Content''))"

definition malformed :: "bodies \<Rightarrow> endpoint \<Rightarrow> bool" where
  "malformed b e = (case e of
     Configure_Interface \<Rightarrow> bd_net b = Malformed | Wifi_Connect \<Rightarrow> bd_wifi b = Malformed
   | Add_Route \<Rightarrow> bd_route b = Malformed | Delete_Route \<Rightarrow> bd_route_delete b = Malformed
   | Create_Tunnel \<Rightarrow> bd_tunnel b = Malformed | Set_Tunnel_State _ \<Rightarrow> bd_state b = Malformed
   | Create_Peer _ \<Rightarrow> bd_peer b = Malformed | _ \<Rightarrow> False)"

definition answer_as :: "nat \<Rightarrow> ('a \<Rightarrow> answer) \<Rightarrow> ('s, aexn, 'a) op \<Rightarrow> ('s, aexn, nat \<times> answer) op" where
  "answer_as st f m = bindm m (\<lambda>x. ret (st, f x))"

definition user_sub :: "json \<Rightarrow> json" where
  \<comment> \<open>\<open>user.get("sub")\<close> of the object the callback stores\<close>
  "user_sub user = (case user of JObj c \<Rightarrow> jget c ''sub'' | _ \<Rightarrow> JNull)"

definition run_endpoint :: "('x, 'p, 'l) surroundings \<Rightarrow> bodies \<Rightarrow> endpoint \<Rightarrow> json \<Rightarrow> ('x, 'p, 'l, nat \<times> answer) dop" where
  "run_endpoint rq b e user =
     (let env = (rq_wg rq)\<lparr>we_sub := user_sub user\<rparr>; exec = rq_exec rq; ipr = rq_netlink rq;
          existing = map fst (we_ifaces env)
      in case e of
        List_Interfaces \<Rightarrow> ret (200, AInterfaces (list_interfaces (rq_if_stats rq) (we_ifaces env)))
      | Configure_Interface \<Rightarrow> with_body (bd_net b) (\<lambda>p.
          answer_as 200 AJson (on_programs (configure_interface exec existing p)))
      | List_Known_Wifi \<Rightarrow> answer_as 200 AKnown (on_programs (list_known_wifi exec))
      | Scan_Wifi \<Rightarrow> answer_as 200 AScan (on_programs (scan_wifi exec))
      | Wifi_Connect \<Rightarrow> with_body (bd_wifi b) (\<lambda>p.
          answer_as 200 AJson (on_programs (wifi_connect exec p)))
      | List_Routes \<Rightarrow> with_body (bd_table b) (\<lambda>t. answer_as 200 AJsons (on_kernel (list_routes ipr t)))
      | Add_Route \<Rightarrow> with_body (bd_route b) (\<lambda>p. answer_as 200 AJson (on_kernel (add_route ipr existing p)))
      | Delete_Route \<Rightarrow> with_body (bd_route_delete b) (\<lambda>p.
          answer_as 200 AJson (on_kernel (delete_route ipr existing p)))
      | Stats \<Rightarrow> (\<lambda>d. answer_as 200 AStats (on_monitor (stats ((rq_stats rq)\<lparr>se_alert := dv_alert d\<rparr>))) d)
      | Dismiss_Rollback_Alert \<Rightarrow> answer_as 200 APy (on_alert (dismiss_rollback_alert (rq_alert_denied rq)))
      | Reboot \<Rightarrow> answer_as 200 AJson (on_programs (reboot exec))
      | Shutdown \<Rightarrow> answer_as 200 AJson (on_programs (shutdown exec))
      | List_Tunnels \<Rightarrow> answer_as 200 AJson (on_wg (list_tunnels env))
      | Create_Tunnel \<Rightarrow> with_body (bd_tunnel b) (\<lambda>p. answer_as 201 AJson (on_wg (create_tunnel env p)))
      | Delete_Tunnel name \<Rightarrow> answer_as 200 AJson (on_wg (delete_tunnel env name))
      | Set_Tunnel_State name \<Rightarrow> with_body (bd_state b) (\<lambda>p.
          answer_as 200 AJson (on_wg (set_tunnel_state env name p)))
      | List_Peers name \<Rightarrow> answer_as 200 AJson (on_wg (list_peers env name))
      | Create_Peer name \<Rightarrow> with_body (bd_peer b) (\<lambda>p. answer_as 200 APeerFile (on_wg (create_peer env name p)))
      | Delete_Peer name peer_id \<Rightarrow> answer_as 200 AJson (on_wg (delete_peer env name peer_id))
      | Status_Snapshot \<Rightarrow> answer_as 200 AJson (on_wg (status_snapshot env)))"

section \<open>The application\<close>

record 'i frame =
  fr_authorize :: "jdict \<times> 'i \<Rightarrow> (idp_exn + response) \<times> jdict \<times> 'i"
  fr_token :: "jdict \<times> 'i \<Rightarrow> (idp_exn + jdict) \<times> jdict \<times> 'i"
  fr_metadata :: "jdict \<times> 'i \<Rightarrow> (idp_exn + jdict) \<times> jdict \<times> 'i"
  fr_render :: "string \<Rightarrow> jdict \<Rightarrow> aexn + string"
  fr_framework :: "string \<Rightarrow> string \<Rightarrow> response"
  fr_show :: "answer \<Rightarrow> string"

definition beside :: "(jdict \<times> 'i \<Rightarrow> 'r \<times> jdict \<times> 'i) \<Rightarrow> jdict \<times> 'd \<times> 'i \<Rightarrow> 'r \<times> jdict \<times> 'd \<times> 'i" where
  "beside f s = (case f (fst s, snd (snd s)) of (r, session, i) \<Rightarrow> (r, session, fst (snd s), i))"

definition api :: "('x, 'p, 'l) surroundings \<Rightarrow> bodies \<Rightarrow> 'i frame \<Rightarrow> string \<Rightarrow> string \<Rightarrow>
    (json \<Rightarrow> ('x, 'p, 'l) device \<times> 'i \<Rightarrow> (aexn + nat \<times> string) \<times> ('x, 'p, 'l) device \<times> 'i) option" where
  "api rq b fr meth path = (case endpoint meth path of
     None \<Rightarrow> None
   | Some e \<Rightarrow> if malformed b e then None
       else Some (\<lambda>user w. case run_endpoint rq b e user (fst w) of
         (Inl x, d) \<Rightarrow> (Inl x, d, snd w)
       | (Inr (st, a), d) \<Rightarrow> (Inr (st, fr_show fr a), d, snd w)))"

definition device_site :: "('x, 'p, 'l) surroundings \<Rightarrow> bodies \<Rightarrow> 'i frame \<Rightarrow> (('x, 'p, 'l) device \<times> 'i) site" where
  "device_site rq b fr =
     \<lparr>si_authorize = beside (fr_authorize fr), si_token = beside (fr_token fr),
      si_metadata = beside (fr_metadata fr), si_render = fr_render fr,
      si_api = api rq b fr, si_framework = fr_framework fr\<rparr>"

record ('x, 'p, 'l) http =
  ht_method :: string
  ht_path :: string
  ht_bodies :: bodies
  ht_session :: jdict              \<comment> \<open>what the session cookie of the request holds\<close>
  ht_around :: "('x, 'p, 'l) surroundings"

definition answer_request :: "'i frame \<Rightarrow> ('x, 'p, 'l) http \<Rightarrow> ('x, 'p, 'l) device \<times> 'i \<Rightarrow>
    response \<times> jdict \<times> ('x, 'p, 'l) device \<times> 'i" where
  "answer_request fr q w =
     serve (device_site (ht_around q) (ht_bodies q) fr) (ht_method q) (ht_path q) (ht_session q, w)"

definition answer_all :: "'i frame \<Rightarrow> ('x, 'p, 'l) http list \<Rightarrow> ('x, 'p, 'l) device \<times> 'i \<Rightarrow> ('x, 'p, 'l) device \<times> 'i" where
  "answer_all fr qs w = fold (\<lambda>q w. snd (snd (answer_request fr q w))) qs w"

section \<open>Requests without a user\<close>

lemma serve_state: "snd (serve si meth path s) = (let s' = snd (route si meth path s) in
    case fst (route si meth path s) of Inl e \<Rightarrow> (case exception_response e of Inr _ \<Rightarrow> s' | Inl _ \<Rightarrow> (fst s, snd s'))
      | Inr _ \<Rightarrow> s')"
  by (auto simp: serve_def Let_def split: prod.split sum.split)

lemma serve_world: "snd (snd (serve si meth path s)) = snd (snd (route si meth path s))"
  by (simp add: serve_state Let_def split: sum.split)

lemma beside_device [simp]: "fst (snd (snd (beside f s))) = fst (snd s)"
  by (simp add: beside_def split: prod.split)

lemma page_state [simp]: "snd (page r s) = s"
  by (simp add: page_def)

lemma beside_result: "beside g s = (r, session, d, i) \<Longrightarrow> d = fst (snd s)"
  using beside_device [of g s] by simp

lemma auth_device:
  "fst (snd (snd (login (device_site rq b fr) s))) = fst (snd s)"
  "fst (snd (snd (callback (device_site rq b fr) s))) = fst (snd s)"
  "fst (snd (snd (logout (device_site rq b fr) s))) = fst (snd s)"
  by (auto simp: login_def callback_def logout_def device_site_def Let_def
      split: prod.split sum.split json.split idp_exn.split dest: beside_result)

lemma user_page_state: "snd (user_page si name s) = s"
  by (auto simp: user_page_def bindm_def current_user_def page_def)

lemma auth_no_endpoint:
  "endpoint meth ''/auth/login'' = None" "endpoint meth ''/auth/callback'' = None"
  "endpoint meth ''/auth/logout'' = None"
  by (simp_all add: endpoint_def endpoint_tables tunnels_prefix_def)

text \<open>The device changes only where an endpoint of the API runs for a user.\<close>

lemma route_device:
  "fst (snd (snd (route (device_site rq b fr) meth path s))) =
    (case endpoint meth path of
       Some e \<Rightarrow> if truthy (jget (fst s) ''user'') \<and> \<not> malformed b e \<and> path \<notin> set auth_paths \<and>
           (meth = ''GET'' \<longrightarrow> map_of pages path = None)
         then snd (run_endpoint rq b e (jget (fst s) ''user'') (fst (snd s))) else fst (snd s)
     | None \<Rightarrow> fst (snd s))"
proof (cases "path \<in> set auth_paths")
  case True
  let ?si = "device_site rq b fr"
  have e: "endpoint m path = None" for m
    using True auth_no_endpoint by (auto simp: auth_paths_def)
  then have "si_api ?si m path = None" for m by (simp add: device_site_def api_def)
  moreover have "map_of pages path = None" using True by (auto simp: auth_paths_def pages_def)
  ultimately have "route ?si meth path s = (if meth = ''GET'' \<and> path = ''/auth/login'' then login ?si s
      else if meth = ''GET'' \<and> path = ''/auth/callback'' then callback ?si s
      else if meth = ''GET'' \<and> path = ''/auth/logout'' then logout ?si s
      else (Inr (si_framework ?si meth path), s))"
    by (simp add: route_def ret_def)
  then have "fst (snd (snd (route ?si meth path s))) = fst (snd s)"
    by (auto simp only: auth_device split: if_split) (simp_all add: auth_device)
  then show ?thesis by (simp add: e)
next
  case False
  have api: "snd (api_route (\<lambda>user w. case run_endpoint rq b e user (fst w) of (Inl x, d) \<Rightarrow> (Inl x, d, snd w)
       | (Inr (st, a), d) \<Rightarrow> (Inr (st, fr_show fr a), d, snd w)) s) =
     (fst s, if truthy (jget (fst s) ''user'') then snd (run_endpoint rq b e (jget (fst s) ''user'') (fst (snd s)))
        else fst (snd s), snd (snd s))" for e
    by (auto simp: api_route_def bindm_def current_user_def split: prod.split sum.split)
  show ?thesis
    unfolding route_protected [OF False] using False
    by (auto simp: user_page_state device_site_def api_def api ret_def split: option.split)
qed

text \<open>A concrete installation: the helper of \<open>key_env\<close>, programs that succeed, one interface.\<close>

definition calm_around :: "(unit, unit, unit) surroundings" where
  "calm_around = \<lparr>rq_wg = web_env, rq_exec = (\<lambda>_ w. (Some (0, []), w)),
     rq_netlink = \<lparr>nl_get_routes = (\<lambda>_. ret []), nl_get_links = (\<lambda>_. ret []),
       nl_link_lookup = (\<lambda>_. ret []), nl_route = (\<lambda>_. ret ())\<rparr>,
     rq_if_stats = [],
     rq_stats = \<lparr>se_now = 0, se_counters = [], se_mem_percent = 0, se_disk_percent = 0,
       se_cpu_percent = 0, se_procs = \<lparr>pe_live = [], pe_opens = (\<lambda>_. False), pe_reads = (\<lambda>_. None)\<rparr>,
       se_zones = [], se_uptime = None, se_alert = NoFile\<rparr>,
     rq_alert_denied = False\<rparr>"

definition no_bodies :: bodies where
  "no_bodies = \<lparr>bd_net = Invalid, bd_wifi = Invalid, bd_route = Invalid, bd_route_delete = Invalid,
     bd_table = Body None, bd_tunnel = Invalid, bd_state = Invalid, bd_peer = Invalid\<rparr>"

definition calm_device :: "(unit, unit, unit) device" where
  "calm_device = \<lparr>dv_wg = web_start, dv_programs = (), dv_kernel = (),
     dv_monitor = \<lparr>ms_rates = \<lparr>nr_counters = [], nr_time = 0\<rparr>, ms_procs = [], ms_downtime = PNone\<rparr>,
     dv_alert = NoFile\<rparr>"

definition calm_frame :: "unit frame" where
  "calm_frame = \<lparr>fr_authorize = (\<lambda>s. (Inr (redirect ''https://sso.example/authorize''), s)),
     fr_token = (\<lambda>s. (Inr [], s)), fr_metadata = (\<lambda>s. (Inr [], s)), fr_render = (\<lambda>name _. Inr name),
     fr_framework = (\<lambda>_ _. server_error), fr_show = (\<lambda>_. [])\<rparr>"

definition request :: "string \<Rightarrow> string \<Rightarrow> bodies \<Rightarrow> jdict \<Rightarrow> (unit, unit, unit) http" where
  "request meth path b session = \<lparr>ht_method = meth, ht_path = path, ht_bodies = b,
     ht_session = session, ht_around = calm_around\<rparr>"

text \<open>C13: nothing on the device without signing in: whatever requests arrive, in whatever number and
  order, as long as none of them comes with a session that has a user, the device is left as it
  was: its configuration, its routes, its services, its metadata and the record of its monitor;
  the sign-in routes included.\<close>

theorem strangers_change_nothing:
  assumes "\<forall>q\<in>set qs. \<not> truthy (jget (ht_session q) ''user'')"
  shows "fst (answer_all fr qs w) = fst w"
  using assms
proof (induction qs arbitrary: w)
  case Nil
  then show ?case by (simp add: answer_all_def)
next
  case (Cons q qs)
  have "fst (snd (snd (answer_request fr q w))) = fst w"
    using Cons.prems by (simp add: answer_request_def serve_world route_device split: option.split)
  then show ?case using Cons by (simp add: answer_all_def)
qed

theorem strangers_change_nothing_witness:
  "fst (answer_all calm_frame [request ''POST'' ''/api/system/reboot'' no_bodies [],
     request ''GET'' ''/auth/callback'' no_bodies []] (calm_device, ())) = calm_device"
  using strangers_change_nothing [of "[request ''POST'' ''/api/system/reboot'' no_bodies [],
     request ''GET'' ''/auth/callback'' no_bodies []]" calm_frame "(calm_device, ())"]
  by (simp add: request_def jget_def)

section \<open>Requests with a user\<close>

definition bodies_ok :: "bodies \<Rightarrow> bool" where
  \<comment> \<open>what the request models promise of a body they accept\<close>
  "bodies_ok b \<longleftrightarrow> (\<forall>p. bd_tunnel b = Body p \<longrightarrow> tunnel_create_ok p) \<and>
     (\<forall>p. bd_peer b = Body p \<longrightarrow> peer_create_ok p) \<and> (\<forall>p. bd_state b = Body p \<longrightarrow> tunnel_state_ok p)"

definition genuine :: "('x, 'p, 'l) http \<Rightarrow> bool" where
  \<comment> \<open>accepted bodies are valid, and the helper's socket leads to the helper, whose system calls work\<close>
  "genuine q \<longleftrightarrow> bodies_ok (ht_bodies q) \<and> (\<exists>henv uid. deployed henv uid (rq_wg (ht_around q)))"

definition keeps_wg :: "('x, 'p, 'l) device \<Rightarrow> ('x, 'p, 'l) device \<Rightarrow> bool" where
  "keeps_wg d d' \<longleftrightarrow> (device_ok (dv_wg d) \<longrightarrow> device_ok (dv_wg d'))"

interpretation wg: frame_rel keeps_wg
  by unfold_locales (auto simp: keeps_wg_def)

lemma wg_parts:
  "keeps keeps_wg (on_programs m)" "keeps keeps_wg (on_kernel m')" "keeps keeps_wg (on_monitor m'')"
  "keeps keeps_wg (on_alert m3)"
  by (simp_all add: keeps_def keeps_wg_def on_programs_def on_kernel_def on_monitor_def on_alert_def split: prod.split)

lemma wg_handler: "keeps keeps_device m \<Longrightarrow> keeps keeps_wg (on_wg m)"
  by (auto simp: keeps_def keeps_wg_def keeps_device_def on_wg_def split: prod.split)

lemma wg_answer: "keeps keeps_wg m \<Longrightarrow> keeps keeps_wg (answer_as st f m)"
  unfolding answer_as_def by (intro wg.keeps_bind wg.keeps_ret)

lemma wg_body: "(\<And>p. r = Body p \<Longrightarrow> keeps keeps_wg (f p)) \<Longrightarrow> keeps keeps_wg (with_body r f)"
  by (simp add: with_body_def wg.keeps_raise split: reading.split)

lemma deployed_sub: "deployed henv uid env \<Longrightarrow> deployed henv uid (env\<lparr>we_sub := u\<rparr>)"
  by (simp add: deployed_def)

lemma endpoint_keeps_wg:
  assumes "bodies_ok b" and "deployed henv uid (rq_wg rq)"
  shows "keeps keeps_wg (run_endpoint rq b e user)"
proof -
  let ?env = "(rq_wg rq)\<lparr>we_sub := user_sub user\<rparr>"
  have d: "deployed henv uid ?env" using assms(2) by (rule deployed_sub)
  note handlers = system_create_tunnel [OF d] system_delete_tunnel [OF d] system_state [OF d]
    system_lists [OF d] system_delete_peer [OF d] system_create_peer [OF d]
  have stats: "keeps keeps_wg (\<lambda>d. answer_as 200 AStats (on_monitor (m d)) d)" for m
    using wg_answer [OF wg_parts(3)] unfolding keeps_def by blast
  show ?thesis
    using assms(1) unfolding run_endpoint_def Let_def bodies_ok_def
    by (cases e) (auto intro!: wg_body wg_answer wg_parts wg_handler handlers stats wg.keeps_ret)
qed

text \<open>C3: the device stays sound under any use: whatever sequence of requests is served, with whatever
  users, bodies, names in the URL, answers of \<open>wg\<close> and \<open>systemctl\<close>, and failures to save, the
  helper's files are the text of some map of sound tunnels, the metadata is consistent, and its
  keys are ones that the helper can look up.\<close>

theorem device_stays_sound:
  assumes "\<forall>q\<in>set qs. genuine q" and "device_ok (dv_wg (fst w))"
  shows "device_ok (dv_wg (fst (answer_all fr qs w)))"
  using assms
proof (induction qs arbitrary: w)
  case Nil
  then show ?case by (simp add: answer_all_def)
next
  case (Cons q qs)
  obtain henv uid where d: "bodies_ok (ht_bodies q)" "deployed henv uid (rq_wg (ht_around q))"
    using Cons.prems(1) by (auto simp: genuine_def)
  have "keeps_wg (fst w) (fst (snd (snd (answer_request fr q w))))"
    using endpoint_keeps_wg [OF d]
    by (auto simp: answer_request_def serve_world route_device keeps_def wg.frame_refl split: option.split)
  then have "device_ok (dv_wg (fst (snd (snd (answer_request fr q w)))))"
    using Cons.prems(2) by (simp add: keeps_wg_def)
  then show ?case using Cons by (simp add: answer_all_def)
qed

definition admin_session :: jdict where
  "admin_session = [(''user'', JObj [(''sub'', JStr ''admin'')])]"

theorem device_stays_sound_witness:
  "device_ok (dv_wg (fst (answer_all calm_frame
     [request ''POST'' ''/api/wireguard/tunnels'' (no_bodies\<lparr>bd_tunnel := Body payload_a\<rparr>) admin_session,
      request ''DELETE'' ''/api/wireguard/tunnels/wg0'' no_bodies admin_session] (calm_device, ()))))"
proof -
  have "deployed key_env 996 (rq_wg calm_around)"
    using key_never_fails by (simp add: deployed_def calm_around_def web_env_def)
  then have g: "genuine (request meth path b session)"
    if "b = no_bodies \<or> b = no_bodies\<lparr>bd_tunnel := Body payload_a\<rparr>" for meth path b session
    using that payload_a_ok by (auto simp: genuine_def request_def bodies_ok_def no_bodies_def)
  have "files_good empty_host"
    using represents_empty unfolding files_good_def by (auto simp: sound_def)
  then have "device_ok (dv_wg calm_device)"
    by (simp add: device_ok_def calm_device_def web_start_def)
  then show ?thesis by (intro device_stays_sound) (simp_all add: g)
qed

end
