(* ===== verification/Overlap.thy ===== *)
theory Overlap
  imports App
begin

text \<open>
  Requests to the WireGuard handlers of src/app/wireguard.py that overlap.  The application serves all
  requests on one thread: a handler runs undisturbed up to the call of the helper it awaits, and
  other handlers go on until the answer is there.  The handlers are written here once more, cut at
  these calls, and shown to be the handlers of \<open>WgApp\<close> when nothing else runs.

  A handler reads the metadata file, awaits the helper, and writes the file from what it read.
  \<open>WgAppProps\<close> shows what this loses; here is what it keeps.
\<close>

section \<open>Handlers as coroutines\<close>

datatype ('w, 'a) astage =
    Done "aexn + 'a"
  | Calls "('w, aexn, json) op" "aexn + json \<Rightarrow> 'w wgapp \<Rightarrow> ('w, 'a) astage \<times> 'w wgapp"

type_synonym ('w, 'a) aco = "'w wgapp \<Rightarrow> ('w, 'a) astage \<times> 'w wgapp"

definition async :: "('w, 'a) wop \<Rightarrow> ('w, 'a) aco" where
  \<comment> \<open>statements without an \<open>await\<close>\<close>
  "async m s = (case m s of (r, s') \<Rightarrow> (Done r, s'))"

definition acall :: "('w, aexn, json) op \<Rightarrow> ('w, json) aco" where
  "acall m s = (Calls m (\<lambda>r s'. (Done r, s')), s)"

primrec athen :: "('a \<Rightarrow> ('w, 'b) aco) \<Rightarrow> ('w, 'a) astage \<Rightarrow> ('w, 'b) aco" where
  "athen f (Done r) = (case r of Inl e \<Rightarrow> async (raise e) | Inr x \<Rightarrow> f x)"
| "athen f (Calls m k) = (\<lambda>s. (Calls m (\<lambda>r s'. case map_prod (athen f) id (k r s') of (g, s'') \<Rightarrow> g s''), s))"

definition abind :: "('w, 'a) aco \<Rightarrow> ('a \<Rightarrow> ('w, 'b) aco) \<Rightarrow> ('w, 'b) aco" where
  "abind m f s = (case m s of (st, s') \<Rightarrow> athen f st s')"

definition quietly :: "('w, aexn, unit) op \<Rightarrow> ('w, aexn, json) op" where
  \<comment> \<open>a call whose answer is not used\<close>
  "quietly m = bindm m (\<lambda>_. ret JNull)"

definition aco_list_tunnels :: "'w wgenv \<Rightarrow> ('w, json) aco" where
  "aco_list_tunnels env =
     abind (acall (client_tunnel_status (we_send env) None)) (\<lambda>status_result.
     async (bindm load_metadata (\<lambda>metadata.
     bindm (liftr (status_tunnels status_result)) (\<lambda>ts.
     bindm (liftr (as_iter ts)) (\<lambda>tunnels.
     bindm (liftr (map_sum (list_entry metadata) tunnels)) (\<lambda>entries.
     ret (JList entries)))))))"

definition aco_create_tunnel :: "'w wgenv \<Rightarrow> tunnel_create \<Rightarrow> ('w, json) aco" where
  "aco_create_tunnel env payload =
     abind (async (if tc_force payload then ret () else check_overlap env own_overlap [inet (tc_address payload)])) (\<lambda>_.
     abind (acall (client_genkey (we_send env))) (\<lambda>keypair.
     abind (async (liftr (jindex keypair ''private_key''))) (\<lambda>private_key.
     abind (acall (quietly (client_create_tunnel (we_send env) (tc_name payload) (str_iface (tc_address payload))
              (tc_listen_port payload) private_key))) (\<lambda>_.
     abind (async load_metadata) (\<lambda>metadata.
     abind (async (save_metadata env (AList.update (tc_name payload)
              \<lparr>tm_address = str_iface (tc_address payload), tm_endpoint = tc_endpoint payload,
               tm_listen_port = tc_listen_port payload, tm_peers = []\<rparr> metadata))) (\<lambda>_.
     async (bindm (liftr (jindex keypair ''public_key'')) (\<lambda>public_key.
     ret (JObj [(''name'', JStr (tc_name payload)), (''public_key'', public_key)])))))))))"

definition aco_delete_tunnel :: "'w wgenv \<Rightarrow> string \<Rightarrow> ('w, json) aco" where
  "aco_delete_tunnel env name =
     abind (acall (quietly (client_delete_tunnel (we_send env) name))) (\<lambda>_.
     abind (async load_metadata) (\<lambda>metadata.
     abind (async (save_metadata env (AList.delete name metadata))) (\<lambda>_.
     async (ret status_ok))))"

definition aco_set_tunnel_state :: "'w wgenv \<Rightarrow> string \<Rightarrow> tunnel_state \<Rightarrow> ('w, json) aco" where
  "aco_set_tunnel_state env name payload =
     abind (acall (client_tunnel_status (we_send env) (Some name))) (\<lambda>status_result.
     abind (async (bindm (liftr (status_tunnels status_result)) (\<lambda>live_tunnels.
       bindm (assertm (truthy live_tunnels) unknown_tunnel) (\<lambda>_.
       bindm (liftr (first_of live_tunnels)) (\<lambda>first.
       bindm (liftr (as_obj first)) (\<lambda>tunnel_info.
       if ts_action payload = ''activate'' \<and> \<not> ts_force payload
       then bindm (liftr (activation_candidates tunnel_info)) (check_overlap env activate_overlap)
       else ret ())))))) (\<lambda>_.
     abind (acall (quietly (client_set_tunnel_state (we_send env) name (ts_action payload)))) (\<lambda>_.
     async (ret status_ok))))"

definition aco_list_peers :: "'w wgenv \<Rightarrow> string \<Rightarrow> ('w, json) aco" where
  "aco_list_peers env name =
     abind (async load_metadata) (\<lambda>metadata.
     abind (async (liftr (case map_of metadata name of None \<Rightarrow> Inl unknown_tunnel | Some t \<Rightarrow> Inr t))) (\<lambda>tunnel_meta.
     abind (acall (client_tunnel_status (we_send env) (Some name))) (\<lambda>status_result.
     async (bindm (liftr (status_tunnels status_result)) (\<lambda>ts.
     bindm (liftr (as_iter ts)) (\<lambda>tunnels.
     bindm (liftr (map_sum live_keys tunnels)) (\<lambda>live.
     bindm (liftr (map_sum (peer_row (rev (concat live))) (tm_peers tunnel_meta))) (\<lambda>rows.
     ret (JList rows)))))))))"

definition aco_peer_keys :: "'w wgenv \<Rightarrow> peer_create \<Rightarrow> ('w, json \<times> json) aco" where
  \<comment> \<open>the key pair, and the pre-shared key if one is wanted\<close>
  "aco_peer_keys env payload =
     abind (acall (client_genkey (we_send env))) (\<lambda>keypair.
     if pc_preshared_key payload
     then abind (acall (client_genkey (we_send env))) (\<lambda>k.
       async (bindm (liftr (jindex k ''private_key'')) (\<lambda>psk. ret (keypair, psk))))
     else async (ret (keypair, JNull)))"

definition aco_create_peer :: "'w wgenv \<Rightarrow> string \<Rightarrow> peer_create \<Rightarrow> ('w, peer_response) aco" where
  "aco_create_peer env name payload =
     abind (async load_metadata) (\<lambda>metadata.
     abind (async (liftr (case map_of metadata name of None \<Rightarrow> Inl unknown_tunnel | Some t \<Rightarrow> Inr t))) (\<lambda>tunnel_meta.
     abind (acall (client_tunnel_status (we_send env) (Some name))) (\<lambda>status_result.
     abind (async (bindm (liftr (status_tunnels status_result)) (\<lambda>live_tunnels.
       bindm (liftr (server_key_of live_tunnels)) (\<lambda>server_public_key.
       bindm (assertm (truthy server_public_key) not_active) (\<lambda>_.
       ret server_public_key))))) (\<lambda>server_public_key.
     abind (async (liftr (allocate_peer_address tunnel_meta))) (\<lambda>peer_address.
     abind (aco_peer_keys env payload) (\<lambda>(keypair, psk).
     abind (async (liftr (jindex keypair ''public_key''))) (\<lambda>public_key.
     abind (acall (quietly (client_add_peer (we_send env) name public_key [peer_address] psk (pc_keepalive payload)))) (\<lambda>_.
     let ks = \<lparr>pk_address = peer_address, pk_keypair = keypair, pk_psk = psk\<rparr>
     in abind (async (peer_store env name payload metadata tunnel_meta ks)) (\<lambda>_.
     async (peer_reply payload tunnel_meta server_public_key ks))))))))))"

definition aco_delete_peer :: "'w wgenv \<Rightarrow> string \<Rightarrow> string \<Rightarrow> ('w, json) aco" where
  "aco_delete_peer env name peer_id =
     abind (async load_metadata) (\<lambda>metadata.
     abind (async (liftr (case map_of metadata name of None \<Rightarrow> Inl unknown_tunnel | Some t \<Rightarrow> Inr t))) (\<lambda>tunnel_meta.
     abind (async (liftr (case find (\<lambda>p. pm_id p = peer_id) (tm_peers tunnel_meta) of
              None \<Rightarrow> Inl (HTTPExc 404 ''Unknown peer'') | Some p \<Rightarrow> Inr p))) (\<lambda>peer.
     abind (acall (quietly (client_remove_peer (we_send env) name (pm_public_key peer)))) (\<lambda>_.
     abind (async (save_metadata env (AList.update name
              (tunnel_meta\<lparr>tm_peers := filter (\<lambda>p. pm_id p \<noteq> peer_id) (tm_peers tunnel_meta)\<rparr>) metadata))) (\<lambda>_.
     async (ret status_ok))))))"

definition aco_status_snapshot :: "'w wgenv \<Rightarrow> ('w, json) aco" where
  "aco_status_snapshot env = acall (client_tunnel_status (we_send env) None)"

section \<open>A handler on its own\<close>

primrec afinish :: "('w, 'a) astage \<Rightarrow> ('w, 'a) wop" where
  "afinish (Done r) = (\<lambda>s. (r, s))"
| "afinish (Calls m k) = (\<lambda>s. case on_world m s of (r, s1) \<Rightarrow>
     (case map_prod afinish id (k r s1) of (g, s2) \<Rightarrow> g s2))"

definition undisturbed :: "('w, 'a) aco \<Rightarrow> ('w, 'a) wop" where
  "undisturbed m s = (case m s of (st, s') \<Rightarrow> afinish st s')"

lemma undisturbed_async [simp]: "undisturbed (async m) = m"
  by (simp add: fun_eq_iff undisturbed_def async_def split: prod.split)

lemma undisturbed_call [simp]: "undisturbed (acall m) = on_world m"
  by (simp add: fun_eq_iff undisturbed_def acall_def split: prod.split)

lemma undisturbed_athen:
  "undisturbed (athen f st) s = (case afinish st s of (Inl e, s') \<Rightarrow> (Inl e, s') | (Inr x, s') \<Rightarrow> undisturbed (f x) s')"
proof (induction st arbitrary: s)
  case (Done r)
  then show ?case by (simp add: raise_def split: sum.split)
next
  case (Calls m k)
  obtain r s1 where r: "on_world m s = (r, s1)" by (meson surj_pair)
  obtain st s2 where st: "k r s1 = (st, s2)" by (meson surj_pair)
  have "undisturbed (athen f st) s2 =
      (case afinish st s2 of (Inl e, s') \<Rightarrow> (Inl e, s') | (Inr x, s') \<Rightarrow> undisturbed (f x) s')"
    by (rule Calls [of "k r" "(st, s2)" st]) (auto simp: st intro: rangeI [of "k r" s1, unfolded st] fsts.intros)
  then show ?case using r st by (simp add: undisturbed_def split: prod.splits)
qed

lemma undisturbed_abind [simp]: "undisturbed (abind m f) = bindm (undisturbed m) (\<lambda>x. undisturbed (f x))"
proof
  fix s
  obtain st s' where m: "m s = (st, s')" by (meson surj_pair)
  have "undisturbed (abind m f) s = undisturbed (athen f st) s'"
    by (simp add: undisturbed_def abind_def m)
  then show "undisturbed (abind m f) s = bindm (undisturbed m) (\<lambda>x. undisturbed (f x)) s"
    by (auto simp: undisturbed_athen bindm_def undisturbed_def [of m] m split: prod.split sum.split)
qed

lemma undisturbed_if [simp]: "undisturbed (if b then m else m') = (if b then undisturbed m else undisturbed m')"
  by simp

lemma quietly_bind [simp]: "bindm (on_world (quietly m)) (\<lambda>_. f) = bindm (on_world m) (\<lambda>_. f)"
  by (auto simp: fun_eq_iff quietly_def on_world_def bindm_def ret_def split: prod.split sum.split)

lemmas aco_defs = aco_list_tunnels_def aco_create_tunnel_def aco_delete_tunnel_def aco_set_tunnel_state_def
  aco_list_peers_def aco_create_peer_def aco_peer_keys_def aco_delete_peer_def aco_status_snapshot_def

lemma undisturbed_handlers:
  "undisturbed (aco_list_tunnels env) = list_tunnels env"
  "undisturbed (aco_create_tunnel env tc) = create_tunnel env tc"
  "undisturbed (aco_delete_tunnel env name) = delete_tunnel env name"
  "undisturbed (aco_set_tunnel_state env name ts) = set_tunnel_state env name ts"
  "undisturbed (aco_list_peers env name) = list_peers env name"
  "undisturbed (aco_delete_peer env name peer_id) = delete_peer env name peer_id"
  "undisturbed (aco_status_snapshot env) = status_snapshot env"
  by (simp_all add: aco_defs list_tunnels_def create_tunnel_def delete_tunnel_def set_tunnel_state_def
      list_peers_def delete_peer_def status_snapshot_def bindm_assoc)

lemma undisturbed_create_peer: "undisturbed (aco_create_peer env name payload) = create_peer env name payload"
  by (simp add: aco_create_peer_def aco_peer_keys_def create_peer_def peer_begin_def peer_add_def bindm_assoc
      split_def Let_def)

section \<open>Requests at the same time\<close>

datatype wg_request =
    WList | WCreate tunnel_create | WDelete string | WState string tunnel_state
  | WPeers string | WCreatePeer string peer_create | WDeletePeer string string | WStatus

definition amap :: "('a \<Rightarrow> 'b) \<Rightarrow> ('w, 'a) aco \<Rightarrow> ('w, 'b) aco" where
  "amap f m = abind m (\<lambda>x. async (ret (f x)))"

definition aco_of :: "'w wgenv \<Rightarrow> wg_request \<Rightarrow> ('w, answer) aco" where
  "aco_of env q = (case q of
     WList \<Rightarrow> amap AJson (aco_list_tunnels env)
   | WCreate p \<Rightarrow> amap AJson (aco_create_tunnel env p)
   | WDelete name \<Rightarrow> amap AJson (aco_delete_tunnel env name)
   | WState name p \<Rightarrow> amap AJson (aco_set_tunnel_state env name p)
   | WPeers name \<Rightarrow> amap AJson (aco_list_peers env name)
   | WCreatePeer name p \<Rightarrow> amap APeerFile (aco_create_peer env name p)
   | WDeletePeer name peer_id \<Rightarrow> amap AJson (aco_delete_peer env name peer_id)
   | WStatus \<Rightarrow> amap AJson (aco_status_snapshot env))"

datatype 'w ajob =
    AWaiting "('w, aexn, json) op" "aexn + json \<Rightarrow> 'w wgapp \<Rightarrow> ('w, answer) astage \<times> 'w wgapp"
  | AResumable "aexn + json" "aexn + json \<Rightarrow> 'w wgapp \<Rightarrow> ('w, answer) astage \<times> 'w wgapp"
  | AAnswered "aexn + answer"

record 'w aserving =
  av_app :: "'w wgapp"
  av_jobs :: "'w ajob list"

datatype 'w asched =
    AArrive "'w wgenv" wg_request  \<comment> \<open>an authorised request, and what its handler sees of its surroundings\<close>
  | AEnds nat                      \<comment> \<open>the helper does what the job waits for\<close>
  | AResume nat                    \<comment> \<open>the handler goes on to its next call or its answer\<close>

definition ajob_of :: "('w, answer) astage \<Rightarrow> 'w ajob" where
  "ajob_of st = (case st of Done r \<Rightarrow> AAnswered r | Calls m k \<Rightarrow> AWaiting m k)"

fun asched_step :: "'w asched \<Rightarrow> 'w aserving \<Rightarrow> 'w aserving" where
  "asched_step (AArrive env q) d = (case aco_of env q (av_app d) of
     (st, s) \<Rightarrow> \<lparr>av_app = s, av_jobs = av_jobs d @ [ajob_of st]\<rparr>)"
| "asched_step (AEnds i) d =
     (if i < length (av_jobs d)
      then (case av_jobs d ! i of
          AWaiting m k \<Rightarrow> (case on_world m (av_app d) of
            (r, s) \<Rightarrow> \<lparr>av_app = s, av_jobs = (av_jobs d)[i := AResumable r k]\<rparr>)
        | _ \<Rightarrow> d)
      else d)"
| "asched_step (AResume i) d =
     (if i < length (av_jobs d)
      then (case av_jobs d ! i of
          AResumable r k \<Rightarrow> (case k r (av_app d) of
            (st, s) \<Rightarrow> \<lparr>av_app = s, av_jobs = (av_jobs d)[i := ajob_of st]\<rparr>)
        | _ \<Rightarrow> d)
      else d)"

definition aschedule :: "'w asched list \<Rightarrow> 'w wgapp \<Rightarrow> 'w aserving" where
  "aschedule evs s = fold asched_step evs \<lparr>av_app = s, av_jobs = []\<rparr>"

section \<open>What a handler keeps at each of its stages\<close>

text \<open>
  A stage is steady if the call it waits for keeps the device sound and, from whatever sound state
  the handler finds when it goes on, it leaves a sound state at its next call or its end and is
  steady there.
\<close>

inductive steady :: "('x host, 'a) astage \<Rightarrow> bool" where
  steady_Done: "steady (Done r)"
| steady_Calls: "keeps keeps_device (on_world m) \<Longrightarrow>
    (\<And>w s. device_ok s \<Longrightarrow> device_ok (snd (k (fst (m w)) s))) \<Longrightarrow>
    (\<And>w s. device_ok s \<Longrightarrow> steady (fst (k (fst (m w)) s))) \<Longrightarrow> steady (Calls m k)"

inductive_cases steady_CallsE: "steady (Calls m k)"

definition steady_co :: "('x host, 'a) aco \<Rightarrow> bool" where
  "steady_co c \<longleftrightarrow> (\<forall>s. device_ok s \<longrightarrow> device_ok (snd (c s)) \<and> steady (fst (c s)))"

lemma steady_async: "keeps keeps_device m \<Longrightarrow> steady_co (async m)"
  by (auto simp: steady_co_def async_def keeps_def keeps_device_def intro: steady_Done split: prod.split)

lemma steady_async_bind:
  assumes "keeps keeps_device m" and "\<And>x s. device_ok s \<Longrightarrow> fst (m s) = Inr x \<Longrightarrow> steady_co (f x)"
  shows "steady_co (abind (async m) f)"
  unfolding steady_co_def
proof (intro allI impI)
  fix s :: "'a host wgapp"
  assume s: "device_ok s"
  obtain r s' where m: "m s = (r, s')" by (meson surj_pair)
  have s': "device_ok s'" using assms(1) s m unfolding keeps_def keeps_device_def by (metis snd_conv)
  show "device_ok (snd (abind (async m) f s)) \<and> steady (fst (abind (async m) f s))"
  proof (cases r)
    case (Inl e)
    then show ?thesis using s' m by (simp add: abind_def async_def raise_def steady_Done)
  next
    case (Inr x)
    then show ?thesis
      using assms(2) [OF s, of x] s' m by (simp add: abind_def async_def steady_co_def)
  qed
qed

lemma steady_call_bind:
  assumes "keeps keeps_device (on_world m)" and "\<And>x w. fst (m w) = Inr x \<Longrightarrow> steady_co (f x)"
  shows "steady_co (abind (acall m) f)"
proof -
  let ?k = "\<lambda>r s'. case map_prod (athen f) id (Done r, s') of (g, s'') \<Rightarrow> g s''"
  have "device_ok (snd (?k (fst (m w)) s)) \<and> steady (fst (?k (fst (m w)) s))" if "device_ok s" for w s
  proof (cases "fst (m w)")
    case (Inl e)
    then show ?thesis using that by (simp add: async_def raise_def steady_Done)
  next
    case (Inr x)
    then show ?thesis using assms(2) that by (simp add: steady_co_def)
  qed
  then have "steady (Calls m ?k)" by (intro steady_Calls assms(1)) simp_all
  then show ?thesis by (simp add: steady_co_def abind_def acall_def)
qed

lemma steady_call: "keeps keeps_device (on_world m) \<Longrightarrow> steady_co (acall m)"
  by (auto simp: steady_co_def acall_def intro!: steady_Calls steady_Done)

lemma athen_assoc: "(case athen f st s of (st', s') \<Rightarrow> athen g st' s') = athen (\<lambda>x. abind (f x) g) st s"
proof (induction st arbitrary: s)
  case (Done r)
  then show ?case by (auto simp: abind_def async_def raise_def split: sum.split)
next
  case (Calls m k)
  have "(case map_prod (athen g) id (case map_prod (athen f) id (k r s') of (g, s'') \<Rightarrow> g s'') of (h, s'') \<Rightarrow> h s'') =
      (case map_prod (athen (\<lambda>x. abind (f x) g)) id (k r s') of (h, s'') \<Rightarrow> h s'')" for r s'
  proof -
    obtain st s2 where st: "k r s' = (st, s2)" by (meson surj_pair)
    have "(case athen f st s2 of (st', s') \<Rightarrow> athen g st' s') = athen (\<lambda>x. abind (f x) g) st s2"
      by (rule Calls [of "k r" "(st, s2)" st]) (auto simp: st intro: rangeI [of "k r" s', unfolded st] fsts.intros)
    then show ?thesis using st by (simp add: map_prod_def split: prod.splits)
  qed
  then show ?case by simp
qed

lemma abind_assoc: "abind (abind m f) g = abind m (\<lambda>x. abind (f x) g)"
  by (rule ext) (simp add: abind_def [of m] abind_def [of "abind m f"] athen_assoc split: prod.split)

lemma abind_ret: "abind (async (ret x)) f = f x"
  by (simp add: fun_eq_iff abind_def async_def ret_def)

lemma steady_load_bind:
  "(\<And>m. meta_ok m \<Longrightarrow> tidy_keys m \<Longrightarrow> steady_co (f m)) \<Longrightarrow> steady_co (abind (async load_metadata) f)"
proof (rule steady_async_bind)
  show "keeps keeps_device load_metadata"
    by (simp add: keeps_def keeps_device_def load_metadata_def)
  fix x :: metadata and s :: "'a host wgapp"
  assume f: "\<And>m. meta_ok m \<Longrightarrow> tidy_keys m \<Longrightarrow> steady_co (f m)"
  assume "device_ok s" "fst (load_metadata s) = Inr x"
  then have "meta_ok x" "tidy_keys x"
    by (auto simp: load_metadata_def device_ok_def meta_ok_def tidy_keys_def split: meta_file.splits)
  then show "steady_co (f x)" by (rule f)
qed

lemma steady_lift_bind: "(\<And>x. r = Inr x \<Longrightarrow> steady_co (f x)) \<Longrightarrow> steady_co (abind (async (liftr r)) f)"
  by (rule steady_async_bind) (auto simp: device.keeps_lift liftr_def)

lemma steady_then: "keeps keeps_device m \<Longrightarrow> (\<And>x. steady_co (f x)) \<Longrightarrow> steady_co (abind (async m) f)"
  by (rule steady_async_bind)

lemma steady_call_then:
  "keeps keeps_device (on_world m) \<Longrightarrow> (\<And>x. steady_co (f x)) \<Longrightarrow> steady_co (abind (acall m) f)"
  by (rule steady_call_bind)

lemma steady_genkey_bind:
  assumes "deployed henv uid env" and "\<And>v. tidy_pair v \<Longrightarrow> steady_co (f v)"
  shows "steady_co (abind (acall (client_genkey (we_send env))) f)"
proof (rule steady_call_bind [OF device_quiet(1) [OF assms(1)]])
  fix x w assume r: "fst (client_genkey (we_send env) w) = Inr x"
  have "on_world (client_genkey (we_send env)) (\<lparr>wa_meta = NoMeta, wa_tick = 0, wa_world = w\<rparr>) =
      (Inr x, \<lparr>wa_meta = NoMeta, wa_tick = 0, wa_world = snd (client_genkey (we_send env) w)\<rparr>)"
    using r by (cases "client_genkey (we_send env) w") (simp add: on_world_def)
  from genkey_tidy [OF assms(1) this] show "steady_co (f x)" by (rule assms(2))
qed

lemma snd_on_world: "snd (on_world m s) = s\<lparr>wa_world := snd (m (wa_world s))\<rparr>"
  by (simp add: on_world_def split: prod.split)

lemma keeps_quietly: "keeps keeps_device (on_world m) \<Longrightarrow> keeps keeps_device (on_world (quietly m))"
  by (simp add: keeps_def snd_on_world quietly_def snd_bind_ret)

lemma steady_if: "steady_co a \<Longrightarrow> steady_co b \<Longrightarrow> steady_co (if c then a else b)"
  by simp

lemmas steady_rules = steady_load_bind steady_lift_bind steady_then steady_call_then steady_async
  keeps_quietly device.keeps_basic device_overlap

lemma steady_lists:
  assumes "deployed henv uid env"
  shows "steady_co (aco_list_tunnels env)" and "steady_co (aco_list_peers env name)"
    and "steady_co (aco_status_snapshot env)"
  unfolding aco_list_tunnels_def aco_list_peers_def aco_status_snapshot_def
  by (intro steady_rules steady_call device_rules device_quiet [OF assms])+

lemma steady_delete_tunnel: "deployed henv uid env \<Longrightarrow> steady_co (aco_delete_tunnel env name)"
  unfolding aco_delete_tunnel_def
  by (intro steady_rules device_delete device_save meta_ok_delete tidy_delete)

lemma steady_set_state: "deployed henv uid env \<Longrightarrow> steady_co (aco_set_tunnel_state env name p)"
  unfolding aco_set_tunnel_state_def
  by (intro steady_rules device_quiet device_rules) (auto intro!: device_rules)

lemma steady_delete_peer: "deployed henv uid env \<Longrightarrow> steady_co (aco_delete_peer env name peer_id)"
  unfolding aco_delete_peer_def
  by (intro steady_rules device_remove device_delete_peer) (auto intro: found_peer_tidy split: option.splits)

lemma steady_create_tunnel:
  assumes "deployed henv uid env" and "tunnel_create_ok p"
  shows "steady_co (aco_create_tunnel env p)"
  using new_tunnel_ok [OF assms(2)]
  unfolding aco_create_tunnel_def
  by (intro steady_genkey_bind [OF assms(1)] steady_rules device_create [OF assms] device_save meta_ok_update
      tidy_update) (auto simp: tidy_pair_def intro: device_rules)

lemma steady_create_peer:
  assumes "deployed henv uid env" and "peer_create_ok payload"
  shows "steady_co (aco_create_peer env name payload)"
proof -
  have keys: "steady_co (abind (aco_peer_keys env payload) f)"
    if "\<And>v psk. tidy_pair v \<Longrightarrow> psk = JNull \<or> tidy_key psk \<Longrightarrow> steady_co (f (v, psk))"
    for f :: "json \<times> json \<Rightarrow> ('a host, 'c) aco"
    unfolding aco_peer_keys_def abind_assoc
    using that
    by (auto intro!: steady_genkey_bind [OF assms(1)] steady_async_bind device_rules
        simp: abind_assoc abind_ret liftr_bind ret_def tidy_pair_def split: sum.splits)
  show ?thesis
    unfolding aco_create_peer_def Let_def
    by (intro steady_load_bind steady_lift_bind steady_call_then device_quiet [OF assms(1)] steady_then keys)
      (auto intro!: steady_rules device_rules device_peer_add [OF assms] device_peer_store device_peer_reply
        simp: tidy_pair_def dest: meta_ok_lookup split: option.splits)
qed

definition wg_request_ok :: "wg_request \<Rightarrow> bool" where
  \<comment> \<open>the bodies are ones that the models accept\<close>
  "wg_request_ok q = (case q of WCreate p \<Rightarrow> tunnel_create_ok p | WState _ p \<Rightarrow> tunnel_state_ok p
     | WCreatePeer _ p \<Rightarrow> peer_create_ok p | _ \<Rightarrow> True)"

lemma steady_athen:
  assumes "steady st" and "\<And>x. steady_co (f x)" and "device_ok s"
  shows "device_ok (snd (athen f st s)) \<and> steady (fst (athen f st s))"
  using assms(1,3)
proof (induction st arbitrary: s rule: steady.induct)
  case (steady_Done r)
  then show ?case using assms(2) by (cases r) (auto simp: steady_co_def async_def raise_def steady.steady_Done)
next
  case (steady_Calls m k)
  let ?k = "\<lambda>r s'. case map_prod (athen f) id (k r s') of (g, s'') \<Rightarrow> g s''"
  have "device_ok (snd (?k (fst (m w)) s')) \<and> steady (fst (?k (fst (m w)) s'))" if "device_ok s'" for w s'
    using steady_Calls.hyps(2) [OF that, where w = w] steady_Calls.IH [OF that _, where w = w]
    by (cases "k (fst (m w)) s'") simp
  then have "steady (Calls m ?k)" using steady_Calls.hyps(1) by (intro steady.steady_Calls) simp_all
  then show ?case using steady_Calls.prems by simp
qed

lemma steady_amap: "steady_co m \<Longrightarrow> steady_co (amap f m)"
proof -
  assume m: "steady_co m"
  have r: "steady_co (async (ret (f x)))" for x by (rule steady_async) (rule device.keeps_ret)
  show ?thesis
    unfolding steady_co_def
  proof (intro allI impI)
    fix s :: "'a host wgapp"
    assume "device_ok s"
    then have "device_ok (snd (m s))" "steady (fst (m s))" using m by (simp_all add: steady_co_def)
    from steady_athen [OF this(2) r this(1)]
    show "device_ok (snd (amap f m s)) \<and> steady (fst (amap f m s))"
      by (simp add: amap_def abind_def split_def)
  qed
qed

lemma steady_request:
  "deployed henv uid env \<Longrightarrow> wg_request_ok q \<Longrightarrow> steady_co (aco_of env q)"
  by (cases q) (simp_all add: aco_of_def wg_request_ok_def steady_amap steady_lists steady_create_tunnel
      steady_delete_tunnel steady_set_state steady_create_peer steady_delete_peer)

section \<open>The pool\<close>

fun ajob_steady :: "'x host ajob \<Rightarrow> bool" where
  "ajob_steady (AAnswered r) = True"
| "ajob_steady (AWaiting m k) = steady (Calls m k)"
| "ajob_steady (AResumable r k) = (\<forall>s. device_ok s \<longrightarrow> device_ok (snd (k r s)) \<and> steady (fst (k r s)))"

definition aserving_ok :: "'x host aserving \<Rightarrow> bool" where
  "aserving_ok d \<longleftrightarrow> device_ok (av_app d) \<and> list_all ajob_steady (av_jobs d)"

lemma ajob_of_steady: "steady st \<Longrightarrow> ajob_steady (ajob_of st)"
  by (cases st) (simp_all add: ajob_of_def)

lemma update_steady: "list_all ajob_steady js \<Longrightarrow> ajob_steady j \<Longrightarrow> list_all ajob_steady (js[i := j])"
  by (auto simp: list_all_iff dest!: set_update_subset_insert [THEN subsetD])

definition aarrival_ok :: "'x host asched \<Rightarrow> bool" where
  "aarrival_ok e \<longleftrightarrow> (case e of AArrive env q \<Rightarrow> wg_request_ok q \<and> (\<exists>henv uid. deployed henv uid env) | _ \<Rightarrow> True)"

lemma asched_step_ok:
  assumes "aserving_ok d" and "aarrival_ok e"
  shows "aserving_ok (asched_step e d)"
proof (cases e)
  case (AArrive env q)
  with assms(2) obtain henv uid where "deployed henv uid env" "wg_request_ok q" by (auto simp: aarrival_ok_def)
  from steady_request [OF this] assms(1) AArrive show ?thesis
    by (auto simp: aserving_ok_def steady_co_def ajob_of_steady split: prod.split)
next
  case (AEnds i)
  show ?thesis
  proof (cases "i < length (av_jobs d) \<and> (\<exists>m k. av_jobs d ! i = AWaiting m k)")
    case True
    then obtain m k where j: "i < length (av_jobs d)" "av_jobs d ! i = AWaiting m k" by blast
    then have st: "steady (Calls m k)" using assms(1) by (auto simp: aserving_ok_def list_all_length)
    obtain r s where r: "on_world m (av_app d) = (r, s)" by (meson surj_pair)
    have "r = fst (m (wa_world (av_app d)))" using r by (auto simp: on_world_def split: prod.splits)
    then have "ajob_steady (AResumable r k)" using st by (auto elim: steady_CallsE)
    moreover have "device_ok s"
      using st assms(1) r by (auto simp: aserving_ok_def keeps_def keeps_device_def elim!: steady_CallsE) (metis snd_conv)
    ultimately show ?thesis using AEnds j r assms(1) by (simp add: aserving_ok_def update_steady)
  qed (use AEnds assms(1) in \<open>auto split: ajob.split\<close>)
next
  case (AResume i)
  show ?thesis
  proof (cases "i < length (av_jobs d) \<and> (\<exists>r k. av_jobs d ! i = AResumable r k)")
    case True
    then obtain r k where j: "i < length (av_jobs d)" "av_jobs d ! i = AResumable r k" by blast
    then have "ajob_steady (AResumable r k)" using assms(1) by (auto simp: aserving_ok_def list_all_length)
    moreover obtain st s where r: "k r (av_app d) = (st, s)" by (meson surj_pair)
    ultimately have "device_ok s" "steady st" using assms(1) by (auto simp: aserving_ok_def)
    then show ?thesis using AResume j r assms(1) by (simp add: aserving_ok_def update_steady ajob_of_steady)
  qed (use AResume assms(1) in \<open>auto split: ajob.split\<close>)
qed

text \<open>C4: the device stays sound when requests overlap: in any schedule of requests that arrive, calls
  that the helper serves and handlers that go on, with stale reads of the metadata, failures to
  save and any answers of the programs, the helper's files are at every moment the text of sound
  tunnels, and the metadata file is consistent: no two peers of a tunnel have one address, and
  each key is one that the helper finds.\<close>

theorem overlapping_handlers_stay_sound:
  assumes "device_ok s" and "list_all aarrival_ok evs"
  shows "device_ok (av_app (aschedule evs s))"
proof -
  have "aserving_ok (fold asched_step evs d)" if "aserving_ok d" for d
    using that assms(2) by (induction evs arbitrary: d) (simp_all add: asched_step_ok)
  from this [of "\<lparr>av_app = s, av_jobs = []\<rparr>"] assms(1) show ?thesis
    by (simp add: aschedule_def aserving_ok_def)
qed

theorem overlapping_handlers_stay_sound_witness:
  "device_ok (av_app (aschedule [AArrive web_env (WCreate payload_a), AArrive web_env (WDelete ''wg0''), AEnds 0,
     AResume 0, AEnds 0, AEnds 1, AResume 1, AResume 0] web_start))"
proof (rule overlapping_handlers_stay_sound)
  have "files_good empty_host"
    using represents_empty unfolding files_good_def by (auto simp: sound_def)
  then show "device_ok web_start" by (simp add: device_ok_def web_start_def)
  have "deployed key_env 996 web_env"
    using key_never_fails by (simp add: deployed_def web_env_def)
  then show "list_all aarrival_ok [AArrive web_env (WCreate payload_a), AArrive web_env (WDelete ''wg0''), AEnds 0,
     AResume 0, AEnds 0, AEnds 1, AResume 1, AResume 0]"
    using payload_a_ok by (auto simp: aarrival_ok_def wg_request_ok_def)
qed

text \<open>What is not kept: when two deletions of peers overlap, both are answered with success and both peers
  are removed from the server, but the file that is written last still has the other one's peer.\<close>

lemma delete_peer_stage:
  assumes "wa_meta s = Meta m" and "map_of m name = Some t" and "find (\<lambda>p. pm_id p = i) (tm_peers t) = Some p"
  shows "aco_of env (WDeletePeer name i) s =
    (Calls (quietly (client_remove_peer (we_send env) name (pm_public_key p))) (\<lambda>r s'. case r of
       Inl e \<Rightarrow> (Done (Inl e), s')
     | Inr _ \<Rightarrow> (case save_metadata env (AList.update name
           (t\<lparr>tm_peers := filter (\<lambda>p. pm_id p \<noteq> i) (tm_peers t)\<rparr>) m) s' of
         (Inl e, s'') \<Rightarrow> (Done (Inl e), s'') | (Inr _, s'') \<Rightarrow> (Done (Inr (AJson status_ok)), s''))), s)"
  using assms
  by (auto simp: aco_of_def amap_def aco_delete_peer_def abind_def async_def acall_def load_metadata_def liftr_def
      raise_def ret_def fun_eq_iff split: sum.split prod.split)

lemma overlapping_deletes_lose_one:
  assumes "wa_meta s = Meta m" and "map_of m name = Some t"
    and "find (\<lambda>p. pm_id p = i) (tm_peers t) = Some p" and "find (\<lambda>p. pm_id p = j) (tm_peers t) = Some q" and "i \<noteq> j"
    and "client_remove_peer (we_send env) name (pm_public_key p) (wa_world s) = (Inr (), w1)"
    and "client_remove_peer (we_send env) name (pm_public_key q) w1 = (Inr (), w2)"
    and "\<And>n. \<not> we_save_fails env n"
    and "d = aschedule [AArrive env (WDeletePeer name i), AArrive env (WDeletePeer name j), AEnds 0, AEnds 1,
      AResume 0, AResume 1] s"
  shows "av_jobs d = [AAnswered (Inr (AJson status_ok)), AAnswered (Inr (AJson status_ok))]"
    and "wa_meta (av_app d) = Meta (AList.update name (t\<lparr>tm_peers := filter (\<lambda>p. pm_id p \<noteq> j) (tm_peers t)\<rparr>) m)"
    and "p \<in> set (filter (\<lambda>p. pm_id p \<noteq> j) (tm_peers t))"
proof -
  note st = delete_peer_stage [OF assms(1-3), where env = env] delete_peer_stage [OF assms(1,2,4), where env = env]
  have "d = \<lparr>av_app = \<lparr>wa_meta = Meta (AList.update name (t\<lparr>tm_peers := filter (\<lambda>p. pm_id p \<noteq> j) (tm_peers t)\<rparr>) m),
      wa_tick = Suc (Suc (wa_tick s)), wa_world = w2\<rparr>,
    av_jobs = [AAnswered (Inr (AJson status_ok)), AAnswered (Inr (AJson status_ok))]\<rparr>"
    using assms(6-8)
    by (simp add: assms(9) aschedule_def st ajob_of_def on_world_def quietly_def bindm_def ret_def save_metadata_def)
  then show "av_jobs d = [AAnswered (Inr (AJson status_ok)), AAnswered (Inr (AJson status_ok))]"
    and "wa_meta (av_app d) = Meta (AList.update name (t\<lparr>tm_peers := filter (\<lambda>p. pm_id p \<noteq> j) (tm_peers t)\<rparr>) m)"
    by simp_all
  show "p \<in> set (filter (\<lambda>p. pm_id p \<noteq> j) (tm_peers t))"
    using assms(3,5) by (auto simp: find_Some_iff)
qed

end
