(* ===== verification/Sampling.thy ===== *)
theory Sampling
  imports Telemetry
begin

text \<open>
  The agent's two threads.  paho's \<open>loop_start\<close> runs the callbacks of the MQTT client in a thread of
  its own, so the \<open>publish_state\<close> of \<open>on_connect\<close> and the one of the loop in \<open>main\<close>
  (src/app/telemetry.py) can run at the same time, and both call \<open>sample\<close> of one \<open>NetRates\<close>
  (src/app/metrics.py), which has no lock.  Here \<open>sample\<close> is cut at its reads and writes of the shared
  fields; any sequence of steps of any threads is an interleaving.
\<close>

section \<open>One thread\<close>

type_synonym readings = "(string \<times> counters) list"

datatype phase =
    Begins
  | Has_Now rat                                     \<comment> \<open>the clock is read\<close>
  | Has_Elapsed rat rat                             \<comment> \<open>\<open>self._time\<close> is read\<close>
  | Loops rat rat readings readings "(string \<times> rate_row) list"
      \<comment> \<open>the counters are read; the interfaces that remain, and the rows so far\<close>
  | Has_Stored rat "(string \<times> rate_row) list"     \<comment> \<open>\<open>self._counters\<close> is written\<close>
  | Returns "(string \<times> rate_row) list"             \<comment> \<open>\<open>self._time\<close> is written\<close>

definition row_of :: "rat \<Rightarrow> counters option \<Rightarrow> counters \<Rightarrow> rate_row" where
  "row_of el prev c =
     \<lparr>bytes_sent = nc_sent c, bytes_recv = nc_recv c,
      bytes_sent_per_sec = rate el nc_sent prev c, bytes_recv_per_sec = rate el nc_recv prev c\<rparr>"

fun sample_step :: "rat \<Rightarrow> readings \<Rightarrow> phase \<Rightarrow> net_rates \<Rightarrow> phase \<times> net_rates" where
  \<comment> \<open>one step at a moment at which the clock shows \<open>now\<close> and psutil the counters \<open>cs\<close>\<close>
  "sample_step now cs Begins r = (Has_Now now, r)"
| "sample_step now cs (Has_Now t) r = (Has_Elapsed t (elapsed r t), r)"
| "sample_step now cs (Has_Elapsed t el) r = (Loops t el cs cs [], r)"
| "sample_step now cs (Loops t el cs' ((name, c) # rest) rows) r =
     (Loops t el cs' rest (rows @ [(name, row_of el (map_of (nr_counters r) name) c)]), r)"
| "sample_step now cs (Loops t el cs' [] rows) r = (Has_Stored t rows, r\<lparr>nr_counters := cs'\<rparr>)"
| "sample_step now cs (Has_Stored t rows) r = (Returns rows, r\<lparr>nr_time := t\<rparr>)"
| "sample_step now cs (Returns rows) r = (Returns rows, r)"

fun steps :: "(rat \<times> readings) list \<Rightarrow> phase \<times> net_rates \<Rightarrow> phase \<times> net_rates" where
  "steps [] s = s"
| "steps ((now, cs) # es) s = steps es (sample_step now cs (fst s) (snd s))"

lemma steps_append: "steps (es @ fs) s = steps fs (steps es s)"
  by (induction es s rule: steps.induct) simp_all

lemma steps_loop:
  "length es = length rest \<Longrightarrow> steps es (Loops t el cs rest rows, r) =
    (Loops t el cs [] (rows @ map (\<lambda>(name, c). (name, row_of el (map_of (nr_counters r) name) c)) rest), r)"
proof (induction rest arbitrary: es rows)
  case (Cons x rest)
  then show ?case by (cases es; cases x) auto
qed simp

text \<open>Undisturbed, the steps are \<open>sample\<close> with the clock of the first and the counters of the third.\<close>

lemma steps_are_sample:
  assumes "length es = length cs"
  shows "steps ([(now, x), (n1, y), (n2, cs)] @ es @ [a, b]) (Begins, r) =
    (Returns (fst (sample now cs r)), snd (sample now cs r))"
proof -
  have "steps ([(now, x), (n1, y), (n2, cs)] @ es @ [a, b]) (Begins, r) =
      steps [a, b] (steps es (Loops now (elapsed r now) cs cs [], r))"
    by (simp add: steps_append)
  then show ?thesis
    unfolding steps_loop [OF assms] by (cases a; cases b) (simp add: sample_def row_of_def)
qed

section \<open>Several threads\<close>

record threads =
  th_phases :: "phase list"
  th_rates :: net_rates

type_synonym thread_event = "nat \<times> rat \<times> readings"

definition thread_step :: "thread_event \<Rightarrow> threads \<Rightarrow> threads" where
  "thread_step e d = (case e of (i, now, cs) \<Rightarrow>
     if i < length (th_phases d)
     then (case sample_step now cs (th_phases d ! i) (th_rates d) of
        (p, r) \<Rightarrow> \<lparr>th_phases = (th_phases d)[i := p], th_rates = r\<rparr>)
     else d)"

definition interleaved :: "thread_event list \<Rightarrow> threads \<Rightarrow> threads" where
  "interleaved = fold thread_step"

definition honest :: "(string \<Rightarrow> counters \<Rightarrow> bool) \<Rightarrow> string \<times> rate_row \<Rightarrow> bool" where
  \<comment> \<open>the totals are ones that psutil has shown, and the rates are no greater than if everything had been
      sent in the shortest interval\<close>
  "honest seen row \<longleftrightarrow> (case row of (name, x) \<Rightarrow>
     (\<exists>c. seen name c \<and> bytes_sent x = nc_sent c \<and> bytes_recv x = nc_recv c) \<and>
     0 \<le> bytes_sent_per_sec x \<and> bytes_sent_per_sec x \<le> 1000000 * of_nat (bytes_sent x) \<and>
     0 \<le> bytes_recv_per_sec x \<and> bytes_recv_per_sec x \<le> 1000000 * of_nat (bytes_recv x))"

fun phase_ok :: "(string \<Rightarrow> counters \<Rightarrow> bool) \<Rightarrow> phase \<Rightarrow> bool" where
  "phase_ok seen (Has_Elapsed t el) = (1 / 1000000 \<le> el)"
| "phase_ok seen (Loops t el cs rest rows) =
     (1 / 1000000 \<le> el \<and> (\<forall>(name, c)\<in>set rest. seen name c) \<and> list_all (honest seen) rows)"
| "phase_ok seen (Has_Stored t rows) = list_all (honest seen) rows"
| "phase_ok seen (Returns rows) = list_all (honest seen) rows"
| "phase_ok seen p = True"

lemma rate_bound:
  assumes "1 / 1000000 \<le> el"
  shows "rate el f prev c \<le> 1000000 * of_nat (f c)"
proof -
  have el: "0 < el" "1 \<le> 1000000 * el" using assms by auto
  have "x / el \<le> 1000000 * of_nat (f c)" if "x \<le> of_nat (f c)" for x :: rat
  proof -
    have "x \<le> of_nat (f c) * 1" using that by simp
    also have "\<dots> \<le> of_nat (f c) * (1000000 * el)" using el(2) by (intro mult_left_mono) simp_all
    finally show ?thesis using el(1) by (simp add: pos_divide_le_eq ac_simps)
  qed
  then show ?thesis by (auto simp: rate_def split: option.split)
qed

lemma row_honest: "1 / 1000000 \<le> el \<Longrightarrow> seen name c \<Longrightarrow> honest seen (name, row_of el prev c)"
  by (auto simp: honest_def row_of_def rate_bound)

lemma sample_step_ok:
  "phase_ok seen p \<Longrightarrow> (\<And>name c. (name, c) \<in> set cs \<Longrightarrow> seen name c) \<Longrightarrow> phase_ok seen (fst (sample_step now cs p r))"
  by (induction now cs p r rule: sample_step.induct) (auto simp: elapsed_def row_honest)

lemma thread_step_ok:
  assumes "list_all (phase_ok seen) (th_phases d)" and "\<And>name c. (name, c) \<in> set cs \<Longrightarrow> seen name c"
  shows "list_all (phase_ok seen) (th_phases (thread_step (j, now, cs) d))"
proof (cases "j < length (th_phases d)")
  case True
  with assms have "phase_ok seen (fst (sample_step now cs (th_phases d ! j) (th_rates d)))"
    by (intro sample_step_ok) (auto simp: list_all_length)
  then show ?thesis
    using assms(1) True
    by (auto simp: thread_step_def list_all_iff split: prod.split dest!: set_update_subset_insert [THEN subsetD])
qed (simp add: thread_step_def assms(1))

lemma thread_count: "length (th_phases (thread_step e d)) = length (th_phases d)"
  by (simp add: thread_step_def split: prod.split)

definition shown :: "thread_event list \<Rightarrow> string \<Rightarrow> counters \<Rightarrow> bool" where
  "shown es name c \<longleftrightarrow> (\<exists>(j, now, cs)\<in>set es. (name, c) \<in> set cs)"

lemma interleaved_ok:
  assumes "list_all (phase_ok (shown es)) (th_phases d)" and "set fs \<subseteq> set es"
  shows "length (th_phases (interleaved fs d)) = length (th_phases d) \<and>
    list_all (phase_ok (shown es)) (th_phases (interleaved fs d))"
  using assms
proof (induction fs arbitrary: d)
  case (Cons e fs)
  obtain j now cs where e: "e = (j, now, cs)" by (metis prod_cases3)
  have "shown es name c" if "(name, c) \<in> set cs" for name c
    using Cons.prems(2) that e by (auto simp: shown_def)
  from thread_step_ok [OF Cons.prems(1) this] Cons.IH [of "thread_step e d"] Cons.prems(2) show ?case
    by (simp add: interleaved_def e thread_count)
qed (simp add: interleaved_def)

text \<open>Whatever the threads do to each other, the totals that are published are ones the system has
  shown for that interface, and the rates are not negative and at most a million times the
  total.\<close>

lemma interleaved_samples_honest:
  assumes "i < n" and "th_phases (interleaved es \<lparr>th_phases = replicate n Begins, th_rates = r\<rparr>) ! i = Returns rows"
  shows "list_all (honest (shown es)) rows"
  using interleaved_ok [of es "\<lparr>th_phases = replicate n Begins, th_rates = r\<rparr>" es] assms
  by (auto simp: list_all_length)

section \<open>A reading that is torn\<close>

definition connect_during_tick :: "rat \<Rightarrow> rat \<Rightarrow> readings \<Rightarrow> readings \<Rightarrow> thread_event list" where
  \<comment> \<open>the loop has read the clock at \<open>t\<close> when the callback takes a whole sample at \<open>t'\<close>\<close>
  "connect_during_tick t t' cs cs' =
     [(0, t, cs)] @ map (\<lambda>_. (1, t', cs)) [0..<5 + length cs] @ map (\<lambda>_. (0, t', cs')) [0..<4 + length cs']"

text \<open>C40: the rates can be wrong by orders of magnitude: when the callback of a connection samples between
  the loop's reading of the clock and its reading of the time of the last sample, the loop takes the
  shortest interval of a microsecond, so that each byte counts for a million bytes per second, and
  the time of the last sample is set back.\<close>

theorem torn_sample_spikes:
  assumes "t < t'" and "nc_sent c \<le> nc_sent c'"
    and "d = interleaved (connect_during_tick t t' [(name, c)] [(name, c')]) \<lparr>th_phases = [Begins, Begins], th_rates = r\<rparr>"
  shows "(\<exists>row. th_phases d ! 0 = Returns [(name, row)] \<and>
      bytes_sent_per_sec row = 1000000 * of_nat (nc_sent c' - nc_sent c)) \<and>
    nr_time (th_rates d) = t"
  using assms(1,2)
  by (auto simp: assms(3) connect_during_tick_def interleaved_def thread_step_def row_of_def rate_def elapsed_def
      upt_rec of_nat_diff)

theorem torn_sample_spikes_witness:
  "\<exists>row. th_phases (interleaved (connect_during_tick 60 (60 + 1 / 100) [(''wlan0'', \<lparr>nc_sent = 5000, nc_recv = 0\<rparr>)]
      [(''wlan0'', \<lparr>nc_sent = 6500, nc_recv = 0\<rparr>)])
      \<lparr>th_phases = [Begins, Begins], th_rates = init_rates 0 []\<rparr>) ! 0 = Returns [(''wlan0'', row)] \<and>
    bytes_sent_per_sec row = 1500000000"
  using torn_sample_spikes [of 60 "60 + 1 / 100" "\<lparr>nc_sent = 5000, nc_recv = 0\<rparr>" "\<lparr>nc_sent = 6500, nc_recv = 0\<rparr>"
      _ "''wlan0''" "init_rates 0 []", OF _ _ refl] by auto

end
