(* ===== verification/Agent.thy ===== *)
theory Agent
  imports Sampling
begin

text \<open>
  The life of the telemetry agent, \<open>main\<close> and \<open>_build_client\<close> of src/app/telemetry.py: the loop of the
  main thread and the callbacks in the thread of paho's \<open>loop_start\<close>, which publish through one
  client.  Each thread is cut at what it does to the shared state: publishing, the fields of
  \<open>NetRates\<close>, the stop event, the state of the connection.  An event is a step of a thread, a signal, or what
  the broker does; any list of events is a schedule.

  The messages are those that the client is asked to publish, in this order.  Of paho the
  model uses that callbacks run one after the other in the thread of \<open>loop_start\<close>, that
  \<open>is_connected\<close> holds from the broker's acceptance, before \<open>on_connect\<close> is called, to the loss of the connection, and
  that \<open>loop_stop\<close> waits for the thread.
\<close>

section \<open>One report\<close>

datatype report =
    Starts
  | Samples pydict phase   \<comment> \<open>the values of the device, and where \<open>sample\<close> is\<close>
  | Publishes pydict
  | Reported

definition state_message :: "agent_cfg \<Rightarrow> pydict \<Rightarrow> message" where
  "state_message a p = \<lparr>m_topic = state_topic (ac_settings a), m_payload = Doc p, m_qos = 0, m_retain = True\<rparr>"

fun report_step :: "agent_cfg \<Rightarrow> collect_env \<Rightarrow> report \<Rightarrow> net_rates \<Rightarrow> report \<times> net_rates \<times> message list" where
  \<comment> \<open>a step of \<open>publish_state\<close>; an exception of \<open>collect\<close> is logged\<close>
  "report_step a e Starts r = ((case load_state (ce_state e) of
      Inr (PDict state) \<Rightarrow> Samples (device_values e state) Begins | _ \<Rightarrow> Reported), r, [])"
| "report_step a e (Samples vs (Returns rows)) r =
     (Publishes (updates (concat (map (iface_values rows) (ac_interfaces a))) vs), r, [])"
| "report_step a e (Samples vs p) r = (case sample_step (ce_now e) (ce_counters e) p r of
      (p', r') \<Rightarrow> (Samples vs p', r', []))"
| "report_step a e (Publishes p) r = (Reported, r, [state_message a p])"
| "report_step a e Reported r = (Reported, r, [])"

fun report_run :: "agent_cfg \<Rightarrow> collect_env \<Rightarrow> nat \<Rightarrow> report \<times> net_rates \<times> message list \<Rightarrow> report \<times> net_rates \<times> message list" where
  "report_run a e 0 x = x"
| "report_run a e (Suc n) (p, r, ms) = (case report_step a e p r of (p', r', ms') \<Rightarrow> report_run a e n (p', r', ms @ ms'))"

lemma report_run_done: "report_run a e n (Reported, r, ms) = (Reported, r, ms)"
  by (induction n) simp_all

lemma report_run_loop:
  "report_run a e (length rest + n) (Samples vs (Loops t el cs rest rows), r, ms) =
   report_run a e n (Samples vs (Loops t el cs []
     (rows @ map (\<lambda>(name, c). (name, row_of el (map_of (nr_counters r) name) c)) rest)), r, ms)"
proof (induction rest arbitrary: rows)
  case (Cons x rest)
  then show ?case by (cases x) simp
qed simp

text \<open>A report that nothing disturbs is \<open>publish_state\<close>.\<close>

lemma report_alone:
  "report_run a e (8 + length (ce_counters e)) (Starts, r, []) =
   (Reported, snd (publish_state a e r), fst (publish_state a e r))"
proof (cases "\<exists>state. load_state (ce_state e) = Inr (PDict state)")
  case True
  then obtain state where l: "load_state (ce_state e) = Inr (PDict state)" by blast
  let ?n = "length (ce_counters e)"
  have "report_run a e (Suc (Suc (Suc (Suc n)))) (Starts, r, []) =
      report_run a e n (Samples (device_values e state)
        (Loops (ce_now e) (elapsed r (ce_now e)) (ce_counters e) (ce_counters e) []), r, [])" for n
    by (simp add: l)
  from this [of "?n + 4"]
  have "report_run a e (8 + ?n) (Starts, r, []) =
      report_run a e (?n + 4) (Samples (device_values e state)
        (Loops (ce_now e) (elapsed r (ce_now e)) (ce_counters e) (ce_counters e) []), r, [])"
    by (simp add: numeral_eq_Suc del: report_run.simps)
  also have "\<dots> = (Reported, snd (publish_state a e r), fst (publish_state a e r))"
    unfolding report_run_loop
    by (simp add: numeral_eq_Suc publish_state_def collect_def op_defs l sample_def row_of_def state_message_def)
  finally show ?thesis .
next
  case False
  have "report_run a e (Suc n) (Starts, r, []) = (Reported, r, [])" for n
    using False by (auto simp: report_run_done split: sum.split pyval.split)
  from this [of "7 + length (ce_counters e)"]
  have "report_run a e (8 + length (ce_counters e)) (Starts, r, []) = (Reported, r, [])" by simp
  moreover have "publish_state a e r = ([], r)"
    using False by (auto simp: publish_state_def collect_def op_defs split: sum.split pyval.split)
  ultimately show ?thesis by simp
qed

section \<open>The two threads\<close>

datatype net_phase =
    Quiet
  | Discovers              \<comment> \<open>in \<open>on_connect\<close>, before each of its three calls\<close>
  | Goes_Online
  | Net_Reports report

datatype main_phase =
    Loops_On               \<comment> \<open>at the condition of the loop\<close>
  | Tests                  \<comment> \<open>at \<open>is_connected\<close>\<close>
  | Main_Reports report
  | Sleeps                 \<comment> \<open>after the offline message, until \<open>loop_stop\<close> has waited for the thread\<close>
  | Exited

record agent =
  ag_net :: net_phase
  ag_main :: main_phase
  ag_stop :: bool
  ag_connected :: bool
  ag_rates :: net_rates
  ag_out :: "message list"

datatype agent_event =
    Connack int            \<comment> \<open>the broker's answer to a connection, which calls \<open>on_connect\<close>\<close>
  | Lost                   \<comment> \<open>the connection is lost; \<open>on_disconnect\<close> only logs\<close>
  | Signal
  | Net collect_env        \<comment> \<open>a step of a callback, and what the system shows then\<close>
  | Main collect_env

definition net_next :: "report \<Rightarrow> net_phase" where
  "net_next p = (if p = Reported then Quiet else Net_Reports p)"

definition main_next :: "report \<Rightarrow> main_phase" where
  \<comment> \<open>after a report the loop waits, and starts again\<close>
  "main_next p = (if p = Reported then Loops_On else Main_Reports p)"

definition on_connect :: "int \<Rightarrow> agent \<Rightarrow> agent" where
  \<comment> \<open>the call of the callback: a refusal is only logged\<close>
  "on_connect reason_code g = g\<lparr>ag_connected := (reason_code = 0), ag_net := (if reason_code = 0 then Discovers else Quiet)\<rparr>"

definition net_step :: "agent_cfg \<Rightarrow> collect_env \<Rightarrow> agent \<Rightarrow> agent" where
  "net_step a e g = (case ag_net g of
     Quiet \<Rightarrow> g
   | Discovers \<Rightarrow> g\<lparr>ag_out := ag_out g @ [discovery a], ag_net := Goes_Online\<rparr>
   | Goes_Online \<Rightarrow> g\<lparr>ag_out := ag_out g @ [availability a ''online''], ag_net := Net_Reports Starts\<rparr>
   | Net_Reports p \<Rightarrow> (case report_step a e p (ag_rates g) of (p', r, ms) \<Rightarrow>
       g\<lparr>ag_net := net_next p', ag_rates := r, ag_out := ag_out g @ ms\<rparr>))"

definition main_step :: "agent_cfg \<Rightarrow> collect_env \<Rightarrow> agent \<Rightarrow> agent" where
  "main_step a e g = (case ag_main g of
     Loops_On \<Rightarrow> if ag_stop g then g\<lparr>ag_out := ag_out g @ [availability a ''offline''], ag_main := Sleeps\<rparr>
       else g\<lparr>ag_main := Tests\<rparr>
   | Tests \<Rightarrow> g\<lparr>ag_main := (if ag_connected g then Main_Reports Starts else Loops_On)\<rparr>
   | Main_Reports p \<Rightarrow> (case report_step a e p (ag_rates g) of (p', r, ms) \<Rightarrow>
       g\<lparr>ag_main := main_next p', ag_rates := r, ag_out := ag_out g @ ms\<rparr>)
   | Sleeps \<Rightarrow> if ag_net g = Quiet then g\<lparr>ag_main := Exited\<rparr> else g
   | Exited \<Rightarrow> g)"

definition agent_step :: "agent_cfg \<Rightarrow> agent_event \<Rightarrow> agent \<Rightarrow> agent" where
  "agent_step a ev g = (case ev of
     Connack rc \<Rightarrow> if ag_net g = Quiet \<and> ag_main g \<noteq> Exited then on_connect rc g else g
   | Lost \<Rightarrow> g\<lparr>ag_connected := False\<rparr>
   | Signal \<Rightarrow> g\<lparr>ag_stop := True\<rparr>
   | Net e \<Rightarrow> net_step a e g
   | Main e \<Rightarrow> main_step a e g)"

definition agent_start :: "net_rates \<Rightarrow> agent" where
  "agent_start r = \<lparr>ag_net = Quiet, ag_main = Loops_On, ag_stop = False, ag_connected = False, ag_rates = r, ag_out = []\<rparr>"

definition agent_run :: "agent_cfg \<Rightarrow> agent_event list \<Rightarrow> net_rates \<Rightarrow> agent" where
  "agent_run a es r = fold (agent_step a) es (agent_start r)"

lemma agent_run_append: "agent_run a (es @ fs) r = fold (agent_step a) fs (agent_run a es r)"
  by (simp add: agent_run_def)

section \<open>What is published in any schedule\<close>

definition is_state :: "agent_cfg \<Rightarrow> message \<Rightarrow> bool" where
  "is_state a m \<longleftrightarrow> m_topic m = state_topic (ac_settings a) \<and> m_qos m = 0 \<and> m_retain m"

lemma report_step_out: "report_step a e p r = (p', r', ms) \<Longrightarrow> list_all (is_state a) ms"
  by (induction a e p r rule: report_step.induct) (auto simp: is_state_def state_message_def split: prod.splits)

definition announcements :: "agent_cfg \<Rightarrow> message list \<Rightarrow> message list" where
  "announcements a = filter (\<lambda>m. m = discovery a \<or> m = availability a ''online'')"

definition sign_offs :: "agent_cfg \<Rightarrow> message list \<Rightarrow> message list" where
  "sign_offs a = filter (\<lambda>m. m = last_will a)"

lemma state_kinds: "is_state a m \<Longrightarrow> m \<noteq> discovery a \<and> m \<noteq> availability a t"
  using message_kinds(3) unfolding is_state_def by blast

lemma states_filtered: "list_all (is_state a) ms \<Longrightarrow> announcements a ms = [] \<and> sign_offs a ms = []"
  using state_kinds unfolding announcements_def sign_offs_def last_will_def
  by (auto simp: filter_empty_conv list_all_iff)

definition agent_inv :: "agent_cfg \<Rightarrow> agent \<Rightarrow> bool" where
  "agent_inv a g \<longleftrightarrow>
     list_all (\<lambda>m. m \<in> {discovery a, availability a ''online'', last_will a} \<or> is_state a m) (ag_out g) \<and>
     (\<exists>n. announcements a (ag_out g) = concat (replicate n [discovery a, availability a ''online'']) @
        (if ag_net g = Goes_Online then [discovery a] else [])) \<and>
     sign_offs a (ag_out g) = (if ag_main g \<in> {Sleeps, Exited} then [last_will a] else [])"

lemma announcements_append [simp]: "announcements a (xs @ ys) = announcements a xs @ announcements a ys"
  by (simp add: announcements_def)

lemma sign_offs_append [simp]: "sign_offs a (xs @ ys) = sign_offs a xs @ sign_offs a ys"
  by (simp add: sign_offs_def)

lemma kinds_filtered [simp]:
  "announcements a [discovery a] = [discovery a]" "announcements a [availability a ''online''] = [availability a ''online'']"
  "announcements a [availability a ''offline''] = []" "sign_offs a [discovery a] = []"
  "sign_offs a [availability a ''online''] = []" "sign_offs a [availability a ''offline''] = [last_will a]"
  using message_kinds(1,2) [of a] by (auto simp: announcements_def sign_offs_def last_will_def availability_def discovery_def)

lemma next_phases [simp]: "net_next p \<noteq> Goes_Online" "main_next p \<noteq> Sleeps" "main_next p \<noteq> Exited"
  by (simp_all add: net_next_def main_next_def)

lemma replicate_snoc: "concat (replicate n xs) @ xs = concat (replicate (Suc n) xs)"
  by (induction n) simp_all

lemma net_step_inv: "agent_inv a g \<Longrightarrow> agent_inv a (net_step a e g)"
proof (cases "ag_net g")
  case Goes_Online
  assume i: "agent_inv a g"
  then obtain n where "announcements a (ag_out g) = concat (replicate n [discovery a, availability a ''online'']) @ [discovery a]"
    using Goes_Online by (auto simp: agent_inv_def)
  then have "announcements a (ag_out (net_step a e g)) = concat (replicate (Suc n) [discovery a, availability a ''online''])"
    unfolding replicate_snoc [symmetric] by (simp add: net_step_def Goes_Online)
  then show ?thesis using i Goes_Online
    unfolding agent_inv_def by (intro conjI exI [of _ "Suc n"]) (simp_all add: net_step_def)
next
  case (Net_Reports p)
  assume i: "agent_inv a g"
  obtain p' r ms where s: "report_step a e p (ag_rates g) = (p', r, ms)" by (metis prod_cases3)
  note report_step_out [OF s]
  then show ?thesis using i Net_Reports s states_filtered [of a ms]
    by (auto simp: agent_inv_def net_step_def list_all_iff)
qed (auto simp: agent_inv_def net_step_def)

lemma main_step_inv: "agent_inv a g \<Longrightarrow> agent_inv a (main_step a e g)"
proof (cases "ag_main g")
  case (Main_Reports p)
  assume i: "agent_inv a g"
  obtain p' r ms where s: "report_step a e p (ag_rates g) = (p', r, ms)" by (metis prod_cases3)
  note report_step_out [OF s]
  then show ?thesis using i Main_Reports s states_filtered [of a ms]
    by (auto simp: agent_inv_def main_step_def list_all_iff)
qed (auto simp: agent_inv_def main_step_def last_will_def)

lemma agent_step_inv: "agent_inv a g \<Longrightarrow> agent_inv a (agent_step a ev g)"
  by (cases ev) (auto simp: agent_step_def on_connect_def net_step_inv main_step_inv, auto simp: agent_inv_def)

lemma agent_run_inv: "agent_inv a (agent_run a es r)"
proof -
  have "agent_inv a g \<Longrightarrow> agent_inv a (fold (agent_step a) es g)" for g
    by (induction es arbitrary: g) (simp_all add: agent_step_inv)
  then show ?thesis
    by (simp add: agent_run_def agent_start_def agent_inv_def announcements_def sign_offs_def exI [of _ "0::nat"])
qed

text \<open>Before the broker accepts a connection only the offline message of a stop is published.\<close>

definition unconnected :: "agent_cfg \<Rightarrow> agent \<Rightarrow> bool" where
  "unconnected a g \<longleftrightarrow> ag_net g = Quiet \<and> \<not> ag_connected g \<and> ag_main g \<in> {Loops_On, Tests, Sleeps, Exited} \<and>
     set (ag_out g) \<subseteq> {last_will a}"

lemma unconnected_step: "unconnected a g \<Longrightarrow> ev \<noteq> Connack 0 \<Longrightarrow> unconnected a (agent_step a ev g)"
  by (cases ev) (auto simp: unconnected_def agent_step_def on_connect_def net_step_def main_step_def last_will_def)

lemma unconnected_run: "Connack 0 \<notin> set es \<Longrightarrow> unconnected a (agent_run a es r)"
proof -
  have "unconnected a g \<Longrightarrow> Connack 0 \<notin> set es \<Longrightarrow> unconnected a (fold (agent_step a) es g)" for g
    by (induction es arbitrary: g) (auto simp: unconnected_step)
  then show "Connack 0 \<notin> set es \<Longrightarrow> unconnected a (agent_run a es r)"
    by (simp add: agent_run_def agent_start_def unconnected_def)
qed

text \<open>A stop with no callback under way and no connection after it ends with the offline message.\<close>

definition signed_off :: "message list \<Rightarrow> agent \<Rightarrow> bool" where
  "signed_off out g \<longleftrightarrow> ag_net g = Quiet \<and> ag_main g \<in> {Sleeps, Exited} \<and> ag_out g = out"

lemma signed_off_step: "signed_off out g \<Longrightarrow> ev \<noteq> Connack 0 \<Longrightarrow> signed_off out (agent_step a ev g)"
  by (cases ev) (auto simp: signed_off_def agent_step_def on_connect_def net_step_def main_step_def)

lemma signed_off_run: "signed_off out g \<Longrightarrow> Connack 0 \<notin> set fs \<Longrightarrow> signed_off out (fold (agent_step a) fs g)"
  by (induction fs arbitrary: g) (auto simp: signed_off_step)

lemma stop_signs_off:
  assumes "ag_main (agent_run a es r) = Loops_On" and "ag_stop (agent_run a es r)" and "ag_net (agent_run a es r) = Quiet"
    and "Connack 0 \<notin> set fs"
  shows "ag_out (agent_run a (es @ Main e # fs) r) = ag_out (agent_run a es r) @ [last_will a]"
proof -
  have "signed_off (ag_out (agent_run a es r) @ [last_will a]) (agent_step a (Main e) (agent_run a es r))"
    using assms(1-3) by (simp add: signed_off_def agent_step_def main_step_def last_will_def)
  from signed_off_run [OF this assms(4)] show ?thesis by (simp add: agent_run_append signed_off_def)
qed

section \<open>A connection that returns during the stop\<close>

lemma report_run_acc:
  "report_run a e n (p, r, xs @ ys) =
    (case report_run a e n (p, r, ys) of (p', r', ms) \<Rightarrow> (p', r', xs @ ms))"
proof (induction n arbitrary: p r ys)
  case (Suc n)
  then show ?case by (cases "report_step a e p r") simp
qed simp

lemma net_report_run:
  "ag_net g = net_next p \<Longrightarrow> report_run a e n (p, ag_rates g, []) = (p', r', ms) \<Longrightarrow>
   fold (agent_step a) (replicate n (Net e)) g =
     g\<lparr>ag_net := net_next p', ag_rates := r', ag_out := ag_out g @ ms\<rparr>"
proof (induction n arbitrary: g p ms)
  case (Suc n)
  obtain p1 r1 ms1 where s: "report_step a e p (ag_rates g) = (p1, r1, ms1)" by (metis prod_cases3)
  have step: "agent_step a (Net e) g = g\<lparr>ag_net := net_next p1, ag_rates := r1, ag_out := ag_out g @ ms1\<rparr>"
  proof (cases "p = Reported")
    case True
    then show ?thesis using s Suc.prems(1) by (auto simp: agent_step_def net_step_def net_next_def)
  next
    case False
    then show ?thesis using s Suc.prems(1) by (simp add: agent_step_def net_step_def net_next_def [of p])
  qed
  from Suc.prems(2) s obtain zs where zs: "report_run a e n (p1, r1, []) = (p', r', zs)" "ms = ms1 @ zs"
    using report_run_acc [of a e n p1 r1 ms1 "[]"] by (auto split: prod.splits)
  have "fold (agent_step a) (replicate n (Net e)) (agent_step a (Net e) g) =
      (agent_step a (Net e) g)\<lparr>ag_net := net_next p', ag_rates := r', ag_out := ag_out (agent_step a (Net e) g) @ zs\<rparr>"
    by (rule Suc.IH [where p = p1]) (simp_all add: step zs)
  then show ?case using step zs(2) by simp
qed simp

definition reconnect :: "collect_env \<Rightarrow> agent_event list" where
  \<comment> \<open>a whole callback, and then the end of the main thread\<close>
  "reconnect e = [Connack 0, Net e, Net e] @ replicate (8 + length (ce_counters e)) (Net e) @ [Main e]"

text \<open>The agent sleeps after its offline message, and its client still connects: then the last word on the
  availability is online, and since the client disconnects in order no last will follows.\<close>

lemma reconnect_after_stop:
  assumes "ag_main (agent_run a es r) = Sleeps" and "ag_net (agent_run a es r) = Quiet"
  shows "ag_main (agent_run a (es @ reconnect e) r) = Exited \<and>
    ag_out (agent_run a (es @ reconnect e) r) = ag_out (agent_run a es r) @ [discovery a, availability a ''online''] @
      fst (publish_state a e (ag_rates (agent_run a es r)))"
proof -
  let ?g = "agent_run a es r"
  let ?g3 = "?g\<lparr>ag_connected := True, ag_net := Net_Reports Starts,
    ag_out := ag_out ?g @ [discovery a, availability a ''online'']\<rparr>"
  have "fold (agent_step a) [Connack 0, Net e, Net e] ?g = ?g3"
    using assms by (simp add: agent_step_def on_connect_def net_step_def)
  moreover have "fold (agent_step a) (replicate (8 + length (ce_counters e)) (Net e)) ?g3 =
      ?g3\<lparr>ag_net := Quiet, ag_rates := snd (publish_state a e (ag_rates ?g)),
        ag_out := ag_out ?g3 @ fst (publish_state a e (ag_rates ?g))\<rparr>"
    using net_report_run [of ?g3 Starts a e "8 + length (ce_counters e)"] report_alone [of a e "ag_rates ?g"]
    by (simp add: net_next_def)
  ultimately have "agent_run a (es @ reconnect e) r = (?g3\<lparr>ag_net := Quiet, ag_rates := snd (publish_state a e (ag_rates ?g)),
        ag_out := ag_out ?g3 @ fst (publish_state a e (ag_rates ?g))\<rparr>)\<lparr>ag_main := Exited\<rparr>"
    unfolding agent_run_append reconnect_def fold_append comp_apply
    using assms(1) by (simp add: agent_step_def main_step_def)
  then show ?thesis by simp
qed

section \<open>The property\<close>

text \<open>C39: what the agent publishes, in any schedule of its two threads, signals, answers of the broker, losses of
  the connection and failures to collect.  Everything is retained, and is a discovery document,
  an online or offline message, or a state document of quality 0.  Without the state documents and the
  offline message, discovery and online alternate, discovery first, and the last pair is only open while a callback is between the two; the
  offline message is published once, as soon as the main thread has left its loop, and before the
  broker has accepted a connection there is nothing else.  And if no callback is under way
  when the loop ends and no connection is accepted after that, the offline message is the last one
  and the same as the last will.  (State documents of the main thread may come between and even before
  the announcements, and \<open>reconnect_after_stop\<close> shows that the last condition is needed.)\<close>

theorem agent_announcements:
  "list_all (\<lambda>m. m_retain m \<and> (m \<in> {discovery a, availability a ''online'', last_will a} \<or>
      m_topic m = state_topic (ac_settings a) \<and> m_qos m = 0)) (ag_out (agent_run a es r)) \<and>
   (\<exists>n. filter (\<lambda>m. m = discovery a \<or> m = availability a ''online'') (ag_out (agent_run a es r)) =
      concat (replicate n [discovery a, availability a ''online'']) @
      (if ag_net (agent_run a es r) = Goes_Online then [discovery a] else [])) \<and>
   filter (\<lambda>m. m = last_will a) (ag_out (agent_run a es r)) =
      (if ag_main (agent_run a es r) \<in> {Sleeps, Exited} then [last_will a] else []) \<and>
   (Connack 0 \<notin> set es \<longrightarrow> set (ag_out (agent_run a es r)) \<subseteq> {last_will a}) \<and>
   (\<forall>e fs. ag_main (agent_run a es r) = Loops_On \<and> ag_stop (agent_run a es r) \<and> ag_net (agent_run a es r) = Quiet \<and>
      Connack 0 \<notin> set fs \<longrightarrow>
      ag_out (agent_run a (es @ Main e # fs) r) = ag_out (agent_run a es r) @ [last_will a])"
proof -
  have i: "agent_inv a (agent_run a es r)" by (rule agent_run_inv)
  have "m_retain (discovery a)" "m_retain (availability a t)" "m_retain (last_will a)" for t
    by (simp_all add: discovery_def availability_def last_will_def)
  with i have "list_all (\<lambda>m. m_retain m \<and> (m \<in> {discovery a, availability a ''online'', last_will a} \<or>
      m_topic m = state_topic (ac_settings a) \<and> m_qos m = 0)) (ag_out (agent_run a es r))"
    by (auto simp: agent_inv_def list_all_iff is_state_def)
  with i show ?thesis
    using unconnected_run [of es a r] stop_signs_off [of a es r]
    unfolding agent_inv_def announcements_def sign_offs_def unconnected_def by blast
qed

theorem agent_announcements_witness:
  "ag_out (agent_run test_agent [Connack 5, Signal, Main idle_env] (init_rates 0 [])) = [last_will test_agent]"
proof -
  have "ag_main (agent_run test_agent [Connack 5, Signal] (init_rates 0 [])) = Loops_On"
    "ag_stop (agent_run test_agent [Connack 5, Signal] (init_rates 0 []))"
    "ag_net (agent_run test_agent [Connack 5, Signal] (init_rates 0 [])) = Quiet"
    "ag_out (agent_run test_agent [Connack 5, Signal] (init_rates 0 [])) = []"
    by (simp_all add: agent_run_def agent_start_def agent_step_def on_connect_def)
  with agent_announcements [of test_agent "[Connack 5, Signal]" "init_rates 0 []"] show ?thesis
    by (metis append_Cons append_Nil empty_set empty_iff)
qed

end
