(* ===== verification/Settings.thy ===== *)
theory Settings
  imports Agent
begin

text \<open>
  What the two Python programs read from their environment at start, and what they make of it:
  \<open>Settings\<close> of src/app/config.py with the client of the identity provider in src/app/auth.py, and
  \<open>TelemetrySettings\<close> of src/app/telemetry.py with the MQTT client and \<open>main\<close>.

  pydantic-settings finds the value of a field under the prefix and the name of the field, whatever
  the case of the letters; a variable that is set to nothing is set.  How it reads an integer is a
  parameter.
\<close>

section \<open>The environment\<close>

type_synonym environ = "(string \<times> string) list"

definition env_value :: "string \<Rightarrow> environ \<Rightarrow> string \<Rightarrow> string option" where
  "env_value env_prefix env field =
     map_of (rev (map (\<lambda>(k, v). (py_lower k, v)) env)) (py_lower env_prefix @ field)"

definition env_or :: "string \<Rightarrow> environ \<Rightarrow> string \<Rightarrow> string \<Rightarrow> string" where
  "env_or env_prefix env field x = (case env_value env_prefix env field of None \<Rightarrow> x | Some v \<Rightarrow> v)"

lemma lower_names:
  "py_lower ''SSO_ISSUER'' = ''sso_issuer''"
  "py_lower ''SSO_APPLICATION_SLUG'' = ''sso_application_slug''"
  "py_lower ''SSO_CLIENT_ID'' = ''sso_client_id''"
  "py_lower ''SSO_CLIENT_SECRET'' = ''sso_client_secret''"
  "py_lower ''SSO_REDIRECT_URI'' = ''sso_redirect_uri''"
  "py_lower ''SESSION_SECRET'' = ''session_secret''"
  "py_lower ''TELEMETRY_MQTT_HOST'' = ''telemetry_mqtt_host''"
  "py_lower ''TELEMETRY_MQTT_USERNAME'' = ''telemetry_mqtt_username''"
  "py_lower ''TELEMETRY_MQTT_PASSWORD'' = ''telemetry_mqtt_password''"
  "py_lower ''TELEMETRY_'' = ''telemetry_''"
  "py_lower [] = []"
  by code_simp+

section \<open>The web application\<close>

record app_settings =
  sso_issuer :: string
  sso_application_slug :: string
  sso_client_id :: string
  sso_client_secret :: string
  sso_redirect_uri :: string
  session_secret :: string

definition load_app_settings :: "environ \<Rightarrow> app_settings option" where
  \<comment> \<open>\<open>None\<close>: a required field is missing, and the import of the module fails\<close>
  "load_app_settings env =
     (case (env_value [] env ''sso_application_slug'', env_value [] env ''sso_client_id'',
            env_value [] env ''sso_client_secret'', env_value [] env ''sso_redirect_uri'',
            env_value [] env ''session_secret'') of
        (Some app, Some cid, Some secret, Some uri, Some key) \<Rightarrow> Some
          \<lparr>sso_issuer = env_or [] env ''sso_issuer'' ''https://sso.keekar.au'', sso_application_slug = app,
           sso_client_id = cid, sso_client_secret = secret, sso_redirect_uri = uri, session_secret = key\<rparr>
      | _ \<Rightarrow> None)"

record oauth_client =
  oc_name :: string
  oc_client_id :: string
  oc_client_secret :: string
  oc_server_metadata_url :: string
  oc_scope :: string
  oc_code_challenge_method :: string
  oc_timeout :: nat

definition oauth_register :: "app_settings \<Rightarrow> oauth_client" where
  \<comment> \<open>the certificates are verified against the trust store of the system\<close>
  "oauth_register s =
     \<lparr>oc_name = ''sso'', oc_client_id = sso_client_id s, oc_client_secret = sso_client_secret s,
      oc_server_metadata_url = sso_issuer s @ ''/application/o/'' @ sso_application_slug s @
        ''/.well-known/openid-configuration'',
      oc_scope = ''openid profile email'', oc_code_challenge_method = ''S256'', oc_timeout = 20\<rparr>"

lemma app_settings_iff:
  "(\<exists>s. load_app_settings env = Some s) \<longleftrightarrow>
    (\<forall>f\<in>{''sso_application_slug'', ''sso_client_id'', ''sso_client_secret'', ''sso_redirect_uri'', ''session_secret''}.
       env_value [] env f \<noteq> None)"
  by (auto simp: load_app_settings_def split: option.split)

text \<open>The environment of deploy/sso.env.example as it is shipped, before a value is filled in: the
  application starts, and the key that signs the session cookies is empty.\<close>

definition sso_env_example :: environ where
  "sso_env_example =
     [(''SSO_ISSUER'', ''https://sso.keekar.au''), (''SSO_APPLICATION_SLUG'', []), (''SSO_CLIENT_ID'', []),
      (''SSO_CLIENT_SECRET'', []), (''SSO_REDIRECT_URI'', ''https://vpn.bpl.keekar.au/auth/callback''),
      (''SESSION_SECRET'', [])]"

lemma template_has_no_key: "map_option session_secret (load_app_settings sso_env_example) = Some []"
  by (simp add: load_app_settings_def env_or_def env_value_def sso_env_example_def lower_names)

section \<open>The telemetry agent\<close>

record telemetry_settings = settings +
  st_mqtt_host :: string
  st_mqtt_port :: int
  st_mqtt_username :: string
  st_mqtt_password :: string
  st_interval_s :: int

definition env_int :: "(string \<Rightarrow> int option) \<Rightarrow> environ \<Rightarrow> string \<Rightarrow> int \<Rightarrow> int option" where
  "env_int read_int env field x =
     (case env_value ''TELEMETRY_'' env field of None \<Rightarrow> Some x | Some v \<Rightarrow> read_int v)"

definition load_telemetry_settings :: "(string \<Rightarrow> int option) \<Rightarrow> string \<Rightarrow> environ \<Rightarrow> telemetry_settings option" where
  "load_telemetry_settings read_int hostname env =
     (case (env_value ''TELEMETRY_'' env ''mqtt_host'', env_int read_int env ''mqtt_port'' 1883,
            env_value ''TELEMETRY_'' env ''mqtt_username'', env_value ''TELEMETRY_'' env ''mqtt_password'',
            env_int read_int env ''interval_s'' 60) of
        (Some host, Some port, Some user, Some pw, Some secs) \<Rightarrow> Some
          \<lparr>st_device_id = env_or ''TELEMETRY_'' env ''device_id'' hostname,
           st_device_name = env_or ''TELEMETRY_'' env ''device_name'' [],
           st_interfaces = env_or ''TELEMETRY_'' env ''interfaces'' [],
           st_mqtt_host = host, st_mqtt_port = port, st_mqtt_username = user, st_mqtt_password = pw,
           st_interval_s = secs\<rparr>
      | _ \<Rightarrow> None)"

record mqtt_client =
  mq_client_id :: string
  mq_username :: string
  mq_password :: string
  mq_will :: message
  mq_reconnect_delay :: "nat \<times> nat"
  mq_host :: string
  mq_port :: int
  mq_keepalive :: int

definition make_agent :: "build \<Rightarrow> telemetry_settings \<Rightarrow> string list \<Rightarrow> agent_cfg" where
  "make_agent b s available =
     (let st = settings.truncate s
      in \<lparr>ac_settings = st, ac_build = b, ac_interfaces = select_interfaces st available\<rparr>)"

definition build_client :: "agent_cfg \<Rightarrow> telemetry_settings \<Rightarrow> mqtt_client" where
  \<comment> \<open>\<open>_build_client\<close>, and where \<open>main\<close> connects it\<close>
  "build_client a s =
     \<lparr>mq_client_id = ''pi-telemetry-'' @ st_device_id s, mq_username = st_mqtt_username s,
      mq_password = st_mqtt_password s, mq_will = last_will a, mq_reconnect_delay = (5, 300),
      mq_host = st_mqtt_host s, mq_port = st_mqtt_port s, mq_keepalive = keepalive_s (st_interval_s s)\<rparr>"

record agent_life =
  al_client :: mqtt_client
  al_messages :: "message list"
  al_exit :: "int option"

definition agent_main :: "(string \<Rightarrow> int option) \<Rightarrow> build \<Rightarrow> string \<Rightarrow> environ \<Rightarrow> rat \<Rightarrow> (string \<times> counters) list \<Rightarrow>
    agent_event list \<Rightarrow> agent_life option" where
  \<comment> \<open>up to the events so far; \<open>None\<close>: the settings are refused, and the process ends with an error\<close>
  "agent_main read_int b hostname env started first events =
     (case load_telemetry_settings read_int hostname env of
        None \<Rightarrow> None
      | Some s \<Rightarrow>
         (let a = make_agent b s (map fst first); g = agent_run a events (init_rates started first)
          in Some \<lparr>al_client = build_client a s, al_messages = ag_out g,
               al_exit = (if ag_main g = Exited then Some 0 else None)\<rparr>))"

section \<open>Two devices at one broker\<close>

definition own_topics :: "string \<Rightarrow> string set" where
  "own_topics d = {''homeassistant/device/'' @ d @ ''/config'', ''pi-telemetry/'' @ d @ ''/availability'',
     ''pi-telemetry/'' @ d @ ''/state''}"

lemma own_topics_disjoint:
  assumes "d \<noteq> d'"
  shows "own_topics d \<inter> own_topics d' = {}"
proof -
  have "d @ ''/availability'' \<noteq> d' @ ''/state''" for d d'
    using arg_cong [of "d @ ''/availability''" "d' @ ''/state''" last] by auto
  from this this [symmetric] assms show ?thesis by (simp add: own_topics_def)
qed

lemma own_messages:
  "m_topic ` insert (last_will a) (set (ag_out (agent_run a es r))) \<subseteq> own_topics (st_device_id (ac_settings a))"
proof -
  have "m_topic (discovery a) \<in> own_topics (st_device_id (ac_settings a))"
    "m_topic (availability a t) \<in> own_topics (st_device_id (ac_settings a))"
    "is_state a m \<Longrightarrow> m_topic m \<in> own_topics (st_device_id (ac_settings a))" for t m
    by (simp_all add: own_topics_def discovery_def availability_def availability_topic_def state_topic_def is_state_def)
  then have "m_topic m \<in> own_topics (st_device_id (ac_settings a))"
    if "m \<in> {discovery a, availability a ''online'', last_will a} \<or> is_state a m" for m
    using that by (auto simp: last_will_def)
  with agent_run_inv [of a es r] show ?thesis
    by (simp add: agent_inv_def list_all_iff image_subset_iff last_will_def)
qed

text \<open>Two devices never overwrite each other at the broker: two agents whose device identifiers
  differ, by the setting or by the host names, publish on disjoint sets of topics, their last
  wills included, and connect under different client identifiers.\<close>

lemma agents_keep_apart:
  assumes "agent_main ri b host env t0 cs es = Some l" and "agent_main ri' b' host' env' t0' cs' es' = Some l'"
    and "env_or ''TELEMETRY_'' env ''device_id'' host \<noteq> env_or ''TELEMETRY_'' env' ''device_id'' host'"
  shows "m_topic ` (insert (mq_will (al_client l)) (set (al_messages l))) \<inter>
      m_topic ` (insert (mq_will (al_client l')) (set (al_messages l'))) = {} \<and>
    mq_client_id (al_client l) \<noteq> mq_client_id (al_client l')"
proof -
  have own: "m_topic ` (insert (mq_will (al_client l)) (set (al_messages l))) \<subseteq> own_topics d \<and>
      mq_client_id (al_client l) = ''pi-telemetry-'' @ d"
    if run: "agent_main ri b host env t0 cs es = Some l" and d: "d = env_or ''TELEMETRY_'' env ''device_id'' host"
    for ri b host env t0 cs es l d
  proof -
    obtain s where s: "load_telemetry_settings ri host env = Some s"
        "l = \<lparr>al_client = build_client (make_agent b s (map fst cs)) s,
          al_messages = ag_out (agent_run (make_agent b s (map fst cs)) es (init_rates t0 cs)),
          al_exit = (if ag_main (agent_run (make_agent b s (map fst cs)) es (init_rates t0 cs)) = Exited then Some 0 else None)\<rparr>"
      using run by (auto simp: agent_main_def Let_def split: option.splits)
    have "st_device_id s = d" using s(1) d by (auto simp: load_telemetry_settings_def split: option.splits)
    then have "st_device_id (ac_settings (make_agent b s cs')) = d" for cs'
      by (simp add: make_agent_def settings.truncate_def Let_def)
    from this [of "map fst cs"] have "m_topic ` insert (mq_will (al_client l)) (set (al_messages l)) \<subseteq> own_topics d"
      using own_messages [of "make_agent b s (map fst cs)" es "init_rates t0 cs"] by (simp add: s(2) build_client_def)
    then show ?thesis using \<open>st_device_id s = d\<close> by (simp add: s(2) build_client_def)
  qed
  note l = own [OF assms(1) refl] and l' = own [OF assms(2) refl]
  have "A \<inter> B = {}" if "A \<subseteq> X" "B \<subseteq> Y" "X \<inter> Y = {}" for A B X Y :: "string set"
    using that by auto
  from this [OF conjunct1 [OF l] conjunct1 [OF l'] own_topics_disjoint [OF assms(3)]]
  show ?thesis using conjunct2 [OF l] conjunct2 [OF l'] assms(3) by simp
qed

definition telemetry_env :: environ where
  "telemetry_env = [(''TELEMETRY_MQTT_HOST'', ''192.168.2.201''), (''TELEMETRY_MQTT_USERNAME'', ''pi''),
     (''TELEMETRY_MQTT_PASSWORD'', ''pw'')]"

lemma agents_keep_apart_witness:
  "\<exists>l l'. agent_main (\<lambda>_. None) (ac_build test_agent) ''walnut'' telemetry_env 0 [] [Connack 0, Net idle_env, Signal] = Some l \<and>
     agent_main (\<lambda>_. None) (ac_build test_agent) ''zero'' telemetry_env 0 [] [Connack 0, Net idle_env, Signal] = Some l' \<and>
     m_topic ` set (al_messages l) \<inter> m_topic ` set (al_messages l') = {}"
proof -
  let ?ev = "[Connack 0, Net idle_env, Signal]"
  have "\<exists>s. load_telemetry_settings (\<lambda>_. None) host telemetry_env = Some s" for host
  proof -
    have "env_value ''TELEMETRY_'' telemetry_env f = (if f = ''mqtt_host'' then Some ''192.168.2.201'' else
        if f = ''mqtt_username'' then Some ''pi'' else if f = ''mqtt_password'' then Some ''pw'' else None)" for f
      by (simp add: env_value_def telemetry_env_def lower_names)
    then show ?thesis by (simp add: load_telemetry_settings_def env_int_def)
  qed
  then obtain l l' where l: "agent_main (\<lambda>_. None) (ac_build test_agent) ''walnut'' telemetry_env 0 [] ?ev = Some l"
      "agent_main (\<lambda>_. None) (ac_build test_agent) ''zero'' telemetry_env 0 [] ?ev = Some l'"
    unfolding agent_main_def Let_def by (metis option.simps(5))
  have "env_or ''TELEMETRY_'' telemetry_env ''device_id'' ''walnut'' \<noteq> env_or ''TELEMETRY_'' telemetry_env ''device_id'' ''zero''"
    by (simp add: env_or_def env_value_def telemetry_env_def lower_names)
  from agents_keep_apart [OF l this] l show ?thesis by blast
qed

end
