(* ===== verification/Session.thy ===== *)
theory Session
  imports App Settings
begin

text \<open>
  The session of a request: what the session middleware that src/app/main.py configures reads from
  the cookie that a browser sends, and what a site of somebody else can do with the browser of a
  user who is signed in.  The signature of the cookie is a parameter (\<open>unseal\<close>); which requests
  carry a cookie is the rule of the \<open>SameSite\<close> and \<open>Secure\<close> attributes.
\<close>

section \<open>The cookie\<close>

datatype same_site = Strict | Lax | None_Site

record session_policy =
  sp_key :: string
  sp_same_site :: same_site
  sp_https_only :: bool

definition session_middleware :: "app_settings \<Rightarrow> session_policy" where
  "session_middleware s = \<lparr>sp_key = session_secret s, sp_same_site = Lax, sp_https_only = True\<rparr>"

record visit =
  vi_same_site :: bool         \<comment> \<open>the request comes from a page of this site\<close>
  vi_navigation :: bool        \<comment> \<open>it opens a page, as a link or a redirect does\<close>
  vi_tls :: bool
  vi_cookie :: "string option" \<comment> \<open>what the browser stores for this site\<close>

definition safe_methods :: "string list" where
  "safe_methods = [''GET'', ''HEAD'', ''OPTIONS'', ''TRACE'']"

definition cookie_sent :: "session_policy \<Rightarrow> visit \<Rightarrow> string \<Rightarrow> string option" where
  "cookie_sent sp v meth =
     (if (sp_https_only sp \<longrightarrow> vi_tls v) \<and>
         (case sp_same_site sp of
            Strict \<Rightarrow> vi_same_site v
          | Lax \<Rightarrow> vi_same_site v \<or> vi_navigation v \<and> meth \<in> set safe_methods
          | None_Site \<Rightarrow> True)
      then vi_cookie v else None)"

definition session_read :: "(string \<Rightarrow> string \<Rightarrow> jdict option) \<Rightarrow> session_policy \<Rightarrow> string option \<Rightarrow> jdict" where
  \<comment> \<open>a bad signature is an empty session\<close>
  "session_read unseal sp cookie =
     (case cookie of None \<Rightarrow> [] | Some c \<Rightarrow> (case unseal (sp_key sp) c of None \<Rightarrow> [] | Some s \<Rightarrow> s))"

definition visited :: "(string \<Rightarrow> string \<Rightarrow> jdict option) \<Rightarrow> session_policy \<Rightarrow> visit \<times> ('x, 'p, 'l) http \<Rightarrow> ('x, 'p, 'l) http" where
  "visited unseal sp vq = (snd vq)\<lparr>ht_session :=
     session_read unseal sp (cookie_sent sp (fst vq) (ht_method (snd vq)))\<rparr>"

text \<open>The provider's redirect to \<open>/auth/callback\<close> keeps the session that \<open>/auth/login\<close> has begun;
  with \<open>Strict\<close> it would be lost.\<close>

lemma callback_has_session:
  assumes "\<not> vi_same_site v" "vi_navigation v" "vi_tls v" "vi_cookie v = Some c"
  shows "cookie_sent (session_middleware s) v ''GET'' = Some c"
    and "cookie_sent ((session_middleware s)\<lparr>sp_same_site := Strict\<rparr>) v ''GET'' = None"
  using assms by (simp_all add: cookie_sent_def session_middleware_def safe_methods_def)

text \<open>With the template of the settings as it is shipped the key is empty, and a session that anybody
  has sealed is accepted.\<close>

lemma template_session_forged:
  assumes "load_app_settings sso_env_example = Some s" and "\<And>k x. unseal k (seal k x) = Some x"
  shows "session_read unseal (session_middleware s) (Some (seal [] session)) = session"
  using template_has_no_key assms by (simp add: session_read_def session_middleware_def)

section \<open>Endpoints that only read\<close>

definition status_argv :: "string list \<Rightarrow> bool" where
  "status_argv argv \<longleftrightarrow> argv = [''wg'', ''show'', ''all'', ''dump''] \<or>
     (\<exists>n. argv = [''systemctl'', ''is-active'', unit_name n])"

definition spares_wg :: "'x host wgapp \<Rightarrow> 'x host wgapp \<Rightarrow> bool" where
  "spares_wg s s' \<longleftrightarrow> wa_meta s' = wa_meta s \<and> touches (\<lambda>_. False) status_argv (wa_world s) (wa_world s')"

definition query_argv :: "string list \<Rightarrow> bool" where
  \<comment> \<open>the command lines of the two endpoints that list: the saved profiles, the name of one, and the
      networks in reach, which asks for a new scan\<close>
  "query_argv argv \<longleftrightarrow> argv = [''nmcli'', ''-t'', ''-f'', ''NAME,TYPE'', ''connection'', ''show''] \<or>
     (\<exists>n. argv = [''nmcli'', ''-t'', ''-f'', ''802-11-wireless.ssid'', ''connection'', ''show'', n]) \<or>
     argv = [''nmcli'', ''-t'', ''-f'', ''SSID,SIGNAL,SECURITY'', ''device'', ''wifi'', ''list'', ''--rescan'', ''yes'']"

definition queried :: "'p exec set \<Rightarrow> 'p \<Rightarrow> 'p \<Rightarrow> bool" where
  \<comment> \<open>what became of the programs' state is the work of such command lines alone\<close>
  "queried E w w' \<longleftrightarrow> (\<exists>runs. list_all (\<lambda>(exec, argv). exec \<in> E \<and> query_argv argv) runs \<and>
     w' = fold (\<lambda>(exec, argv) w. snd (exec argv w)) runs w)"

definition spares :: "'p exec set \<Rightarrow> ('x, 'p, 'l) device \<Rightarrow> ('x, 'p, 'l) device \<Rightarrow> bool" where
  \<comment> \<open>all of the device is as before but for what the monitor measures, and the programs that were
      started were listings and status queries\<close>
  "spares E d d' \<longleftrightarrow> queried E (dv_programs d) (dv_programs d') \<and> dv_kernel d' = dv_kernel d \<and>
     dv_alert d' = dv_alert d \<and> spares_wg (dv_wg d) (dv_wg d')"

interpretation spare_wg: frame_rel spares_wg
proof
  show "spares_wg s s" for s :: "'x host wgapp"
    by (simp add: spares_wg_def touch.frame_refl)
next
  show "spares_wg s t \<Longrightarrow> spares_wg t u \<Longrightarrow> spares_wg s u" for s t u :: "'x host wgapp"
    unfolding spares_wg_def using touch.frame_trans by auto
qed

interpretation query: frame_rel "queried E" for E :: "'p exec set"
proof
  show "queried E w w" for w :: 'p
    unfolding queried_def by (intro exI [of _ "[]"]) simp
next
  fix u v w :: 'p
  assume "queried E u v" "queried E v w"
  then obtain r1 r2 where "list_all (\<lambda>(exec, argv). exec \<in> E \<and> query_argv argv) (r1 @ r2)"
      "w = fold (\<lambda>(exec, argv) w. snd (exec argv w)) (r1 @ r2) u"
    by (auto simp: queried_def)
  then show "queried E u w" unfolding queried_def by blast
qed

interpretation spare: frame_rel "spares E" for E :: "'p exec set"
proof
  show "spares E d d" for d :: "('x, 'p, 'l) device"
    by (simp add: spares_def spare_wg.frame_refl query.frame_refl)
next
  show "spares E d t \<Longrightarrow> spares E t u \<Longrightarrow> spares E d u" for d t u :: "('x, 'p, 'l) device"
    unfolding spares_def using spare_wg.frame_trans query.frame_trans by auto
qed

definition only_reads :: "('x, 'p, 'l) surroundings \<Rightarrow> bool" where
  \<comment> \<open>the dumps of routes and links over netlink change nothing, and the socket of the helper leads to
      the helper\<close>
  "only_reads rq \<longleftrightarrow>
     (\<forall>t w. snd (nl_get_routes (rq_netlink rq) t w) = w) \<and>
     (\<forall>i w. snd (nl_get_links (rq_netlink rq) i w) = w) \<and>
     (\<exists>henv uid. we_send (rq_wg rq) = daemon_send henv (Some uid) uid)"

definition unchanged :: "('s, 'e, 'a) op \<Rightarrow> bool" where
  "unchanged m \<longleftrightarrow> (\<forall>s. snd (m s) = s)"

lemma unchanged_bind: "unchanged m \<Longrightarrow> (\<And>x. unchanged (f x)) \<Longrightarrow> unchanged (bindm m f)"
  by (auto simp: unchanged_def bindm_def split: prod.split sum.split) (metis snd_conv)+

lemma unchanged_simple: "unchanged (ret x)" "unchanged (raise e)" "unchanged (liftr r)" "unchanged (assertm b e)"
  by (simp_all add: unchanged_def op_defs assertm_def split: sum.split)

lemma unchanged_if: "unchanged a \<Longrightarrow> unchanged b \<Longrightarrow> unchanged (if c then a else b)"
  by simp

lemmas unchanged_rules = unchanged_bind unchanged_simple unchanged_if

lemma queried_nmcli:
  assumes "exec \<in> E" and "query_argv (''nmcli'' # args)"
  shows "keeps (queried E) (run_nmcli exec args)"
proof -
  have "queried E w (snd (exec (''nmcli'' # args) w))" for w
    unfolding queried_def by (intro exI [of _ "[(exec, ''nmcli'' # args)]"]) (simp add: assms)
  then have "keeps (queried E) (start exec (''nmcli'' # args))"
    by (auto simp: keeps_def start_def split: prod.split option.split) (metis snd_conv)+
  then show ?thesis
    unfolding run_nmcli_def
    by (intro query.keeps_bind) (auto simp: log_extra_def query.keeps_assert query.keeps_raise query.keeps_ret
        intro!: query.keeps_bind split: prod.split)
qed

lemma queried_known:
  assumes "exec \<in> E"
  shows "keeps (queried E) (list_known_wifi exec)"
proof -
  have "keeps (queried E) (known_rows exec rows)" for rows
    by (induction rows)
      (auto simp: Let_def query_argv_def intro!: query.keeps_bind query.keeps_ret query.keeps_raise
        queried_nmcli [OF assms] split: list.split)
  then show ?thesis
    unfolding list_known_wifi_def by (intro query.keeps_bind queried_nmcli [OF assms]) (simp add: query_argv_def)
qed

lemma queried_scan: "exec \<in> E \<Longrightarrow> keeps (queried E) (scan_wifi exec)"
  unfolding scan_wifi_def
  by (intro query.keeps_bind query.keeps_lift query.keeps_ret queried_nmcli) (simp_all add: query_argv_def)

lemma unchanged_routes:
  assumes "\<forall>t w. snd (nl_get_routes ipr t w) = w" and "\<forall>i w. snd (nl_get_links ipr i w) = w"
  shows "unchanged (list_routes ipr t)"
proof -
  have "unchanged (route_rows ipr table rs)" for table rs
    by (induction rs) (use assms(2) in \<open>auto intro!: unchanged_rules simp: unchanged_def [of "nl_get_links _ _"]\<close>)
  then have "unchanged (list_routes_sync ipr table)" for table
    unfolding list_routes_sync_def using assms(1) by (intro unchanged_bind) (simp_all add: unchanged_def)
  then show ?thesis
    by (auto simp: list_routes_def uncaught_def unchanged_def split: prod.split sum.split nlexn.split) (metis snd_conv)+
qed

section \<open>Status requests to the helper\<close>

lemma status_entries: "keeps (touches P status_argv) (tunnel_entries env live ts)"
proof (induction ts)
  case (Cons t ts)
  then show ?case
    by (auto intro!: touch_helper simp: status_argv_def split: prod.splits exn.splits)
qed (simp add: touch_rules)

lemma status_quiet: "keeps (touches P status_argv) (cmd_tunnel_status env req)"
  unfolding cmd_tunnel_status_def
  by (auto intro!: touch_helper status_entries simp: status_argv_def split: prod.splits)

lemma status_sparing:
  assumes "send = daemon_send henv (Some uid) uid"
  shows "keeps (touches (\<lambda>_. False) status_argv) (client_tunnel_status send name)"
proof -
  have d: "helper_dispatch ''tunnel_status'' = Some (cmd_tunnel_status :: 'a env \<Rightarrow> jdict \<Rightarrow> ('a, jdict) hop)"
    by (simp add: helper_dispatch_def)
  have p: "plain_json (JObj ((''cmd'', JStr ''tunnel_status'') # [(''name'', opt_str name)]))"
    by (simp add: opt_str_def split: option.split)
  have q: "touches (\<lambda>_. False) status_argv h (snd (cmd_tunnel_status henv req h))" for h req
    using status_quiet unfolding keeps_def by blast
  show ?thesis
    unfolding client_tunnel_status_def assms keeps_def
    by (intro allI daemon_call_keeps [where P = "touches (\<lambda>_. False) status_argv h" for h, OF p d q touch.frame_refl])
qed

lemma status_on_world: "keeps (touches (\<lambda>_. False) status_argv) m \<Longrightarrow> keeps spares_wg (on_world m)"
  by (auto simp: keeps_def spares_wg_def on_world_def split: prod.splits) (metis snd_conv)

lemma spare_load: "keeps spares_wg load_metadata"
  by (simp add: keeps_def load_metadata_def spare_wg.frame_refl)

lemma spare_handlers:
  assumes "we_send env = daemon_send henv (Some uid) uid"
  shows "keeps spares_wg (list_tunnels env)" "keeps spares_wg (list_peers env name)"
    "keeps spares_wg (status_snapshot env)"
proof -
  note call = status_on_world [OF status_sparing [OF assms]]
  note rules = spare_wg.keeps_bind spare_wg.keeps_lift spare_wg.keeps_ret spare_load call
  show "keeps spares_wg (list_tunnels env)" unfolding list_tunnels_def by (intro rules)
  show "keeps spares_wg (list_peers env name)" unfolding list_peers_def by (intro rules)
  show "keeps spares_wg (status_snapshot env)" unfolding status_snapshot_def by (intro rules)
qed

section \<open>Requests from elsewhere\<close>

lemma spare_parts:
  "keeps spares_wg m \<Longrightarrow> keeps (spares E) (on_wg m)" "keeps (queried E) m' \<Longrightarrow> keeps (spares E) (on_programs m')"
  "unchanged m'' \<Longrightarrow> keeps (spares E) (on_kernel m'')" "keeps (spares E) (on_monitor m3)"
  by (auto simp: keeps_def spares_def unchanged_def on_wg_def on_programs_def on_kernel_def on_monitor_def
      spare_wg.frame_refl query.frame_refl split: prod.splits) (metis snd_conv)+

lemma spare_answer: "keeps (spares E) m \<Longrightarrow> keeps (spares E) (answer_as st f m)"
  unfolding answer_as_def by (intro spare.keeps_bind spare.keeps_ret)

lemma spare_body: "(\<And>p. keeps (spares E) (f p)) \<Longrightarrow> keeps (spares E) (with_body r f)"
  by (simp add: with_body_def spare.keeps_raise split: reading.split)

definition reader :: "endpoint \<Rightarrow> bool" where
  "reader e \<longleftrightarrow> (case e of List_Interfaces \<Rightarrow> True | List_Known_Wifi \<Rightarrow> True | Scan_Wifi \<Rightarrow> True | List_Routes \<Rightarrow> True
     | Stats \<Rightarrow> True | List_Tunnels \<Rightarrow> True | List_Peers _ \<Rightarrow> True | Status_Snapshot \<Rightarrow> True | _ \<Rightarrow> False)"

lemma safe_endpoints: "endpoint meth path = Some e \<Longrightarrow> meth \<in> set safe_methods \<Longrightarrow> reader e"
  by (auto simp: endpoint_def endpoint_tables tunnel_endpoint_def safe_methods_def reader_def
      split: if_splits option.splits list.splits)

lemma reader_spares:
  assumes "only_reads rq" and "reader e" and "rq_exec rq \<in> E"
  shows "keeps (spares E) (run_endpoint rq b e user)"
proof -
  obtain henv uid where send: "we_send (rq_wg rq) = daemon_send henv (Some uid) uid"
    and r: "\<forall>t w. snd (nl_get_routes (rq_netlink rq) t w) = w" "\<forall>i w. snd (nl_get_links (rq_netlink rq) i w) = w"
    using assms(1) unfolding only_reads_def by blast
  have send': "we_send ((rq_wg rq)\<lparr>we_sub := u\<rparr>) = daemon_send henv (Some uid) uid" for u using send by simp
  have stats: "keeps (spares E) (\<lambda>d. answer_as 200 AStats (on_monitor (m d)) d)" for m
    using spare_answer [OF spare_parts(4)] unfolding keeps_def by blast
  show ?thesis
    using assms(2) unfolding run_endpoint_def Let_def reader_def
    by (cases e) (simp_all add: stats spare.keeps_ret spare_body spare_answer spare_parts spare_handlers [OF send']
        queried_known [OF assms(3)] queried_scan [OF assms(3)] unchanged_routes [OF r])
qed

section \<open>The session\<close>

lemma user_page_session: "fst (snd (user_page si name s)) = fst s"
  by (simp add: user_page_state)

lemma api_route_session: "fst (snd (api_route h s)) = fst s"
  by (auto simp: api_route_def bindm_def current_user_def split: prod.split sum.split)

lemma serve_session:
  assumes "path \<notin> set auth_paths"
  shows "fst (snd (serve si meth path s)) = fst s"
proof -
  have "fst (snd (route si meth path s)) = fst s"
    unfolding route_protected [OF assms]
    by (auto simp: user_page_session api_route_session ret_def split: option.split)
  then show ?thesis by (auto simp: serve_def split: prod.split sum.split)
qed

text \<open>What another site can do is to sign the user out: a link to \<open>/auth/logout\<close> carries the cookie, and
  the session that is stored after it is empty, unless an exception that is not foreseen keeps it.\<close>

lemma other_site_signs_out:
  assumes "\<not> vi_same_site v" and "vi_navigation v" and "vi_tls v" and "vi_cookie v = Some c"
    and "unseal (session_secret s) c = Some session"
    and "ht_method q = ''GET''" and "ht_path q = ''/auth/logout''"
    and "\<And>i. \<exists>r i'. fr_metadata fr ([], i) = (r, [], i') \<and> (\<forall>e. r \<noteq> Inl (Other_IdP e))"
    and "\<And>name ctx. \<exists>t. fr_render fr name ctx = Inr t"
  shows "ht_session (visited unseal (session_middleware s) (v, q)) = session"
    and "fst (snd (answer_request fr (visited unseal (session_middleware s) (v, q)) w)) = []"
proof -
  show "ht_session (visited unseal (session_middleware s) (v, q)) = session"
    using assms(1-6) by (simp add: visited_def session_read_def cookie_sent_def session_middleware_def safe_methods_def)
  obtain r i' where m: "fr_metadata fr ([], snd w) = (r, [], i')" "\<forall>e. r \<noteq> Inl (Other_IdP e)"
    using assms(8) [of "snd w"] by auto
  let ?q = "visited unseal (session_middleware s) (v, q)"
  let ?si = "device_site (ht_around ?q) (ht_bodies ?q) fr"
  have p: "ht_method ?q = ''GET''" "ht_path ?q = ''/auth/logout''" using assms(6,7) by (simp_all add: visited_def)
  have "\<exists>x. logout ?si (ht_session ?q, w) = (Inr x, [], fst w, i')"
    using m assms(9)
    by (cases r) (auto simp: logout_def device_site_def beside_def Let_def page_def error_page_def template_def
        split: idp_exn.split sum.split; metis sum.distinct(1))+
  then show "fst (snd (answer_request fr ?q w)) = []"
    by (auto simp: answer_request_def serve_def route_def p)
qed

text \<open>C8: another site that acts through a user's browser can only read and sign out: whatever cookie the
  browser holds, requests that come from pages of other sites leave the device as it is.  They
  carry no session, so nothing runs, or they open a page with a method that only reads: the
  metadata, the rollback alert and the routes are the same, no file of the helper changes, it
  has started nothing but status queries, and of nmcli nothing was started but the listings of the
  saved profiles and of the networks in reach (which asks for a scan).  The session they come with is
  unchanged as well, except on the three sign-in routes.\<close>

theorem other_sites_only_read:
  assumes "\<forall>(v, q)\<in>set vqs. \<not> vi_same_site v \<and> only_reads (ht_around q)"
  shows "spares ((\<lambda>(v, q). rq_exec (ht_around q)) ` set vqs) (fst w)
      (fst (answer_all fr (map (visited unseal (session_middleware s)) vqs) w)) \<and>
    (\<forall>(v, q)\<in>set vqs. ht_path q \<notin> set auth_paths \<longrightarrow>
      (\<forall>w'. fst (snd (answer_request fr (visited unseal (session_middleware s) (v, q)) w')) =
         ht_session (visited unseal (session_middleware s) (v, q))))"
proof
  let ?E = "((\<lambda>(v, q). rq_exec (ht_around q)) ` set vqs)"
  have "spares ?E (fst w) (fst (answer_all fr (map (visited unseal (session_middleware s)) ps) w))"
    if "set ps \<subseteq> set vqs" for ps
    using that
  proof (induction ps arbitrary: w)
    case Nil
    then show ?case by (simp add: answer_all_def spare.frame_refl)
  next
    case (Cons vq ps)
    obtain v q where vq: "vq = (v, q)" by (cases vq)
    let ?q = "visited unseal (session_middleware s) vq"
    have mem: "(v, q) \<in> set vqs" using Cons.prems vq by simp
    then have v: "\<not> vi_same_site v" "only_reads (ht_around q)" "rq_exec (ht_around q) \<in> ?E" using assms by auto
    have "spares ?E (fst w) (snd (run_endpoint (ht_around q) b e user (fst w)))"
      if "truthy (jget (ht_session ?q) ''user'')" "endpoint (ht_method q) (ht_path q) = Some e" for b e user
    proof -
      have "ht_method q \<in> set safe_methods"
        using that(1) v(1) vq
        by (auto simp: visited_def session_read_def cookie_sent_def session_middleware_def jget_def split: if_splits)
      with that(2) have "reader e" by (rule safe_endpoints)
      then show ?thesis using reader_spares [OF v(2) _ v(3), of e b user] by (simp add: keeps_def)
    qed
    then have "spares ?E (fst w) (fst (snd (snd (answer_request fr ?q w))))"
      by (auto simp: answer_request_def serve_world route_device visited_def vq spare.frame_refl split: option.split)
    then show ?case
      using Cons.IH [of "snd (snd (answer_request fr ?q w))"] Cons.prems
      by (auto simp: answer_all_def intro: spare.frame_trans)
  qed
  then show "spares ?E (fst w) (fst (answer_all fr (map (visited unseal (session_middleware s)) vqs) w))" by blast
  show "\<forall>(v, q)\<in>set vqs. ht_path q \<notin> set auth_paths \<longrightarrow>
      (\<forall>w'. fst (snd (answer_request fr (visited unseal (session_middleware s) (v, q)) w')) =
         ht_session (visited unseal (session_middleware s) (v, q)))"
    by (auto simp: answer_request_def serve_session visited_def)
qed

theorem other_sites_only_read_witness:
  "\<exists>s. load_app_settings sso_env_example = Some s \<and>
    spares {rq_exec calm_around} calm_device (fst (answer_all calm_frame (map (visited (\<lambda>_ _. Some admin_session) (session_middleware s))
      [(\<lparr>vi_same_site = False, vi_navigation = True, vi_tls = True, vi_cookie = Some ''c''\<rparr>,
          request ''POST'' ''/api/wireguard/tunnels'' (no_bodies\<lparr>bd_tunnel := Body payload_a\<rparr>) []),
       (\<lparr>vi_same_site = False, vi_navigation = True, vi_tls = True, vi_cookie = Some ''c''\<rparr>,
          request ''GET'' ''/api/wireguard/tunnels'' no_bodies [])]) (calm_device, ())))"
proof -
  let ?v = "\<lparr>vi_same_site = False, vi_navigation = True, vi_tls = True, vi_cookie = Some ''c''\<rparr>"
  let ?vqs = "[(?v, request ''POST'' ''/api/wireguard/tunnels'' (no_bodies\<lparr>bd_tunnel := Body payload_a\<rparr>) []),
    (?v, request ''GET'' ''/api/wireguard/tunnels'' no_bodies [])]"
  obtain s where s: "load_app_settings sso_env_example = Some s" using template_has_no_key by auto
  have "only_reads calm_around"
    by (auto simp: only_reads_def calm_around_def web_env_def ret_def)
  then have "\<forall>(v, q)\<in>set ?vqs. \<not> vi_same_site v \<and> only_reads (ht_around q)"
    by (simp add: request_def)
  note x = other_sites_only_read [THEN conjunct1, OF this, of "(calm_device, ())" calm_frame "\<lambda>_ _. Some admin_session" s]
  then show ?thesis using s x by (intro exI [of _ s] conjI) (simp_all add: request_def)
qed

end
