(* ===== verification/Health.thy ===== *)
theory Health
  imports Monitor Telemetry
begin

text \<open>
  The two reports on one device.  src/app/metrics.py exists so that the dashboard
  (src/app/monitor.py) and the telemetry agent (src/app/telemetry.py), which are two processes, report
  the same numbers: the figures they share come from the same collectors, and the length of the
  last outage goes through the state file that the heartbeat writes and the agent reads.
\<close>

section \<open>The life of the application's process\<close>

text \<open>The heartbeat is a task of the application: it begins with the process and is cancelled when the
  server stops, between two beats, since a beat does not wait for anything.\<close>

definition lifespan :: "(string \<Rightarrow> aexn + dt) \<Rightarrow> beat list \<Rightarrow> json_file \<Rightarrow> json_file" where
  "lifespan other beats f = mo_file (heartbeat_loop other (map Beat beats) (start_monitor f))"

lemma lifespans_are_restarts:
  "fold (lifespan other) bss f =
   mo_file (heartbeat_loop other (concat (map (\<lambda>bs. Restart # map Beat bs) bss)) (start_monitor f))"
proof -
  have "fold (lifespan other) bss (mo_file m) =
      mo_file (heartbeat_loop other (concat (map (\<lambda>bs. Restart # map Beat bs) bss)) m)" for m
    by (induction bss arbitrary: m) (simp_all add: lifespan_def heartbeat_loop_def)
  from this [of "start_monitor f"] show ?thesis by (simp add: start_monitor_def)
qed

section \<open>Keys of the state document\<close>

lemma pget_updates: "k \<notin> fst ` set kvs \<Longrightarrow> pget (updates kvs d) k = pget d k"
  by (induction kvs arbitrary: d) (auto simp: updates_Cons pget_update)

lemma iface_key_ends:
  assumes "k \<in> fst ` set (concat (map (iface_values rows) interfaces))"
  shows "last k \<in> {CHR ''t'', CHR ''v'', CHR ''e''}"
  using assms by (auto simp: iface_values_def Let_def)

lemma collected_figures:
  assumes "collect c interfaces rates = (Inr payload, rates')" and "load_state (ce_state c) = Inr (PDict state)"
  shows "pget payload ''last_downtime_seconds'' = pget state ''last_downtime_seconds''"
    and "pget payload ''cpu_temp_c'' = round_opt 1 (cpu_temp_c (ce_zones c))"
    and "pget payload ''uptime_seconds'' = round_opt 0 (uptime_seconds (ce_uptime c))"
proof -
  obtain rows where p: "payload = updates (concat (map (iface_values rows) interfaces)) (device_values c state)"
    using assms by (auto simp: collect_def op_defs split: prod.splits)
  have other: "k \<notin> fst ` set (concat (map (iface_values rows) interfaces))"
    if "last k \<notin> {CHR ''t'', CHR ''v'', CHR ''e''}" for k
    using iface_key_ends [of k rows interfaces] that by blast
  have "pget payload ''last_downtime_seconds'' = pget (device_values c state) ''last_downtime_seconds''"
    "pget payload ''cpu_temp_c'' = pget (device_values c state) ''cpu_temp_c''"
    "pget payload ''uptime_seconds'' = pget (device_values c state) ''uptime_seconds''"
    unfolding p by (intro pget_updates other, simp)+
  then show "pget payload ''last_downtime_seconds'' = pget state ''last_downtime_seconds''"
    "pget payload ''cpu_temp_c'' = round_opt 1 (cpu_temp_c (ce_zones c))"
    "pget payload ''uptime_seconds'' = round_opt 0 (uptime_seconds (ce_uptime c))"
    by (simp_all add: device_values_def pget_def)
qed

lemma collect_returns:
  "load_state (ce_state c) = Inr (PDict state) \<Longrightarrow> \<exists>payload rates'. collect c interfaces rates = (Inr payload, rates')"
  by (cases "sample (ce_now c) (ce_counters c) rates") (simp add: collect_def op_defs)

lemma dashboard_figures:
  assumes "stats e s = (Inr report, s')"
  shows "sr_last_downtime_seconds report = ms_downtime s" and "sr_cpu_temp_c report = cpu_temp_c (se_zones e)"
    and "sr_uptime_seconds report = uptime_seconds (se_uptime e)"
  using assms by (auto simp: stats_def split: prod.splits sum.splits)

lemma stats_returns:
  "load_rollback_alert (se_alert e) = Inr a \<Longrightarrow> \<exists>report s'. stats e s = (Inr report, s')"
  by (cases "sample (se_now e) (se_counters e) (ms_rates s)"; cases "top_processes (se_procs e) (ms_procs s)")
    (auto simp: stats_def split: prod.split)

section \<open>Agreement\<close>

text \<open>C30: the dashboard and the agent report the same: on a device whose heartbeat has saved its record,
  through any beats, reboots and restarts of the application, once the application has compared the
  boot times the agent's outage figure is the one the dashboard shows; and at one moment its
  temperature and uptime are the dashboard's, rounded, whatever interfaces it reports beside
  them.\<close>

theorem reports_agree:
  fixes other :: "string \<Rightarrow> aexn + dt"
  assumes "boot_stable None es" and "list_all sound_event es"
    and "mo_done (heartbeat_loop other es (start_monitor NoFile))"
    and "stats e s = (Inr report, s')"
    and "ms_downtime s = mo_downtime (heartbeat_loop other es (start_monitor NoFile))"
    and "collect c interfaces rates = (Inr payload, rates')"
    and "ce_state c = mo_file (heartbeat_loop other es (start_monitor NoFile))"
    and "ce_zones c = se_zones e" and "ce_uptime c = se_uptime e"
  shows "pget payload ''last_downtime_seconds'' = sr_last_downtime_seconds report \<and>
    pget payload ''cpu_temp_c'' = round_opt 1 (sr_cpu_temp_c report) \<and>
    pget payload ''uptime_seconds'' = round_opt 0 (sr_uptime_seconds report)"
proof -
  let ?m = "heartbeat_loop other es (start_monitor NoFile)"
  let ?h = "fold history_event es no_history"
  have "monitor_shows None (start_monitor NoFile) no_history"
    by (simp add: monitor_shows_def start_monitor_def no_history_def file_shows_def)
  from loop_shows [OF this assms(1,2), of other] obtain b where
    m: "file_shows (mo_file ?m) ?h" "mo_downtime ?m = num_opt (hi_outage ?h)" "hi_last ?h \<noteq> None"
    using assms(3) by (auto simp: monitor_shows_def)
  from m(1,3) obtain state where st: "mo_file ?m = Holds (PDict state)"
      "pget state ''last_downtime_seconds'' = num_opt (hi_outage ?h)"
    by (auto simp: file_shows_def)
  have "load_state (ce_state c) = Inr (PDict state)"
    using st(1) assms(7) by (simp add: load_state_def)
  note agent = collected_figures [OF assms(6) this] and web = dashboard_figures [OF assms(4)]
  show ?thesis
    unfolding agent web using st(2) m(2) assms(5,8,9) by simp
qed

text \<open>Before that, after a restart of the application on a device whose clock is not synchronised yet,
  the two differ: the dashboard shows no figure, the agent the one in the file.\<close>

lemma reports_differ_before_comparison:
  "let m = heartbeat_loop other [beat_at 100 1, Restart, beat_at 200 30, Restart] (start_monitor NoFile)
   in mo_downtime m = PNone \<and>
      (\<exists>state. load_state (mo_file m) = Inr (PDict state) \<and> pget state ''last_downtime_seconds'' = PNum 29)"
  by (simp add: heartbeat_loop_def beat_at_def heartbeat_tick_def compare_boot_def
      set_downtime_def load_state_def save_state_def op_defs Let_def fromisoformat_def read_iso_isoformat
      pget_def noon_valid noon_diff start_monitor_def)

definition calm_stats :: stats_env where
  "calm_stats = \<lparr>se_now = 0, se_counters = [], se_mem_percent = 0, se_disk_percent = 0,
     se_cpu_percent = 0, se_procs = \<lparr>pe_live = [], pe_opens = (\<lambda>_. False), pe_reads = (\<lambda>_. None)\<rparr>,
     se_zones = [], se_uptime = None, se_alert = NoFile\<rparr>"

theorem reports_agree_witness:
  "\<exists>payload rates'. collect (idle_env\<lparr>ce_state := mo_file (heartbeat_loop no_other [beat_at 100 1, Restart, beat_at 200 30]
       (start_monitor NoFile))\<rparr>) [''wlan0''] (init_rates 0 []) = (Inr payload, rates') \<and>
     pget payload ''last_downtime_seconds'' = PNum 29"
proof -
  let ?es = "[beat_at 100 1, Restart, beat_at 200 30]"
  let ?m = "heartbeat_loop no_other ?es (start_monitor NoFile)"
  let ?s = "\<lparr>ms_rates = init_rates 0 [], ms_procs = [], ms_downtime = mo_downtime ?m\<rparr>"
  let ?c = "idle_env\<lparr>ce_state := mo_file ?m\<rparr>"
  have es: "boot_stable None ?es" "list_all sound_event ?es"
    by (simp_all add: beat_at_def noon_valid)
  have m: "mo_done ?m" "mo_downtime ?m = PNum 29" "\<exists>d. load_state (mo_file ?m) = Inr (PDict d)"
    by (simp_all add: heartbeat_loop_def beat_at_def heartbeat_tick_def compare_boot_def
      set_downtime_def load_state_def save_state_def op_defs Let_def fromisoformat_def read_iso_isoformat
      pget_def noon_valid noon_diff start_monitor_def)
  from m(3) obtain d where "load_state (ce_state ?c) = Inr (PDict d)" by auto
  from collect_returns [OF this, of "[''wlan0'']" "init_rates 0 []"] obtain payload rates'
    where c: "collect ?c [''wlan0''] (init_rates 0 []) = (Inr payload, rates')" by (elim exE)
  have "load_rollback_alert (se_alert calm_stats) = Inr PNone"
    by (simp add: calm_stats_def load_rollback_alert_def)
  from stats_returns [OF this, of ?s] obtain report s' where r: "stats calm_stats ?s = (Inr report, s')"
    by (elim exE)
  have "sr_last_downtime_seconds report = PNum 29" using dashboard_figures(1) [OF r] m(2) by simp
  then show ?thesis
    using reports_agree [OF es m(1) r _ c] c by (simp add: calm_stats_def idle_env_def)
qed

end
