(* ===== verification/Spec2Isabelle.thy ===== *)
theory Spec2Isabelle
  imports HelperGaps Startup EndToEnd StatusTypes NetworkProps Routing Web Monitor Telemetry
    KeyFiles Races Turns App Overlap Settings Session Health Sampling Agent
begin

text \<open>
  Keekar's Pi VPN: a web application that configures a small device (network, Wi-Fi, static routes,
  WireGuard tunnels and their peers), a helper daemon that runs as root and owns the tunnels'
  configuration files, and an agent that publishes the device's health over MQTT.  This
  development models the Python code of all three.

  \<^bold>\<open>The program and its model.\<close>  The application (src/app) runs without privileges.  Its WireGuard
  handlers keep a metadata file of tunnels and peers and send one JSON object per line over a
  socket to the daemon (src/deploy/pi-wg-helperd/helper.py), which validates the request, rewrites
  /etc/wireguard/NAME.conf and starts wg and systemctl.  Network and power endpoints start
  nmcli and systemctl directly, routes go to the kernel through pyroute2, users sign in with an
  external provider.  A background task of the application records outages in a state file, which
  the agent, a process of its own, only reads.

  Python code with effects is an operation \<open>'s \<Rightarrow> ('e + 'a) \<times> 's\<close> (\<open>Prelude\<close>): an exception is
  \<open>Inl\<close>, and the state is the one at the moment it is raised.  Definitions follow the order of the
  statements and have the names of the functions they model, without a leading underscore.

  \<^item> Foundations.  \<open>Prelude\<close>: operations and the calculus of frame conditions, the locale
    \<open>frame_rel\<close>, interpreted for each frame that is proved.  \<open>PyText\<close>: Python's \<open>str\<close>.  \<open>PyRegex\<close>: a
    backtracking matcher for the patterns in use, with proofs of what they accept.  \<open>IpAddr\<close>,
    \<open>IpFacts\<close>: the part of \<open>ipaddress\<close> in use, networks as intervals, round trips.  \<open>Json\<close>,
    \<open>JsonFacts\<close>: JSON values, \<open>dumps\<close> and \<open>loads\<close> and their round trip.  \<open>Dates\<close>: UTC times, their
    text and its reader.
  \<^item> The daemon.  \<open>Host\<close>: files, modes, programs, and a failure of any system call chosen by the
    environment.  \<open>HelperValid\<close>: the validators.  \<open>WgConf\<close>: splitting, rebuilding and reading a
    configuration text.  \<open>Helper\<close>: every command, the dispatch, the connection handler.
    \<open>HelperFrame\<close>: what a request can touch.  \<open>HelperFiles\<close>: atomic replacement, exclusive
    creation, the life of the key file.  \<open>TunnelText\<close>, \<open>TunnelRefine\<close>, \<open>HelperProps\<close>: the abstract
    tunnels (a map from names to keys, addresses, ports and peers), the relation \<open>represents\<close>
    between the map and the files, and the refinement of the abstract operations by the commands,
    for single requests and for runs.  \<open>Startup\<close>: the daemon's \<open>main\<close>.  \<open>HelperGaps\<close>: inputs on
    which the daemon departs from its comments, evaluated.
  \<^item> The daemon with several requests at once.  \<open>Coroutine\<close>: each command as its stages between the
    \<open>await\<close>s, proved to be the command of \<open>Helper\<close> when nothing interrupts it, and what a stage can
    do.  \<open>Interleave\<close>: the pool of jobs and its events (a request arrives, a program ends, a job
    goes on), any sequence of which is a schedule; the files are linearizable.  \<open>KeyFiles\<close>: the
    frame condition and the key files under any schedule.  \<open>Races\<close>: a schedule after which a
    deleted tunnel runs, and that this needs an overlap.  \<open>Turns\<close>: every request is answered after a
    bounded number of turns.
  \<^item> The application's WireGuard part.  \<open>HelperClient\<close> (wg_helper_client.py): the call over the
    socket, whose other end is a parameter, and its instance with the modelled daemon.  \<open>WgApp\<close>
    (wireguard.py): metadata, overlap check, address allocation, every handler; \<open>create_peer\<close> is
    split where it awaits the daemon, so that two requests can interleave.  \<open>WgAppProps\<close>: the
    invariant of the metadata, exactness of the check, allocation, the downloaded configuration,
    requests in sequence and interleaved.  \<open>Models\<close> (models.py): the bodies.  \<open>EndToEnd\<close>:
    handler, socket and daemon composed: files and metadata agree after a request.
    \<open>StatusTypes\<close>: the type of the daemon's status, on which the listings rely.  \<open>SystemInv\<close>: an
    invariant of metadata and files together that every handler keeps.
  \<^item> The other endpoints.  \<open>Commands\<close> (starting programs; system.py), \<open>Network\<close> and
    \<open>NetworkProps\<close> (network.py), \<open>Routing\<close> (routing.py), \<open>Web\<close> (auth.py, main.py, templating.py: signing
    in, the gate, redirects, the layers of exceptions and headers).
  \<^item> The application as a whole.  \<open>App\<close>: the table of all endpoints over one state of the device;
    without a user nothing changes, and with users the invariant holds.  \<open>Overlap\<close>: the WireGuard
    handlers cut at each call of the helper; the invariant holds in every schedule of overlapping
    requests, and what such requests can lose.  \<open>Settings\<close> (config.py,
    the settings and \<open>main\<close> of telemetry.py, the registration in auth.py): what is read from the
    environment.  \<open>Session\<close>: the session cookie that main.py configures, and requests that come
    from pages of other sites: they can only read and sign out.
  \<^item> Health.  \<open>Metrics\<close> (metrics.py), \<open>Monitor\<close> (monitor.py: the heartbeat as a function of
    beats and restarts, refined from the device's history; the process lists; the report),
    \<open>Telemetry\<close> (telemetry.py: discovery and state documents), \<open>Health\<close>: the life of the heartbeat
    task, and the agreement of dashboard and agent.  \<open>Sampling\<close>: a sample in its steps, and two
    threads that take samples of the same counters.  \<open>Agent\<close>: the life of the agent as its two
    threads, the loop of \<open>main\<close> and the callbacks of the MQTT client, in any schedule.

  \<^bold>\<open>Parameters.\<close>  Code outside of the repository is an argument: the programs wg, wg-quick, systemctl
  and nmcli (their status and output), the kernel's routes, psutil's readings, the sign-in
  library, the template engine, what the web framework answers by itself and makes of a body, the
  signature of the cookie, uuid4 and the clock.
  Hypotheses on them are named definitions: \<open>never_fails\<close> (no system call fails), \<open>gives_keys\<close>
  (wg prints well-formed keys), \<open>kernel_ok\<close>, \<open>keeps_user\<close>, \<open>external_idp\<close>, \<open>framework_direct\<close>,
  \<open>deployed\<close> (the socket leads to the daemon), \<open>only_reads\<close> (netlink queries
  change nothing), \<open>systemd\<close> (a concrete systemctl), \<open>fresh_ids\<close> (requests that overlap have
  different identities); each
  theorem that uses one has a witness with a concrete instance.

  \<^bold>\<open>Which requests.\<close>  The frame conditions and the invariant of the whole device hold for every
  request.  The refinements of the daemon by abstract tunnels exclude requests in an \<open>odd_form\<close>
  (\<open>HelperProps\<close>: a key with a final line break, an IPv6 scope in an address or network, a boolean
  keepalive), whose accepted text can break the structure of a file, as \<open>HelperGaps\<close> evaluates;
  by the invariant of the device no request of the application's handlers does that.

  \<^bold>\<open>Bounds and fuel.\<close>  \<open>loads\<close> gives its scanner twice the length of the text plus two, more than
  the nesting any text of that length has, and the round trip shows that it suffices for
  every printed value; the reader of a line stops at 65536 characters, asyncio's default limit, and
  the transparency of the socket assumes shorter lines.  \<open>follow\<close> gives a browser three or
  four requests, and \<open>redirects_end\<close> shows that they suffice.  Characters are the code points
  below 256; numbers with a fraction are rationals, so the rounding of floating point and JSON
  numbers of the state file are not modelled; calendar years are those of \<open>datetime\<close>.

  \<^bold>\<open>Not modelled.\<close>  The text of log lines (but not the exception that logging raises for a reserved
  field, which changes answers); static files, and what the framework's router accepts beyond the
  exact path (a final line break, a slash it redirects); how pydantic reads integers of the
  environment and JSON bodies; metadata whose JSON is an object of another structure than the
  module writes; delivery by the MQTT client, whose connections and losses are events of \<open>Agent\<close>; the overlap of handlers
  other than those of wireguard.py (they keep no state of their own between two programs), and of the
  steps of a command inside the daemon with those of a handler (\<open>Overlap\<close> takes a call of the helper
  as one step, \<open>Interleave\<close> shows that the edits of tunnels behave so); the templates, the browser's
  JavaScript and the shell scripts that deploy and update the application.
\<close>

end
